(* ===== verification/GS_Prelude.thy ===== *)
theory GS_Prelude
  imports Main "HOL-Library.Word" "HOL-Library.Monad_Syntax"
begin

text \<open>
  Shared vocabulary of the development: the machine integers and byte buffers of the engine, the
  Rust operations on slices that can panic, big-endian encoding, IP and socket addresses.

  Conventions used by every component:
  \<^item> \<open>u8\<close>, \<open>u16\<close>, \<open>u32\<close>, \<open>u64\<close> are words of that width (arithmetic wraps, as in the release
    profile); \<open>usize\<close> lengths and offsets are \<open>nat\<close>;
  \<^item> a function that can only panic returns \<open>'a option\<close>, with \<open>None\<close> for the panic, so that the
    \<^theory_text>\<open>do\<close> notation of \<open>Monad_Syntax\<close> propagates it;
  \<^item> a Rust \<open>Result<T, E>\<close> is the sum \<open>'e + 'a\<close> with \<open>Inl\<close> for \<open>Err\<close> and \<open>Inr\<close> for \<open>Ok\<close>; a
    function that may do both returns \<open>('e + 'a) option\<close>.
\<close>

unbundle bit_operations_syntax

named_theorems slice_simps \<open>bounds-checked slice operations, solved by arithmetic on lengths\<close>
named_theorems be_simps \<open>big-endian encoding and decoding\<close>

section \<open>Machine integers and buffers\<close>

type_synonym u8 = "8 word"
type_synonym u16 = "16 word"
type_synonym u32 = "32 word"
type_synonym u64 = "64 word"
type_synonym i32 = "32 word"
type_synonym bytes = "u8 list"

section \<open>Slice operations that panic out of range\<close>

text \<open>Bounds stay arithmetic: \<open>0 < length xs\<close> is not turned into \<open>xs \<noteq> []\<close>.\<close>

declare length_greater_0_conv [simp del]

definition idx :: "'a list \<Rightarrow> nat \<Rightarrow> 'a option" where
  "idx xs i = (if i < length xs then Some (xs ! i) else None)"

definition set_idx :: "'a list \<Rightarrow> nat \<Rightarrow> 'a \<Rightarrow> 'a list option" where
  "set_idx xs i v = (if i < length xs then Some (xs[i := v]) else None)"

definition subslice :: "'a list \<Rightarrow> nat \<Rightarrow> nat \<Rightarrow> 'a list option" where
  "subslice xs a b = (if a \<le> b \<and> b \<le> length xs then Some (take (b - a) (drop a xs)) else None)"

text \<open>\<open>xs[a..b].copy_from_slice(src)\<close>: panics out of range and on a length mismatch.\<close>

definition copy_slice :: "'a list \<Rightarrow> nat \<Rightarrow> nat \<Rightarrow> 'a list \<Rightarrow> 'a list option" where
  "copy_slice xs a b src =
     (if a \<le> b \<and> b \<le> length xs \<and> length src = b - a
      then Some (take a xs @ src @ drop b xs) else None)"

lemma idx_in [simp, slice_simps]: "i < length xs \<Longrightarrow> idx xs i = Some (xs ! i)"
  by (simp add: idx_def)

lemma idx_out [slice_simps]: "length xs \<le> i \<Longrightarrow> idx xs i = None"
  by (simp add: idx_def)

lemma set_idx_in [simp, slice_simps]: "i < length xs \<Longrightarrow> set_idx xs i v = Some (xs[i := v])"
  by (simp add: set_idx_def)

lemma subslice_in [simp, slice_simps]:
  "a \<le> b \<Longrightarrow> b \<le> length xs \<Longrightarrow> subslice xs a b = Some (take (b - a) (drop a xs))"
  by (simp add: subslice_def)

lemma subslice_out [slice_simps]: "\<not> (a \<le> b \<and> b \<le> length xs) \<Longrightarrow> subslice xs a b = None"
  by (simp add: subslice_def)

lemma copy_slice_in [simp, slice_simps]:
  "a \<le> b \<Longrightarrow> b \<le> length xs \<Longrightarrow> length src = b - a \<Longrightarrow>
     copy_slice xs a b src = Some (take a xs @ src @ drop b xs)"
  by (simp add: copy_slice_def)

text \<open>Writing two bytes through a slice is two list updates; the packet code writes ports and
  checksums this way.\<close>

lemma splice2: "Suc a < length xs \<Longrightarrow> take a xs @ [x, y] @ drop (a + 2) xs = xs[a := x, Suc a := y]"
proof (induction xs arbitrary: a)
  case Nil
  then show ?case by simp
next
  case (Cons z zs)
  then show ?case
    by (cases a; cases zs) auto
qed

lemma copy_slice_2:
  "Suc a < length xs \<Longrightarrow> copy_slice xs a (a + 2) [x, y] = Some (xs[a := x, Suc a := y])"
  by (simp add: splice2 [simplified])

lemma subslice_nth: "subslice xs a b = Some ys \<Longrightarrow> i < b - a \<Longrightarrow> ys ! i = xs ! (a + i)"
  by (auto simp: subslice_def split: if_splits)

lemma length_subslice: "subslice xs a b = Some ys \<Longrightarrow> length ys = b - a"
  by (auto simp: subslice_def split: if_splits)

section \<open>Big-endian integers\<close>

definition from_be16 :: "u8 \<Rightarrow> u8 \<Rightarrow> u16" where
  "from_be16 a b = ucast a * 256 + ucast b"

definition from_be32 :: "u8 \<Rightarrow> u8 \<Rightarrow> u8 \<Rightarrow> u8 \<Rightarrow> u32" where
  "from_be32 a b c d = ucast a * 16777216 + ucast b * 65536 + ucast c * 256 + ucast d"

definition to_be16 :: "u16 \<Rightarrow> bytes" where
  "to_be16 w = [ucast (drop_bit 8 w), ucast w]"

definition to_be32 :: "u32 \<Rightarrow> bytes" where
  "to_be32 w = [ucast (drop_bit 24 w), ucast (drop_bit 16 w), ucast (drop_bit 8 w), ucast w]"

lemma unat_u8_less: "unat (a :: u8) < 256"
  using unsigned_less [of a] by simp

lemma unat_u16_less: "unat (a :: u16) < 65536"
  using unsigned_less [of a] by simp

lemma unat_u32_less: "unat (a :: u32) < 4294967296"
  using unsigned_less [of a] by simp

lemma unat_not_u16: "unat (NOT (w :: u16)) = 65535 - unat w"
proof -
  have "NOT w = - 1 - w" by (simp add: not_eq_complement)
  then show ?thesis by (simp add: unat_sub unsigned_minus_1_eq_mask mask_eq_exp_minus_1)
qed

lemma base_digit_eq:
  fixes a b c d n :: nat
  assumes "b < n" and "d < n" and "a * n + b = c * n + d"
  shows "a = c \<and> b = d"
proof -
  have "(a * n + b) div n = (c * n + d) div n" and "(a * n + b) mod n = (c * n + d) mod n"
    using assms(3) by simp_all
  with assms(1,2) show ?thesis by simp
qed

lemma be16_bound: "unat (a :: u8) * 256 + unat (b :: u8) < 65536"
  using unat_u8_less [of a] unat_u8_less [of b] by linarith

lemma unat_from_be16 [be_simps]: "unat (from_be16 a b) = unat a * 256 + unat b"
proof -
  have "unat a * 256 + unat b < 65536"
    using unat_u8_less [of a] unat_u8_less [of b] by linarith
  then show ?thesis
    using unat_u8_less [of a] unat_u8_less [of b]
    by (simp add: from_be16_def unat_word_ariths unsigned_ucast_eq take_bit_nat_eq_self)
qed

lemma length_to_be16 [simp]: "length (to_be16 w) = 2"
  by (simp add: to_be16_def)

lemma length_to_be32 [simp]: "length (to_be32 w) = 4"
  by (simp add: to_be32_def)

lemma from_be16_inj [simp]: "from_be16 a b = from_be16 c d \<longleftrightarrow> a = c \<and> b = d"
proof
  assume "from_be16 a b = from_be16 c d"
  then have "unat a * 256 + unat b = unat c * 256 + unat d"
    by (metis unat_from_be16)
  then have "unat a = unat c \<and> unat b = unat d"
    using base_digit_eq [OF unat_u8_less unat_u8_less] by blast
  then show "a = c \<and> b = d" by (simp add: word_unat_eq_iff)
qed simp

lemma from_be16_to_be16 [be_simps]: "from_be16 (to_be16 w ! 0) (to_be16 w ! 1) = w"
proof (rule word_unat_eq_iff [THEN iffD2])
  have "unat (ucast (drop_bit 8 w) :: u8) = unat w div 256"
    using unat_u16_less [of w]
    by (simp add: unsigned_ucast_eq unsigned_drop_bit_eq drop_bit_nat_def take_bit_nat_def
        div_less_iff_less_mult)
  moreover have "unat (ucast w :: u8) = unat w mod 256"
    by (simp add: unsigned_ucast_eq take_bit_nat_def)
  ultimately show "unat (from_be16 (to_be16 w ! 0) (to_be16 w ! 1)) = unat w"
    by (simp add: unat_from_be16 to_be16_def)
qed

lemma to_be16_from_be16 [be_simps]: "to_be16 (from_be16 a b) = [a, b]"
proof -
  have "from_be16 (to_be16 (from_be16 a b) ! 0) (to_be16 (from_be16 a b) ! 1) = from_be16 a b"
    by (rule from_be16_to_be16)
  then show ?thesis by (simp add: to_be16_def)
qed

lemma unat_from_be32 [be_simps]:
  "unat (from_be32 a b c d) =
     unat a * 16777216 + unat b * 65536 + unat c * 256 + unat d"
proof -
  have "unat a * 16777216 + unat b * 65536 + unat c * 256 + unat d < 4294967296"
    using unat_u8_less [of a] unat_u8_less [of b] unat_u8_less [of c] unat_u8_less [of d]
    by linarith
  then show ?thesis
    using unat_u8_less [of a] unat_u8_less [of b] unat_u8_less [of c] unat_u8_less [of d]
    by (simp add: from_be32_def unat_word_ariths unsigned_ucast_eq take_bit_nat_eq_self)
qed

lemma div_mod_decomp4:
  fixes n :: nat
  assumes "n < 4294967296"
  shows "n div 16777216 mod 256 * 16777216 + n div 65536 mod 256 * 65536 +
         n div 256 mod 256 * 256 + n mod 256 = n"
proof -
  have "n div 16777216 < 256" using assms by (simp add: div_less_iff_less_mult)
  then have a: "n div 16777216 mod 256 = n div 65536 div 256" by (simp add: div_mult2_eq [symmetric])
  have b: "n div 65536 = n div 256 div 256" by (simp add: div_mult2_eq [symmetric])
  show ?thesis
    using div_mult_mod_eq [of "n div 65536" 256] div_mult_mod_eq [of "n div 256" 256]
      div_mult_mod_eq [of n 256] a b by linarith
qed

lemma from_be32_to_be32 [be_simps]:
  "from_be32 (to_be32 w ! 0) (to_be32 w ! 1) (to_be32 w ! 2) (to_be32 w ! 3) = w"
proof (rule word_unat_eq_iff [THEN iffD2])
  define n where "n = unat w"
  have n: "n < 4294967296" unfolding n_def by (rule unat_u32_less)
  have d: "unat (ucast (drop_bit k w) :: u8) = n div 2 ^ k mod 256" for k
    using n unfolding n_def
    by (simp add: unsigned_ucast_eq unsigned_drop_bit_eq drop_bit_nat_def take_bit_nat_eq_self
        take_bit_nat_def [of 8])
  have "unat (from_be32 (to_be32 w ! 0) (to_be32 w ! 1) (to_be32 w ! 2) (to_be32 w ! 3)) =
      n div 16777216 mod 256 * 16777216 + n div 65536 mod 256 * 65536 +
      n div 256 mod 256 * 256 + n mod 256"
    using d [of 24] d [of 16] d [of 8] d [of 0]
    by (simp add: unat_from_be32 to_be32_def)
  also have "\<dots> = n"
    using n by (rule div_mod_decomp4)
  finally show "unat (from_be32 (to_be32 w ! 0) (to_be32 w ! 1) (to_be32 w ! 2) (to_be32 w ! 3))
      = unat w"
    by (simp add: n_def)
qed

section \<open>Saturating arithmetic\<close>

text \<open>\<open>saturating_mul\<close> and \<open>saturating_pow\<close> of \<open>u64\<close>, \<open>saturating_sub\<close> of \<open>u32\<close>; the session and the SOCKS
  client both compute their reconnect delay with them.\<close>

definition saturating_mul :: "u64 \<Rightarrow> u64 \<Rightarrow> u64" where
  "saturating_mul a b = (if unat a * unat b < 2 ^ 64 then a * b else -1)"

definition saturating_pow :: "u64 \<Rightarrow> u32 \<Rightarrow> u64" where
  "saturating_pow a n = (if unat a ^ unat n < 2 ^ 64 then a ^ unat n else -1)"

definition saturating_sub :: "u32 \<Rightarrow> u32 \<Rightarrow> u32" where
  "saturating_sub a b = (if b \<le> a then a - b else 0)"

lemma unat_saturating_pow2: "unat (saturating_pow 2 n) = min (2 ^ unat n) (2 ^ 64 - 1)"
proof (cases "(2 :: nat) ^ unat n < 2 ^ 64")
  case True
  have n: "unat n < 64"
    by (rule power_less_imp_less_exp [of "2 :: nat"]) (simp, rule True)
  have "(2 :: u64) ^ unat n = word_of_nat (2 ^ unat n)" by simp
  also have "unat (word_of_nat (2 ^ unat n) :: u64) = 2 ^ unat n"
    by (subst unsigned_of_nat) (use n in \<open>simp add: take_bit_nat_eq_self\<close>)
  finally have "unat ((2 :: u64) ^ unat n) = 2 ^ unat n" .
  with True show ?thesis by (simp add: saturating_pow_def)
next
  case False
  then show ?thesis by (simp add: saturating_pow_def unsigned_minus_1_eq_mask mask_eq_exp_minus_1)
qed

lemma unat_saturating_mul: "unat (saturating_mul a b) = min (unat a * unat b) (2 ^ 64 - 1)"
proof (cases "unat a * unat b < 2 ^ 64")
  case True
  then have "unat (a * b) = unat a * unat b" by (simp add: unat_word_ariths)
  with True show ?thesis by (simp add: saturating_mul_def)
next
  case False
  then show ?thesis by (simp add: saturating_mul_def unsigned_minus_1_eq_mask mask_eq_exp_minus_1)
qed

lemma unat_saturating_sub1: "unat (saturating_sub n 1) = unat n - 1"
proof (cases "n = 0")
  case False
  then have "1 \<le> n" by (simp add: word_le_nat_alt unat_gt_0 Suc_le_eq)
  then show ?thesis by (simp add: saturating_sub_def unat_sub)
qed (simp add: saturating_sub_def)

lemma unat_backoff_ms:
  "unat (min (saturating_mul 250 (saturating_pow 2 (saturating_sub attempt 1))) 30000)
     = min (250 * 2 ^ (unat attempt - 1)) 30000"
proof -
  have "unat (saturating_mul 250 (saturating_pow 2 (saturating_sub attempt 1)))
      = min (250 * min (2 ^ (unat attempt - 1)) (2 ^ 64 - 1)) (2 ^ 64 - 1)"
    by (simp add: unat_saturating_mul unat_saturating_pow2 unat_saturating_sub1)
  then show ?thesis
    by (auto simp: min_def word_le_nat_alt split: if_splits)
qed

section \<open>Network addresses\<close>

text \<open>
  \<open>Ipv4Addr\<close> is four octets and \<open>Ipv6Addr\<close> a 128-bit value, as its four big-endian 32-bit parts. A
  \<open>SocketAddr\<close> is an address and a port: the engine builds every V6 socket address with
  \<open>SocketAddr::new\<close>, which leaves flow information and scope at 0.
\<close>

datatype Ipv4Addr = Ipv4Addr u8 u8 u8 u8

datatype Ipv6Addr = Ipv6Addr u32 u32 u32 u32

datatype IpAddr = V4 Ipv4Addr | V6 Ipv6Addr

datatype SocketAddr = SocketAddr (sa_ip: IpAddr) (sa_port: u16)

primrec ipv4_octets :: "Ipv4Addr \<Rightarrow> bytes" where
  "ipv4_octets (Ipv4Addr a b c d) = [a, b, c, d]"

primrec ipv6_octets :: "Ipv6Addr \<Rightarrow> bytes" where
  "ipv6_octets (Ipv6Addr a b c d) = to_be32 a @ to_be32 b @ to_be32 c @ to_be32 d"

text \<open>\<open>Ipv6Addr::from([u8; 16])\<close>; callers pass 16 bytes.\<close>

definition ipv6_from :: "bytes \<Rightarrow> Ipv6Addr" where
  "ipv6_from bs =
     Ipv6Addr (from_be32 (bs ! 0) (bs ! 1) (bs ! 2) (bs ! 3))
              (from_be32 (bs ! 4) (bs ! 5) (bs ! 6) (bs ! 7))
              (from_be32 (bs ! 8) (bs ! 9) (bs ! 10) (bs ! 11))
              (from_be32 (bs ! 12) (bs ! 13) (bs ! 14) (bs ! 15))"

lemma length_ipv4_octets [simp]: "length (ipv4_octets a) = 4"
  by (cases a) simp

lemma length_ipv6_octets [simp]: "length (ipv6_octets a) = 16"
  by (cases a) simp

lemma to_be32_from_be32 [be_simps]: "to_be32 (from_be32 a b c d) = [a, b, c, d]"
proof -
  define w where "w = from_be32 a b c d"
  obtain x y z u where bs: "to_be32 w = [x, y, z, u]" by (simp add: to_be32_def)
  have "from_be32 x y z u = w" using from_be32_to_be32 [of w] by (simp add: bs)
  then have eq: "unat x * 16777216 + unat y * 65536 + unat z * 256 + unat u =
      unat a * 16777216 + unat b * 65536 + unat c * 256 + unat d"
    unfolding w_def by (metis unat_from_be32)
  have hi: "((unat x * 256 + unat y) * 256 + unat z) * 256 + unat u =
      ((unat a * 256 + unat b) * 256 + unat c) * 256 + unat d"
    using eq by simp
  note digit = base_digit_eq [OF unat_u8_less unat_u8_less]
  from digit [OF hi] have "unat u = unat d"
    and 1: "(unat x * 256 + unat y) * 256 + unat z = (unat a * 256 + unat b) * 256 + unat c"
    by auto
  moreover from digit [OF 1] have "unat z = unat c"
    and 2: "unat x * 256 + unat y = unat a * 256 + unat b" by auto
  moreover from digit [OF 2] have "unat x = unat a" and "unat y = unat b" by auto
  ultimately show ?thesis using bs by (simp add: w_def word_unat_eq_iff)
qed

lemma ipv6_from_octets [simp]: "ipv6_from (ipv6_octets a) = a"
proof (cases a)
  case (Ipv6Addr w x y z)
  then show ?thesis
    using from_be32_to_be32 [of w] from_be32_to_be32 [of x] from_be32_to_be32 [of y]
      from_be32_to_be32 [of z]
    by (simp add: ipv6_from_def nth_append)
qed

lemma list16:
  "length bs = 16 \<Longrightarrow>
     bs = [bs ! 0, bs ! 1, bs ! 2, bs ! 3, bs ! 4, bs ! 5, bs ! 6, bs ! 7,
           bs ! 8, bs ! 9, bs ! 10, bs ! 11, bs ! 12, bs ! 13, bs ! 14, bs ! 15]"
  by (rule nth_equalityI) (auto simp: less_Suc_eq numeral_eq_Suc)

lemma ipv6_octets_from [simp]: "length bs = 16 \<Longrightarrow> ipv6_octets (ipv6_from bs) = bs"
  using list16 [of bs] by (simp add: ipv6_from_def to_be32_from_be32)

end
