(* ===== verification/Checksum.thy ===== *)
theory Checksum
  imports GS_Prelude
begin

text \<open>
  The Internet checksum of \<open>gravital-proto/src/checksum.rs\<close>: the accumulation loop over
  \<open>chunks_exact(2)\<close>, the carry-folding loop, \<open>internet_checksum\<close>, \<open>pseudo_header_v4\<close> and \<open>fold\<close>.
  The reference is the arithmetic of RFC 1071: the one's complement sum of the big-endian 16-bit
  words, computed on unbounded naturals. The lemmas show that the 32-bit accumulator never
  overflows on the buffers the engine handles and that storing the complement of the sum makes the
  buffer sum to zero, which is what a receiver checks.
\<close>

named_theorems csum_simps \<open>checksum sums on natural numbers\<close>

section \<open>The code\<close>

text \<open>\<open>data.chunks_exact(2)\<close> and its \<open>remainder()\<close>.\<close>

fun chunks_exact2 :: "bytes \<Rightarrow> (u8 \<times> u8) list" where
  "chunks_exact2 (a # b # rest) = (a, b) # chunks_exact2 rest"
| "chunks_exact2 _ = []"

fun chunks_remainder2 :: "bytes \<Rightarrow> bytes" where
  "chunks_remainder2 (a # b # rest) = chunks_remainder2 rest"
| "chunks_remainder2 rest = rest"

text \<open>\<open>for chunk in chunks { sum += u32::from(u16::from_be_bytes([chunk[0], chunk[1]])) }\<close>.\<close>

definition add_chunks :: "u32 \<Rightarrow> (u8 \<times> u8) list \<Rightarrow> u32" where
  "add_chunks acc cs = foldl (\<lambda>s (a, b). s + ucast (from_be16 a b)) acc cs"

text \<open>\<open>while sum >> 16 != 0 { sum = (sum & 0xFFFF) + (sum >> 16) }\<close>.\<close>

function fold_carry :: "u32 \<Rightarrow> u32" where
  "fold_carry acc =
     (if drop_bit 16 acc \<noteq> 0 then fold_carry ((acc AND 0xFFFF) + drop_bit 16 acc) else acc)"
  by pat_completeness auto

lemma unat_hi: "unat (drop_bit 16 (s :: u32)) = unat s div 65536"
  using unat_u32_less [of s]
  by (simp add: unsigned_drop_bit_eq drop_bit_nat_def take_bit_nat_eq_self)

lemma unat_lo: "unat ((s :: u32) AND 0xFFFF) = unat s mod 65536"
proof -
  have "s AND 0xFFFF = take_bit 16 s"
    by (simp add: take_bit_eq_mask mask_numeral)
  then show ?thesis
    by (simp add: unsigned_take_bit_eq take_bit_nat_def)
qed

lemma unat_carry_step:
  "unat ((s AND 0xFFFF) + drop_bit 16 (s :: u32)) = unat s mod 65536 + unat s div 65536"
proof -
  have "unat s mod 65536 < 65536" by simp
  moreover have "unat s div 65536 < 65536"
    using unat_u32_less [of s] by (simp add: div_less_iff_less_mult)
  ultimately have "unat s mod 65536 + unat s div 65536 < 2 ^ 32" by simp
  then show ?thesis by (simp add: unat_word_ariths unat_hi unat_lo)
qed

lemma drop16_eq_0: "drop_bit 16 (s :: u32) = 0 \<longleftrightarrow> unat s < 65536"
  by (simp add: word_unat_eq_iff unat_hi div_eq_0_iff)

termination fold_carry
proof (relation "measure unat")
  fix s :: u32
  assume "drop_bit 16 s \<noteq> 0"
  then have "65536 \<le> unat s" by (simp add: drop16_eq_0)
  then have "1 \<le> unat s div 65536" by (simp add: Suc_le_eq div_greater_zero_iff)
  moreover have "unat s = 65536 * (unat s div 65536) + unat s mod 65536" by simp
  ultimately have "unat s mod 65536 + unat s div 65536 < unat s" by linarith
  then show "((s AND 0xFFFF) + drop_bit 16 s, s) \<in> measure unat"
    by (simp add: unat_carry_step)
qed simp

declare fold_carry.simps [simp del]

definition internet_checksum :: "bytes \<Rightarrow> u16" where
  "internet_checksum data =
     (let sum = add_chunks 0 (chunks_exact2 data);
          sum = (case chunks_remainder2 data of
                   b # _ \<Rightarrow> sum + ucast (from_be16 b 0)
                 | [] \<Rightarrow> sum)
      in NOT (ucast (fold_carry sum)))"

text \<open>The addresses are \<open>[u8; 4]\<close> arrays, given by their four bytes.\<close>

definition pseudo_header_v4 ::
  "u8 \<times> u8 \<times> u8 \<times> u8 \<Rightarrow> u8 \<times> u8 \<times> u8 \<times> u8 \<Rightarrow> u8 \<Rightarrow> u16 \<Rightarrow> u32" where
  "pseudo_header_v4 src dst proto len =
     (case src of (s0, s1, s2, s3) \<Rightarrow> case dst of (d0, d1, d2, d3) \<Rightarrow>
      let sum = (0 :: u32);
          sum = sum + ucast (from_be16 s0 s1);
          sum = sum + ucast (from_be16 s2 s3);
          sum = sum + ucast (from_be16 d0 d1);
          sum = sum + ucast (from_be16 d2 d3);
          sum = sum + ucast (from_be16 0 proto);
          sum = sum + ucast len
      in sum)"

definition fold_acc :: "u32 \<Rightarrow> u16" where
  "fold_acc acc = NOT (ucast (fold_carry acc))"

text \<open>
  The accumulation as \<open>rewrite.rs\<close> and \<open>runner.rs\<close> write it: the chunk loop, then
  \<open>if let [tail] = chunks.remainder() { sum += (*tail as u32) << 8 }\<close>.
\<close>

definition acc_words :: "u32 \<Rightarrow> bytes \<Rightarrow> u32" where
  "acc_words acc data =
     (let sum = add_chunks acc (chunks_exact2 data)
      in case chunks_remainder2 data of
           [tail] \<Rightarrow> sum + push_bit 8 (ucast tail)
         | _ \<Rightarrow> sum)"

section \<open>The reference: one's complement arithmetic on naturals\<close>

fun word_sum :: "bytes \<Rightarrow> nat" where
  "word_sum (a # b # rest) = 256 * unat a + unat b + word_sum rest"
| "word_sum [a] = 256 * unat a"
| "word_sum [] = 0"

definition ones_sum :: "nat \<Rightarrow> nat" where
  "ones_sum n = (if n = 0 then 0 else (n - 1) mod 65535 + 1)"

lemma ones_sum_le: "ones_sum n \<le> 65535"
  by (simp add: ones_sum_def Suc_le_eq)

lemma ones_sum_small: "n < 65536 \<Longrightarrow> ones_sum n = n"
  by (auto simp: ones_sum_def)

lemma pred_mod:
  assumes "0 < (m::nat)" and "0 < k"
  shows "(m - 1) mod k = (m mod k + (k - 1)) mod k"
proof -
  have "m + (k - 1) = (m - 1) + k" using assms by simp
  then have "(m + (k - 1)) mod k = (m - 1) mod k" by simp
  then show ?thesis by (simp add: mod_add_left_eq)
qed

lemma ones_sum_cong:
  assumes "m mod 65535 = n mod 65535" and "0 < m" and "0 < n"
  shows "ones_sum m = ones_sum n"
  using assms pred_mod [of m 65535] pred_mod [of n 65535] by (simp add: ones_sum_def)

lemma ones_sum_complement: "ones_sum (n + (65535 - ones_sum n)) = 65535"
proof (cases "n = 0")
  case True
  then show ?thesis by (simp add: ones_sum_def)
next
  case False
  define q where "q = (n - 1) mod 65535"
  have "q \<le> n - 1" and "q < 65535" by (simp_all add: q_def)
  moreover have "ones_sum n = q + 1" using False by (simp add: ones_sum_def q_def)
  ultimately have "n + (65535 - ones_sum n) = (n - 1) - q + 65535"
    using False by linarith
  also have "\<dots> = 65535 * ((n - 1) div 65535) + 65535"
    by (simp only: q_def minus_mod_eq_mult_div)
  finally have "(n + (65535 - ones_sum n)) mod 65535 = 65535 mod 65535"
    by simp
  with False have "ones_sum (n + (65535 - ones_sum n)) = ones_sum 65535"
    by (intro ones_sum_cong) auto
  then show ?thesis by (simp add: ones_sum_def)
qed

text \<open>The folding loop computes the one's complement sum of its argument.\<close>

lemma unat_fold_carry: "unat (fold_carry s) = ones_sum (unat s)"
proof (induction s rule: fold_carry.induct)
  case (1 s)
  show ?case
  proof (cases "drop_bit 16 s = 0")
    case True
    then show ?thesis
      by (simp add: fold_carry.simps [of s] drop16_eq_0 ones_sum_small)
  next
    case False
    let ?s' = "(s AND 0xFFFF) + drop_bit 16 s"
    have big: "65536 \<le> unat s" using False by (simp add: drop16_eq_0)
    have "unat s = 65535 * (unat s div 65536) + unat ?s'"
      using mult_div_mod_eq [of 65536 "unat s"] by (simp add: unat_carry_step)
    then have "unat s mod 65535 = unat ?s' mod 65535"
      by (metis mod_mult_self4)
    moreover have "0 < unat ?s'"
      using big by (simp add: unat_carry_step div_greater_zero_iff)
    ultimately have "ones_sum (unat ?s') = ones_sum (unat s)"
      using big by (intro ones_sum_cong) auto
    with 1 False show ?thesis by (simp add: fold_carry.simps [of s])
  qed
qed

lemma unat_fold_acc: "unat (fold_acc s) = 65535 - ones_sum (unat s)"
proof -
  have "unat (ucast (fold_carry s) :: u16) = ones_sum (unat s)"
    using ones_sum_le [of "unat s"]
    by (simp add: unsigned_ucast_eq take_bit_nat_eq_self unat_fold_carry)
  then show ?thesis by (simp add: fold_acc_def unat_not_u16)
qed

section \<open>The accumulation loop\<close>

lemma acc_words_simps [simp]:
  "acc_words acc [] = acc"
  "acc_words acc [a] = acc + push_bit 8 (ucast a)"
  "acc_words acc (a # b # rest) = acc_words (acc + ucast (from_be16 a b)) rest"
  by (simp_all add: acc_words_def add_chunks_def Let_def)

lemma be16_tail: "(ucast (from_be16 b 0) :: u32) = push_bit 8 (ucast b)"
proof (rule word_unat_eq_iff [THEN iffD2])
  show "unat (ucast (from_be16 b 0) :: u32) = unat (push_bit 8 (ucast b) :: u32)"
    using unat_u8_less [of b]
    by (simp add: unsigned_ucast_eq take_bit_nat_eq_self unat_from_be16 unsigned_push_bit_eq
        push_bit_nat_def)
qed

text \<open>Both spellings of the odd byte give the same accumulator.\<close>

lemma internet_checksum_acc: "internet_checksum data = fold_acc (acc_words 0 data)"
proof -
  have "length (chunks_remainder2 data) \<le> 1"
    by (induction data rule: chunks_remainder2.induct) auto
  then show ?thesis
    by (auto simp: internet_checksum_def fold_acc_def acc_words_def be16_tail Let_def
        split: list.split)
qed

lemma word_sum_bound: "word_sum data \<le> 65535 * ((length data + 1) div 2)"
proof (induction data rule: word_sum.induct)
  case (1 a b rest)
  have "256 * unat a + unat b \<le> 65535"
    using unat_u8_less [of a] unat_u8_less [of b] by linarith
  with 1 show ?case by simp
next
  case (2 a)
  show ?case using unat_u8_less [of a] by simp
qed simp

lemma word_sum_fits: "length data \<le> 131074 \<Longrightarrow> word_sum data < 4294967296"
proof -
  assume "length data \<le> 131074"
  then have "(length data + 1) div 2 \<le> 65537" by simp
  with word_sum_bound [of data] show ?thesis by linarith
qed

lemma unat_add_be16:
  assumes "unat acc + (256 * unat a + unat b) < 4294967296"
  shows "unat (acc + ucast (from_be16 a b) :: u32) = unat acc + (256 * unat a + unat b)"
proof -
  have "unat (ucast (from_be16 a b) :: u32) = 256 * unat a + unat b"
    using unat_u8_less [of a] unat_u8_less [of b]
    by (simp add: unsigned_ucast_eq take_bit_nat_eq_self unat_from_be16 mult.commute)
  with assms show ?thesis by (simp add: unat_word_ariths)
qed

lemma unat_acc_words:
  "unat acc + word_sum data < 4294967296 \<Longrightarrow> unat (acc_words acc data) = unat acc + word_sum data"
proof (induction data arbitrary: acc rule: word_sum.induct)
  case (1 a b rest)
  then have "unat (acc + ucast (from_be16 a b)) = unat acc + (256 * unat a + unat b)"
    by (intro unat_add_be16) simp
  with 1 show ?case by simp
next
  case (2 a)
  then show ?case
    using unat_add_be16 [of acc a 0] by (simp add: be16_tail)
qed simp

lemma word_sum_append: "even (length xs) \<Longrightarrow> word_sum (xs @ ys) = word_sum xs + word_sum ys"
  by (induction xs rule: word_sum.induct) auto

text \<open>Replacing an aligned 16-bit word changes the sum by that word.\<close>

lemma word_sum_update:
  "even k \<Longrightarrow> Suc k < length xs \<Longrightarrow>
     word_sum (xs[k := a, Suc k := b]) + (256 * unat (xs ! k) + unat (xs ! Suc k)) =
     word_sum xs + (256 * unat a + unat b)"
proof (induction xs arbitrary: k rule: word_sum.induct)
  case (1 x y rest)
  show ?case
  proof (cases k)
    case (Suc j)
    with 1 obtain m where "k = Suc (Suc m)" by (cases j) auto
    with 1 show ?thesis by simp
  qed simp
qed auto

section \<open>The checksum contract\<close>

text \<open>
  What every checksum routine of the engine promises its callers: on buffers of at most 131074
  bytes (twice the IPv4 maximum) the result is the complement of the one's complement sum. The
  routines of \<open>checksum.rs\<close>, \<open>rewrite.rs\<close> and \<open>runner.rs\<close> interpret this locale.
\<close>

locale rfc1071_checksum =
  fixes cs :: "bytes \<Rightarrow> u16"
  assumes cs_spec: "length data \<le> 131074 \<Longrightarrow> unat (cs data) = 65535 - ones_sum (word_sum data)"
begin

lemma zero_iff: "length data \<le> 131074 \<Longrightarrow> cs data = 0 \<longleftrightarrow> ones_sum (word_sum data) = 65535"
  using cs_spec [of data] ones_sum_le [of "word_sum data"] by (auto simp: word_unat_eq_iff)

lemma store_verifies:
  assumes len: "length data \<le> 131074" and k: "even k" "Suc k < length data"
    and zero: "data ! k = 0" "data ! Suc k = 0"
  shows "cs (data[k := to_be16 (cs data) ! 0, Suc k := to_be16 (cs data) ! 1]) = 0"
proof -
  let ?d = "data[k := to_be16 (cs data) ! 0, Suc k := to_be16 (cs data) ! 1]"
  have "256 * unat (to_be16 (cs data) ! 0) + unat (to_be16 (cs data) ! 1) = unat (cs data)"
    using unat_from_be16 [of "to_be16 (cs data) ! 0" "to_be16 (cs data) ! 1"]
    by (simp add: from_be16_to_be16 [simplified] mult.commute)
  then have "word_sum ?d = word_sum data + unat (cs data)"
    using word_sum_update [OF k, of "to_be16 (cs data) ! 0" "to_be16 (cs data) ! 1"] zero by simp
  then have "ones_sum (word_sum ?d) = 65535"
    using cs_spec [OF len] by (simp add: ones_sum_complement)
  with len show ?thesis by (simp add: zero_iff)
qed

end

interpretation proto_csum: rfc1071_checksum internet_checksum
proof
  fix data :: bytes
  assume "length data \<le> 131074"
  then show "unat (internet_checksum data) = 65535 - ones_sum (word_sum data)"
    by (simp add: internet_checksum_acc unat_fold_acc unat_acc_words word_sum_fits)
qed

end
