(* ===== verification/Packet_Views.thy ===== *)
theory Packet_Views
  imports Checksum
begin

text \<open>
  The zero-copy packet views of \<open>gravital-proto\<close>: \<open>ip.rs\<close>, \<open>tcp.rs\<close>, \<open>udp.rs\<close>, \<open>icmp.rs\<close> and the
  errors of \<open>error.rs\<close>. A view is the buffer it borrows; \<open>parse\<close> checks the lengths the accessors
  index at. Every index and slice is the panicking operation of \<open>GS_Prelude\<close>, so the lemmas state
  which accessors are safe on a parsed view and which are not.
\<close>

section \<open>Errors and protocol numbers\<close>

datatype ParseError =
    TruncatedHeader nat nat
  | InvalidVersion u8
  | InvalidChecksum u16 u16
  | UnsupportedProtocol u8
  | InvalidHeaderLength u8
  | PacketTooLarge nat

datatype IpProtocol = Icmp | Tcp | Udp | Ipv6Icmp | Other u8

definition IpProtocol_from :: "u8 \<Rightarrow> IpProtocol" where
  "IpProtocol_from v =
     (if v = 1 then Icmp
      else if v = 6 then Tcp
      else if v = 17 then Udp
      else if v = 58 then Ipv6Icmp
      else Other v)"

section \<open>IPv4\<close>

record Ipv4View =
  v4_bytes :: bytes

definition Ipv4View_parse :: "bytes \<Rightarrow> (ParseError + Ipv4View) option" where
  "Ipv4View_parse bytes =
     (if length bytes < 20 then Some (Inl (TruncatedHeader 20 (length bytes)))
      else do {
        b0 \<leftarrow> idx bytes 0;
        let ihl = unat (b0 AND 0x0F) * 4;
        if ihl < 20 then Some (Inl (InvalidHeaderLength (b0 AND 0x0F)))
        else if length bytes < ihl then Some (Inl (TruncatedHeader ihl (length bytes)))
        else Some (Inr \<lparr>v4_bytes = bytes\<rparr>)
      })"

definition Ipv4View_ihl :: "Ipv4View \<Rightarrow> nat option" where
  "Ipv4View_ihl v = do { b0 \<leftarrow> idx (v4_bytes v) 0; Some (unat (b0 AND 0x0F) * 4) }"

definition Ipv4View_src :: "Ipv4View \<Rightarrow> Ipv4Addr option" where
  "Ipv4View_src v = do {
     a \<leftarrow> idx (v4_bytes v) 12; b \<leftarrow> idx (v4_bytes v) 13;
     c \<leftarrow> idx (v4_bytes v) 14; d \<leftarrow> idx (v4_bytes v) 15;
     Some (Ipv4Addr a b c d) }"

definition Ipv4View_dst :: "Ipv4View \<Rightarrow> Ipv4Addr option" where
  "Ipv4View_dst v = do {
     a \<leftarrow> idx (v4_bytes v) 16; b \<leftarrow> idx (v4_bytes v) 17;
     c \<leftarrow> idx (v4_bytes v) 18; d \<leftarrow> idx (v4_bytes v) 19;
     Some (Ipv4Addr a b c d) }"

definition Ipv4View_protocol :: "Ipv4View \<Rightarrow> IpProtocol option" where
  "Ipv4View_protocol v = do { p \<leftarrow> idx (v4_bytes v) 9; Some (IpProtocol_from p) }"

definition Ipv4View_total_length :: "Ipv4View \<Rightarrow> u16 option" where
  "Ipv4View_total_length v = do {
     a \<leftarrow> idx (v4_bytes v) 2; b \<leftarrow> idx (v4_bytes v) 3; Some (from_be16 a b) }"

definition Ipv4View_ttl :: "Ipv4View \<Rightarrow> u8 option" where
  "Ipv4View_ttl v = idx (v4_bytes v) 8"

definition Ipv4View_payload :: "Ipv4View \<Rightarrow> bytes option" where
  "Ipv4View_payload v = do {
     total \<leftarrow> Ipv4View_total_length v;
     let end = min (unat total) (length (v4_bytes v));
     ihl \<leftarrow> Ipv4View_ihl v;
     subslice (v4_bytes v) ihl end }"

definition Ipv4View_verify_checksum :: "Ipv4View \<Rightarrow> (ParseError + unit) option" where
  "Ipv4View_verify_checksum v = do {
     ihl \<leftarrow> Ipv4View_ihl v;
     hdr \<leftarrow> subslice (v4_bytes v) 0 ihl;
     let csum = internet_checksum hdr;
     if csum \<noteq> 0 then do {
       a \<leftarrow> idx (v4_bytes v) 10; b \<leftarrow> idx (v4_bytes v) 11;
       Some (Inl (InvalidChecksum 0 (from_be16 a b)))
     } else Some (Inr ()) }"

section \<open>IPv6\<close>

record Ipv6View =
  v6_bytes :: bytes

definition Ipv6View_parse :: "bytes \<Rightarrow> ParseError + Ipv6View" where
  "Ipv6View_parse bytes =
     (if length bytes < 40 then Inl (TruncatedHeader 40 (length bytes))
      else Inr \<lparr>v6_bytes = bytes\<rparr>)"

definition Ipv6View_src :: "Ipv6View \<Rightarrow> Ipv6Addr option" where
  "Ipv6View_src v = do { b \<leftarrow> subslice (v6_bytes v) 8 24; Some (ipv6_from b) }"

definition Ipv6View_dst :: "Ipv6View \<Rightarrow> Ipv6Addr option" where
  "Ipv6View_dst v = do { b \<leftarrow> subslice (v6_bytes v) 24 40; Some (ipv6_from b) }"

definition Ipv6View_protocol :: "Ipv6View \<Rightarrow> IpProtocol option" where
  "Ipv6View_protocol v = do { p \<leftarrow> idx (v6_bytes v) 6; Some (IpProtocol_from p) }"

definition Ipv6View_payload_length :: "Ipv6View \<Rightarrow> u16 option" where
  "Ipv6View_payload_length v = do {
     a \<leftarrow> idx (v6_bytes v) 4; b \<leftarrow> idx (v6_bytes v) 5; Some (from_be16 a b) }"

definition Ipv6View_payload :: "Ipv6View \<Rightarrow> bytes option" where
  "Ipv6View_payload v = do {
     n \<leftarrow> Ipv6View_payload_length v;
     subslice (v6_bytes v) 40 (min (40 + unat n) (length (v6_bytes v))) }"

section \<open>The IP dispatch\<close>

definition Ipv4View_raw :: "Ipv4View \<Rightarrow> bytes" where
  "Ipv4View_raw v = v4_bytes v"

definition Ipv6View_raw :: "Ipv6View \<Rightarrow> bytes" where
  "Ipv6View_raw v = v6_bytes v"

datatype IpView = IpV4 Ipv4View | IpV6 Ipv6View

definition IpView_parse :: "bytes \<Rightarrow> (ParseError + IpView) option" where
  "IpView_parse buf =
     (if buf = [] then Some (Inl (TruncatedHeader 1 0))
      else do {
        b0 \<leftarrow> idx buf 0;
        let ver = drop_bit 4 b0;
        if ver = 4 then do {
          r \<leftarrow> Ipv4View_parse buf;
          Some (case r of Inl e \<Rightarrow> Inl e | Inr v \<Rightarrow> Inr (IpV4 v))
        } else if ver = 6 then
          Some (case Ipv6View_parse buf of Inl e \<Rightarrow> Inl e | Inr v \<Rightarrow> Inr (IpV6 v))
        else Some (Inl (InvalidVersion ver))
      })"

primrec IpView_protocol :: "IpView \<Rightarrow> IpProtocol option" where
  "IpView_protocol (IpV4 v) = Ipv4View_protocol v"
| "IpView_protocol (IpV6 v) = Ipv6View_protocol v"

primrec IpView_payload :: "IpView \<Rightarrow> bytes option" where
  "IpView_payload (IpV4 v) = Ipv4View_payload v"
| "IpView_payload (IpV6 v) = Ipv6View_payload v"

section \<open>TCP, UDP and ICMP\<close>

record TcpView =
  tcp_bytes :: bytes

definition TcpView_parse :: "bytes \<Rightarrow> (ParseError + TcpView) option" where
  "TcpView_parse bytes =
     (if length bytes < 20 then Some (Inl (TruncatedHeader 20 (length bytes)))
      else do {
        b \<leftarrow> idx bytes 12;
        let data_offset = unat (drop_bit 4 b) * 4;
        if data_offset < 20 then Some (Inl (InvalidHeaderLength (drop_bit 4 b)))
        else if length bytes < data_offset
             then Some (Inl (TruncatedHeader data_offset (length bytes)))
        else Some (Inr \<lparr>tcp_bytes = bytes\<rparr>)
      })"

definition TcpView_src_port :: "TcpView \<Rightarrow> u16 option" where
  "TcpView_src_port v = do {
     a \<leftarrow> idx (tcp_bytes v) 0; b \<leftarrow> idx (tcp_bytes v) 1; Some (from_be16 a b) }"

definition TcpView_dst_port :: "TcpView \<Rightarrow> u16 option" where
  "TcpView_dst_port v = do {
     a \<leftarrow> idx (tcp_bytes v) 2; b \<leftarrow> idx (tcp_bytes v) 3; Some (from_be16 a b) }"

definition TcpView_seq_num :: "TcpView \<Rightarrow> u32 option" where
  "TcpView_seq_num v = do {
     a \<leftarrow> idx (tcp_bytes v) 4; b \<leftarrow> idx (tcp_bytes v) 5;
     c \<leftarrow> idx (tcp_bytes v) 6; d \<leftarrow> idx (tcp_bytes v) 7; Some (from_be32 a b c d) }"

definition TcpView_ack_num :: "TcpView \<Rightarrow> u32 option" where
  "TcpView_ack_num v = do {
     a \<leftarrow> idx (tcp_bytes v) 8; b \<leftarrow> idx (tcp_bytes v) 9;
     c \<leftarrow> idx (tcp_bytes v) 10; d \<leftarrow> idx (tcp_bytes v) 11; Some (from_be32 a b c d) }"

text \<open>
  The flags type is generated by the \<open>bitflags\<close> crate from the six declared constants; its
  \<open>from_bits_truncate\<close> is the parameter \<open>trunc\<close>, given the union of the declared bits and the raw
  byte. \<open>bitflags_truncate\<close> states the documented behaviour: undeclared bits are cleared.
\<close>

definition TcpFlags_all :: u8 where
  "TcpFlags_all = 0x01 OR 0x02 OR 0x04 OR 0x08 OR 0x10 OR 0x20"

definition TcpView_flags :: "(u8 \<Rightarrow> u8 \<Rightarrow> u8) \<Rightarrow> TcpView \<Rightarrow> u8 option" where
  "TcpView_flags trunc v = do { b \<leftarrow> idx (tcp_bytes v) 13; Some (trunc TcpFlags_all b) }"

definition bitflags_truncate :: "(u8 \<Rightarrow> u8 \<Rightarrow> u8) \<Rightarrow> bool" where
  "bitflags_truncate trunc \<longleftrightarrow> (\<forall>declared raw. trunc declared raw = raw AND declared)"

definition TcpView_window_size :: "TcpView \<Rightarrow> u16 option" where
  "TcpView_window_size v = do {
     a \<leftarrow> idx (tcp_bytes v) 14; b \<leftarrow> idx (tcp_bytes v) 15; Some (from_be16 a b) }"

definition TcpView_header_len :: "TcpView \<Rightarrow> nat option" where
  "TcpView_header_len v = do { b \<leftarrow> idx (tcp_bytes v) 12; Some (unat (drop_bit 4 b) * 4) }"

definition TcpView_payload :: "TcpView \<Rightarrow> bytes option" where
  "TcpView_payload v = do {
     h \<leftarrow> TcpView_header_len v; subslice (tcp_bytes v) h (length (tcp_bytes v)) }"

record UdpView =
  udp_bytes :: bytes

definition UdpView_parse :: "bytes \<Rightarrow> ParseError + UdpView" where
  "UdpView_parse bytes =
     (if length bytes < 8 then Inl (TruncatedHeader 8 (length bytes))
      else Inr \<lparr>udp_bytes = bytes\<rparr>)"

definition UdpView_src_port :: "UdpView \<Rightarrow> u16 option" where
  "UdpView_src_port v = do {
     a \<leftarrow> idx (udp_bytes v) 0; b \<leftarrow> idx (udp_bytes v) 1; Some (from_be16 a b) }"

definition UdpView_dst_port :: "UdpView \<Rightarrow> u16 option" where
  "UdpView_dst_port v = do {
     a \<leftarrow> idx (udp_bytes v) 2; b \<leftarrow> idx (udp_bytes v) 3; Some (from_be16 a b) }"

definition UdpView_length :: "UdpView \<Rightarrow> u16 option" where
  "UdpView_length v = do {
     a \<leftarrow> idx (udp_bytes v) 4; b \<leftarrow> idx (udp_bytes v) 5; Some (from_be16 a b) }"

definition UdpView_checksum :: "UdpView \<Rightarrow> u16 option" where
  "UdpView_checksum v = do {
     a \<leftarrow> idx (udp_bytes v) 6; b \<leftarrow> idx (udp_bytes v) 7; Some (from_be16 a b) }"

definition UdpView_payload :: "UdpView \<Rightarrow> bytes option" where
  "UdpView_payload v = do {
     n \<leftarrow> UdpView_length v;
     subslice (udp_bytes v) 8 (min (unat n) (length (udp_bytes v))) }"

definition UdpView_is_dns :: "UdpView \<Rightarrow> bool option" where
  "UdpView_is_dns v = do { p \<leftarrow> UdpView_dst_port v; Some (p = 53) }"

datatype IcmpType =
    EchoReply
  | EchoRequest
  | DestinationUnreachable u8
  | TimeExceeded u8
  | OtherIcmp u8 u8

record IcmpView =
  icmp_bytes :: bytes

definition IcmpView_parse :: "bytes \<Rightarrow> ParseError + IcmpView" where
  "IcmpView_parse bytes =
     (if length bytes < 4 then Inl (TruncatedHeader 4 (length bytes))
      else Inr \<lparr>icmp_bytes = bytes\<rparr>)"

definition IcmpView_icmp_type :: "IcmpView \<Rightarrow> IcmpType option" where
  "IcmpView_icmp_type v = do {
     t \<leftarrow> idx (icmp_bytes v) 0;
     c \<leftarrow> idx (icmp_bytes v) 1;
     Some (if t = 0 \<and> c = 0 then EchoReply
           else if t = 8 \<and> c = 0 then EchoRequest
           else if t = 3 then DestinationUnreachable c
           else if t = 11 then TimeExceeded c
           else OtherIcmp t c) }"

definition IcmpView_checksum :: "IcmpView \<Rightarrow> u16 option" where
  "IcmpView_checksum v = do {
     a \<leftarrow> idx (icmp_bytes v) 2; b \<leftarrow> idx (icmp_bytes v) 3; Some (from_be16 a b) }"

definition IcmpView_payload :: "IcmpView \<Rightarrow> bytes option" where
  "IcmpView_payload v = subslice (icmp_bytes v) 4 (length (icmp_bytes v))"

section \<open>What a parsed view guarantees\<close>

text \<open>Well-formed IP headers, as the RFCs bound them: the reference for \<open>IpView::parse\<close>.\<close>

definition valid_ipv4 :: "bytes \<Rightarrow> bool" where
  "valid_ipv4 buf \<longleftrightarrow>
     20 \<le> length buf \<and> unat (hd buf) div 16 = 4 \<and> 5 \<le> unat (hd buf) mod 16 \<and>
     4 * (unat (hd buf) mod 16) \<le> length buf"

definition valid_ipv6 :: "bytes \<Rightarrow> bool" where
  "valid_ipv6 buf \<longleftrightarrow> 40 \<le> length buf \<and> unat (hd buf) div 16 = 6"

lemma unat_nibble_hi: "unat (drop_bit 4 (b :: u8)) = unat b div 16"
  using unat_u8_less [of b]
  by (simp add: unsigned_drop_bit_eq drop_bit_nat_def take_bit_nat_eq_self)

lemma unat_nibble_lo: "unat ((b :: u8) AND 0x0F) = unat b mod 16"
proof -
  have "b AND 0x0F = take_bit 4 b"
    by (simp add: take_bit_eq_mask mask_numeral)
  then show ?thesis by (simp add: unsigned_take_bit_eq take_bit_nat_def)
qed

lemma hi_nibble_eq: "n < 16 \<Longrightarrow> drop_bit 4 (b :: u8) = word_of_nat n \<longleftrightarrow> unat b div 16 = n"
  by (simp add: word_unat_eq_iff unat_nibble_hi unsigned_of_nat take_bit_nat_eq_self)

lemmas hi_nibble_4 = hi_nibble_eq [of 4, simplified]
lemmas hi_nibble_6 = hi_nibble_eq [of 6, simplified]

lemma Ipv4View_parse_Ok:
  "Ipv4View_parse buf = Some (Inr v) \<longleftrightarrow>
     20 \<le> length buf \<and> 5 \<le> unat (buf ! 0) mod 16 \<and>
     4 * (unat (buf ! 0) mod 16) \<le> length buf \<and> v = \<lparr>v4_bytes = buf\<rparr>"
  by (auto simp: Ipv4View_parse_def unat_nibble_lo Let_def)

lemma Ipv4View_parse_total: "Ipv4View_parse buf \<noteq> None"
  by (auto simp: Ipv4View_parse_def Let_def)

lemma IpView_parse_V4:
  "IpView_parse buf = Some (Inr (IpV4 v)) \<longleftrightarrow> valid_ipv4 buf \<and> v = \<lparr>v4_bytes = buf\<rparr>"
proof (cases buf)
  case (Cons b rest)
  then show ?thesis
    using Ipv4View_parse_Ok [of buf v] Ipv4View_parse_total [of buf]
    by (auto simp: IpView_parse_def valid_ipv4_def hi_nibble_4 hi_nibble_6 Let_def
        split: sum.splits if_splits)
qed (simp add: IpView_parse_def valid_ipv4_def)

lemma IpView_parse_V6:
  "IpView_parse buf = Some (Inr (IpV6 v)) \<longleftrightarrow> valid_ipv6 buf \<and> v = \<lparr>v6_bytes = buf\<rparr>"
proof (cases buf)
  case (Cons b rest)
  then show ?thesis
    using Ipv4View_parse_total [of buf]
    by (auto simp: IpView_parse_def Ipv6View_parse_def valid_ipv6_def hi_nibble_4 hi_nibble_6 Let_def
        split: sum.splits if_splits)
qed (simp add: IpView_parse_def valid_ipv6_def)

lemma IpView_parse_not_None: "IpView_parse buf \<noteq> None"
  using Ipv4View_parse_total [of buf]
  by (cases buf) (auto simp: IpView_parse_def Let_def)

definition Ipv4View_safe :: "Ipv4View \<Rightarrow> bool" where
  "Ipv4View_safe v \<longleftrightarrow>
     Ipv4View_src v \<noteq> None \<and> Ipv4View_dst v \<noteq> None \<and> Ipv4View_protocol v \<noteq> None \<and>
     Ipv4View_total_length v \<noteq> None \<and> Ipv4View_ttl v \<noteq> None \<and> Ipv4View_ihl v \<noteq> None \<and>
     Ipv4View_verify_checksum v \<noteq> None"

definition Ipv6View_safe :: "Ipv6View \<Rightarrow> bool" where
  "Ipv6View_safe v \<longleftrightarrow>
     Ipv6View_src v \<noteq> None \<and> Ipv6View_dst v \<noteq> None \<and> Ipv6View_protocol v \<noteq> None \<and>
     Ipv6View_payload_length v \<noteq> None \<and> Ipv6View_payload v \<noteq> None"

lemmas Ipv4View_accessors =
  Ipv4View_src_def Ipv4View_dst_def Ipv4View_protocol_def Ipv4View_total_length_def
  Ipv4View_ttl_def Ipv4View_ihl_def Ipv4View_payload_def Ipv4View_verify_checksum_def

lemmas Ipv6View_accessors =
  Ipv6View_src_def Ipv6View_dst_def Ipv6View_protocol_def Ipv6View_payload_length_def
  Ipv6View_payload_def

lemma valid_ipv4_bounds:
  assumes "valid_ipv4 buf"
  shows "20 \<le> length buf" and "20 \<le> unat (buf ! 0 AND 0x0F) * 4"
    and "unat (buf ! 0 AND 0x0F) * 4 \<le> length buf"
  using assms by (cases buf; auto simp: valid_ipv4_def unat_nibble_lo)+

lemma valid_ipv4_safe: "valid_ipv4 buf \<Longrightarrow> Ipv4View_safe \<lparr>v4_bytes = buf\<rparr>"
  using valid_ipv4_bounds [of buf] by (simp add: Ipv4View_safe_def Ipv4View_accessors Let_def)

lemma valid_ipv6_safe: "valid_ipv6 buf \<Longrightarrow> Ipv6View_safe \<lparr>v6_bytes = buf\<rparr>"
  by (simp add: valid_ipv6_def Ipv6View_safe_def Ipv6View_accessors Let_def)

text \<open>\<open>IpView::parse\<close> never panics, on any buffer. It accepts exactly the buffers with a
  well-formed IPv4 or IPv6 header, the view it returns is the whole buffer, and on that view every
  accessor other than the IPv4 payload can be called without a panic.\<close>

lemma IpView_parse_classifies:
  "case IpView_parse buf of
     None \<Rightarrow> False
   | Some (Inl e) \<Rightarrow> \<not> valid_ipv4 buf \<and> \<not> valid_ipv6 buf
   | Some (Inr (IpV4 v)) \<Rightarrow> valid_ipv4 buf \<and> v4_bytes v = buf \<and> Ipv4View_safe v
   | Some (Inr (IpV6 v)) \<Rightarrow> valid_ipv6 buf \<and> v6_bytes v = buf \<and> Ipv6View_safe v"
proof (cases "IpView_parse buf")
  case None
  then show ?thesis using IpView_parse_not_None by blast
next
  case (Some r)
  show ?thesis
  proof (cases r)
    case (Inl e)
    with Some show ?thesis
      using IpView_parse_V4 [of buf "\<lparr>v4_bytes = buf\<rparr>"] IpView_parse_V6 [of buf "\<lparr>v6_bytes = buf\<rparr>"]
      by auto
  next
    case (Inr v)
    show ?thesis
    proof (cases v)
      case (IpV4 w)
      with Some Inr have "valid_ipv4 buf" and "w = \<lparr>v4_bytes = buf\<rparr>"
        using IpView_parse_V4 [of buf w] by simp_all
      with Some Inr IpV4 show ?thesis by (simp add: valid_ipv4_safe)
    next
      case (IpV6 w)
      with Some Inr have "valid_ipv6 buf" and "w = \<lparr>v6_bytes = buf\<rparr>"
        using IpView_parse_V6 [of buf w] by simp_all
      with Some Inr IpV6 show ?thesis by (simp add: valid_ipv6_safe)
    qed
  qed
qed

lemma Ipv4View_payload_None:
  assumes "valid_ipv4 buf"
  shows "Ipv4View_payload \<lparr>v4_bytes = buf\<rparr> = None \<longleftrightarrow>
     unat (from_be16 (buf ! 2) (buf ! 3)) < 4 * (unat (buf ! 0) mod 16)"
  using valid_ipv4_bounds [OF assms]
  by (simp add: Ipv4View_accessors Let_def subslice_def unat_nibble_lo)

lemma UdpView_payload_None:
  "8 \<le> length buf \<Longrightarrow>
     UdpView_payload \<lparr>udp_bytes = buf\<rparr> = None \<longleftrightarrow> unat (from_be16 (buf ! 4) (buf ! 5)) < 8"
  by (simp add: UdpView_payload_def UdpView_length_def subslice_def)

text \<open>The payload accessors are not covered by the checks of \<open>parse\<close>. On an accepted IPv4
  packet \<open>payload()\<close> panics exactly when the total-length field is smaller than the header length,
  and on an accepted UDP segment exactly when the length field is below 8.\<close>

lemma payload_panics_iff:
  "(IpView_parse buf = Some (Inr (IpV4 v)) \<longrightarrow>
      (Ipv4View_payload v = None \<longleftrightarrow>
       unat (from_be16 (buf ! 2) (buf ! 3)) < 4 * (unat (buf ! 0) mod 16))) \<and>
   (UdpView_parse buf = Inr u \<longrightarrow>
      (UdpView_payload u = None \<longleftrightarrow> unat (from_be16 (buf ! 4) (buf ! 5)) < 8))"
  using Ipv4View_payload_None [of buf] UdpView_payload_None [of buf]
  by (auto simp: IpView_parse_V4 UdpView_parse_def split: if_splits)

text \<open>A packet the parser accepts and whose payload accessor panics: total length 0.\<close>

definition zero_total_length_packet :: bytes where
  "zero_total_length_packet = 0x45 # replicate 19 0"

lemma TcpView_parse_Ok:
  "TcpView_parse buf = Some (Inr v) \<longleftrightarrow>
     20 \<le> length buf \<and> 5 \<le> unat (buf ! 12) div 16 \<and> 4 * (unat (buf ! 12) div 16) \<le> length buf \<and>
     v = \<lparr>tcp_bytes = buf\<rparr>"
  by (auto simp: TcpView_parse_def unat_nibble_hi Let_def)

text \<open>\<open>TcpView::parse\<close> never panics, and on an accepted segment no accessor panics: the ports,
  numbers, window and flags are read, and the payload is what follows the declared header, so
  header and payload together are the segment.\<close>

lemma TcpView_parse_safe:
  "TcpView_parse buf \<noteq> None \<and>
   (TcpView_parse buf = Some (Inr v) \<longrightarrow>
      TcpView_src_port v \<noteq> None \<and> TcpView_dst_port v \<noteq> None \<and> TcpView_seq_num v \<noteq> None \<and>
      TcpView_ack_num v \<noteq> None \<and> TcpView_flags trunc v \<noteq> None \<and> TcpView_window_size v \<noteq> None \<and>
      (\<exists>h p. TcpView_header_len v = Some h \<and> TcpView_payload v = Some p \<and> 20 \<le> h \<and>
             buf = take h buf @ p))"
proof
  show "TcpView_parse buf \<noteq> None" by (auto simp: TcpView_parse_def Let_def)
  show "TcpView_parse buf = Some (Inr v) \<longrightarrow>
      TcpView_src_port v \<noteq> None \<and> TcpView_dst_port v \<noteq> None \<and> TcpView_seq_num v \<noteq> None \<and>
      TcpView_ack_num v \<noteq> None \<and> TcpView_flags trunc v \<noteq> None \<and> TcpView_window_size v \<noteq> None \<and>
      (\<exists>h p. TcpView_header_len v = Some h \<and> TcpView_payload v = Some p \<and> 20 \<le> h \<and>
             buf = take h buf @ p)"
    by (auto simp: TcpView_parse_Ok TcpView_src_port_def TcpView_dst_port_def TcpView_seq_num_def
        TcpView_ack_num_def TcpView_flags_def TcpView_window_size_def TcpView_header_len_def
        TcpView_payload_def unat_nibble_hi)
qed

section \<open>Views can be read\<close>

text \<open>No accessor of a view panics.\<close>

definition TcpView_safe :: "(u8 \<Rightarrow> u8 \<Rightarrow> u8) \<Rightarrow> TcpView \<Rightarrow> bool" where
  "TcpView_safe trunc v \<longleftrightarrow>
     TcpView_src_port v \<noteq> None \<and> TcpView_dst_port v \<noteq> None \<and> TcpView_seq_num v \<noteq> None \<and>
     TcpView_ack_num v \<noteq> None \<and> TcpView_flags trunc v \<noteq> None \<and> TcpView_window_size v \<noteq> None \<and>
     TcpView_header_len v \<noteq> None \<and> TcpView_payload v \<noteq> None"

definition UdpView_safe :: "UdpView \<Rightarrow> bool" where
  "UdpView_safe v \<longleftrightarrow>
     UdpView_src_port v \<noteq> None \<and> UdpView_dst_port v \<noteq> None \<and> UdpView_length v \<noteq> None \<and>
     UdpView_checksum v \<noteq> None \<and> UdpView_is_dns v \<noteq> None"

definition IcmpView_safe :: "IcmpView \<Rightarrow> bool" where
  "IcmpView_safe v \<longleftrightarrow> IcmpView_icmp_type v \<noteq> None \<and> IcmpView_checksum v \<noteq> None \<and> IcmpView_payload v \<noteq> None"

primrec IpView_safe :: "IpView \<Rightarrow> bool" where
  "IpView_safe (IpV4 v) = Ipv4View_safe v"
| "IpView_safe (IpV6 v) = Ipv6View_safe v"

text \<open>Whatever the bytes behind an IP header are, the parsers of the transport layer return on them, and
  every view they accept can be read; only the payload of a UDP segment with a length below 8 cannot.\<close>

definition payload_views_safe :: "(u8 \<Rightarrow> u8 \<Rightarrow> u8) \<Rightarrow> bytes \<Rightarrow> bool" where
  "payload_views_safe trunc p \<longleftrightarrow>
     TcpView_parse p \<noteq> None \<and> (\<forall>t. TcpView_parse p = Some (Inr t) \<longrightarrow> TcpView_safe trunc t) \<and>
     (\<forall>u. UdpView_parse p = Inr u \<longrightarrow> UdpView_safe u \<and>
        (UdpView_payload u = None \<longleftrightarrow> (\<exists>n. UdpView_length u = Some n \<and> unat n < 8))) \<and>
     (\<forall>i. IcmpView_parse p = Inr i \<longrightarrow> IcmpView_safe i)"

lemma transport_views_safe:
  "TcpView_parse p \<noteq> None"
  "TcpView_parse p = Some (Inr t) \<Longrightarrow> TcpView_safe trunc t"
  "UdpView_parse p = Inr u \<Longrightarrow> UdpView_safe u"
  "UdpView_parse p = Inr u \<Longrightarrow> UdpView_payload u = None \<longleftrightarrow> (\<exists>n. UdpView_length u = Some n \<and> unat n < 8)"
  "IcmpView_parse p = Inr i \<Longrightarrow> IcmpView_safe i"
proof -
  show "TcpView_parse p \<noteq> None" using TcpView_parse_safe by blast
  show "TcpView_safe trunc t" if "TcpView_parse p = Some (Inr t)"
    using TcpView_parse_safe [of p t trunc] that by (auto simp: TcpView_safe_def)
  show "UdpView_safe u" if "UdpView_parse p = Inr u"
    using that by (auto simp: UdpView_parse_def UdpView_safe_def UdpView_src_port_def UdpView_dst_port_def
        UdpView_length_def UdpView_checksum_def UdpView_is_dns_def split: if_splits)
  show "UdpView_payload u = None \<longleftrightarrow> (\<exists>n. UdpView_length u = Some n \<and> unat n < 8)" if "UdpView_parse p = Inr u"
    using that UdpView_payload_None [of p] by (auto simp: UdpView_parse_def UdpView_length_def split: if_splits)
  show "IcmpView_safe i" if "IcmpView_parse p = Inr i"
    using that by (auto simp: IcmpView_parse_def IcmpView_safe_def IcmpView_icmp_type_def IcmpView_checksum_def
        IcmpView_payload_def split: if_splits)
qed

text \<open>C17: an accepted view can be read. \<open>IpView::parse\<close> returns on every buffer and refuses exactly those without a
  well-formed IPv4 or IPv6 header. On an accepted view every accessor returns, except that the payload of
  an IPv4 packet cannot be taken exactly when its total length is smaller than its header. On the payload,
  whatever it is, the TCP, UDP and ICMP parsers return, and again every accessor of what they accept
  returns, except the payload of a UDP segment whose length field is below 8.\<close>

theorem parsed_views_safe:
  "\<exists>r. IpView_parse buf = Some r \<and>
     (isl r \<longleftrightarrow> \<not> valid_ipv4 buf \<and> \<not> valid_ipv6 buf) \<and>
     (\<forall>v. r = Inr v \<longrightarrow> IpView_safe v \<and>
        (IpView_payload v = None \<longleftrightarrow>
           (\<exists>w n h. v = IpV4 w \<and> Ipv4View_total_length w = Some n \<and> Ipv4View_ihl w = Some h \<and> unat n < h)) \<and>
        (\<forall>p. IpView_payload v = Some p \<longrightarrow> payload_views_safe trunc p))"
proof -
  obtain r where r: "IpView_parse buf = Some r" using IpView_parse_not_None [of buf] by blast
  have v4: "IpView_safe v \<and> (IpView_payload v = None \<longleftrightarrow>
      (\<exists>w n h. v = IpV4 w \<and> Ipv4View_total_length w = Some n \<and> Ipv4View_ihl w = Some h \<and> unat n < h))"
    if "r = Inr v" for v
  proof (cases v)
    case (IpV4 w)
    then have w: "valid_ipv4 buf" "w = \<lparr>v4_bytes = buf\<rparr>" using r that IpView_parse_V4 [of buf w] by auto
    then show ?thesis
      using IpV4 valid_ipv4_safe [OF w(1)] Ipv4View_payload_None [OF w(1)] valid_ipv4_bounds [OF w(1)]
      by (auto simp: Ipv4View_total_length_def Ipv4View_ihl_def unat_nibble_lo Let_def)
  next
    case (IpV6 w)
    then have w: "valid_ipv6 buf" "w = \<lparr>v6_bytes = buf\<rparr>" using r that IpView_parse_V6 [of buf w] by auto
    then show ?thesis using IpV6 valid_ipv6_safe [OF w(1)] by (auto simp: Ipv6View_safe_def)
  qed
  have "isl r \<longleftrightarrow> \<not> valid_ipv4 buf \<and> \<not> valid_ipv6 buf"
    using r IpView_parse_classifies [of buf] by (auto split: sum.splits IpView.splits)
  moreover have "payload_views_safe trunc p" for p
    using transport_views_safe unfolding payload_views_safe_def by simp
  ultimately show ?thesis using r v4 by (intro exI [of _ r]) simp
qed

theorem parsed_views_safe_witness:
  "\<exists>v. IpView_parse zero_total_length_packet = Some (Inr v) \<and> IpView_safe v \<and> IpView_payload v = None"
proof -
  let ?v = "\<lparr>v4_bytes = zero_total_length_packet\<rparr>"
  have p: "IpView_parse zero_total_length_packet = Some (Inr (IpV4 ?v))"
    by (simp add: IpView_parse_V4 valid_ipv4_def zero_total_length_packet_def)
  have n: "Ipv4View_total_length ?v = Some 0" "Ipv4View_ihl ?v = Some 20"
    by (simp_all add: Ipv4View_total_length_def Ipv4View_ihl_def zero_total_length_packet_def from_be16_def)
  show ?thesis using parsed_views_safe [of zero_total_length_packet "\<lambda>declared raw. raw AND declared"] p n by auto
qed

end
