(* ===== verification/Rewrite.thy ===== *)
theory Rewrite
  imports Packet_Views
begin

text \<open>
  The packet rewriting of \<open>gravital-stack/src/rewrite.rs\<close>: the destination port of a packet from
  the TUN device becomes a virtual port, the source of a packet for the TUN device becomes the real
  remote, and both checksums are recomputed in place. A routine that mutates \<open>pkt\<close> returns the
  updated buffer; every index and slice can panic. The lemmas show which bytes change and that a
  receiver's checksum tests accept the result.
\<close>

section \<open>The code\<close>

definition checksum :: "bytes \<Rightarrow> u16" where
  "checksum data =
     (let sum = add_chunks 0 (chunks_exact2 data);
          sum = (case chunks_remainder2 data of
                   [tail] \<Rightarrow> sum + push_bit 8 (ucast tail)
                 | _ \<Rightarrow> sum)
      in NOT (ucast (fold_carry sum)))"

definition fix_ipv4_checksum :: "bytes \<Rightarrow> bytes option" where
  "fix_ipv4_checksum pkt = do {
     pkt \<leftarrow> set_idx pkt 10 0;
     pkt \<leftarrow> set_idx pkt 11 0;
     b0 \<leftarrow> idx pkt 0;
     let ihl = unat (b0 AND 0x0F) * 4;
     hdr \<leftarrow> subslice pkt 0 ihl;
     let csum = checksum hdr;
     copy_slice pkt 10 12 (to_be16 csum) }"

text \<open>\<open>pkt.len() - ihl\<close> wraps in \<open>usize\<close> when the header claims more than the buffer holds; only
  its low 16 bits are used.\<close>

definition fix_tcp_checksum :: "bytes \<Rightarrow> bytes option" where
  "fix_tcp_checksum pkt = do {
     b0 \<leftarrow> idx pkt 0;
     let ihl = unat (b0 AND 0x0F) * 4;
     let tcp_len = (word_of_int (int (length pkt) - int ihl) :: u16);
     src \<leftarrow> subslice pkt 12 16;
     dst \<leftarrow> subslice pkt 16 20;
     let pseudo = src @ dst @ [0, 6] @ to_be16 tcp_len;
     pkt \<leftarrow> set_idx pkt (ihl + 16) 0;
     pkt \<leftarrow> set_idx pkt (ihl + 17) 0;
     let sum = add_chunks 0 (chunks_exact2 pseudo);
     tcp_seg \<leftarrow> subslice pkt ihl (length pkt);
     let sum = acc_words sum tcp_seg;
     let csum = NOT (ucast (fold_carry sum) :: u16);
     copy_slice pkt (ihl + 16) (ihl + 18) (to_be16 csum) }"

definition rewrite_inbound :: "bytes \<Rightarrow> u16 \<Rightarrow> (bool \<times> bytes) option" where
  "rewrite_inbound pkt vport =
     (if length pkt < 20 then Some (False, pkt)
      else do {
        b0 \<leftarrow> idx pkt 0;
        if drop_bit 4 b0 \<noteq> 4 then Some (False, pkt)
        else do {
          proto \<leftarrow> idx pkt 9;
          if proto \<noteq> 6 then Some (False, pkt)
          else do {
            let ihl = unat (b0 AND 0x0F) * 4;
            if length pkt < ihl + 20 then Some (False, pkt)
            else do {
              pkt \<leftarrow> copy_slice pkt (ihl + 2) (ihl + 4) (to_be16 vport);
              pkt \<leftarrow> fix_tcp_checksum pkt;
              pkt \<leftarrow> fix_ipv4_checksum pkt;
              Some (True, pkt) } } } })"

definition rewrite_outbound :: "bytes \<Rightarrow> Ipv4Addr \<Rightarrow> u16 \<Rightarrow> (bool \<times> bytes) option" where
  "rewrite_outbound pkt real_dst_ip real_dst_port =
     (if length pkt < 20 then Some (False, pkt)
      else do {
        b0 \<leftarrow> idx pkt 0;
        if drop_bit 4 b0 \<noteq> 4 then Some (False, pkt)
        else do {
          proto \<leftarrow> idx pkt 9;
          if proto \<noteq> 6 then Some (False, pkt)
          else do {
            let ihl = unat (b0 AND 0x0F) * 4;
            if length pkt < ihl + 20 then Some (False, pkt)
            else do {
              pkt \<leftarrow> copy_slice pkt 12 16 (ipv4_octets real_dst_ip);
              pkt \<leftarrow> copy_slice pkt ihl (ihl + 2) (to_be16 real_dst_port);
              pkt \<leftarrow> fix_tcp_checksum pkt;
              pkt \<leftarrow> fix_ipv4_checksum pkt;
              Some (True, pkt) } } } })"

definition extract_tcp_addrs :: "bytes \<Rightarrow> (SocketAddr \<times> SocketAddr) option option" where
  "extract_tcp_addrs pkt =
     (if length pkt < 20 then Some None
      else do {
        b0 \<leftarrow> idx pkt 0; proto \<leftarrow> idx pkt 9;
        if drop_bit 4 b0 \<noteq> 4 \<or> proto \<noteq> 6 then Some None
        else do {
          let ihl = unat (b0 AND 0x0F) * 4;
          if length pkt < ihl + 20 then Some None
          else do {
            s0 \<leftarrow> idx pkt 12; s1 \<leftarrow> idx pkt 13; s2 \<leftarrow> idx pkt 14; s3 \<leftarrow> idx pkt 15;
            let src_ip = Ipv4Addr s0 s1 s2 s3;
            d0 \<leftarrow> idx pkt 16; d1 \<leftarrow> idx pkt 17; d2 \<leftarrow> idx pkt 18; d3 \<leftarrow> idx pkt 19;
            let dst_ip = Ipv4Addr d0 d1 d2 d3;
            p0 \<leftarrow> idx pkt ihl; p1 \<leftarrow> idx pkt (ihl + 1);
            let src_port = from_be16 p0 p1;
            q0 \<leftarrow> idx pkt (ihl + 2); q1 \<leftarrow> idx pkt (ihl + 3);
            let dst_port = from_be16 q0 q1;
            Some (Some (SocketAddr (V4 src_ip) src_port, SocketAddr (V4 dst_ip) dst_port)) } } })"

definition is_tcp_syn :: "bytes \<Rightarrow> bool option" where
  "is_tcp_syn pkt = do {
     b0 \<leftarrow> idx pkt 0;
     let ihl = unat (b0 AND 0x0F) * 4;
     if length pkt < ihl + 14 then Some False
     else do {
       flags \<leftarrow> idx pkt (ihl + 13);
       Some (flags AND 0x12 = 0x02) } }"

section \<open>The checksum contract holds here too\<close>

lemma checksum_acc: "checksum data = fold_acc (acc_words 0 data)"
  by (simp add: checksum_def fold_acc_def acc_words_def Let_def)

interpretation rw_csum: rfc1071_checksum checksum
proof
  fix data :: bytes
  assume "length data \<le> 131074"
  then show "unat (checksum data) = 65535 - ones_sum (word_sum data)"
    by (simp add: checksum_acc unat_fold_acc unat_acc_words word_sum_fits)
qed

section \<open>Sixteen-bit stores\<close>

definition put16 :: "nat \<Rightarrow> u16 \<Rightarrow> bytes \<Rightarrow> bytes" where
  "put16 k w xs = xs[k := to_be16 w ! 0, Suc k := to_be16 w ! 1]"

lemma length_put16 [simp]: "length (put16 k w xs) = length xs"
  by (simp add: put16_def)

lemma put16_nth:
  "i < length xs \<Longrightarrow> put16 k w xs ! i =
     (if i = k then to_be16 w ! 0 else if i = Suc k then to_be16 w ! 1 else xs ! i)"
  by (simp add: put16_def nth_list_update)

lemma put16_other [simp]: "i \<noteq> k \<Longrightarrow> i \<noteq> Suc k \<Longrightarrow> put16 k w xs ! i = xs ! i"
  by (simp add: put16_def)

lemma put16_put16 [simp]: "put16 k w (put16 k v xs) = put16 k w xs"
  by (simp add: put16_def list_update_swap [of "Suc k" k])

lemma copy_slice_put16:
  "j = i + 2 \<Longrightarrow> Suc i < length xs \<Longrightarrow> copy_slice xs i j (to_be16 w) = Some (put16 i w xs)"
  using splice2 [of i xs "to_be16 w ! 0" "to_be16 w ! 1"]
  by (simp add: put16_def to_be16_def)

lemma put16_0: "xs[k := 0, Suc k := 0] = put16 k 0 xs"
  by (simp add: put16_def to_be16_def)

lemma take_put16: "Suc k < n \<Longrightarrow> take n (put16 k w xs) = put16 k w (take n xs)"
  by (simp add: put16_def take_update_swap)

lemma take_put16_out: "n \<le> k \<Longrightarrow> take n (put16 k w xs) = take n xs"
  by (simp add: put16_def)

lemma drop_put16: "n \<le> k \<Longrightarrow> drop n (put16 k w xs) = put16 (k - n) w (drop n xs)"
  by (simp add: put16_def drop_update_swap Suc_diff_le)

lemma drop_put16_out: "Suc k < n \<Longrightarrow> drop n (put16 k w xs) = drop n xs"
  by (simp add: put16_def)

lemma append_put16: "k = length ys + j \<Longrightarrow> ys @ put16 j w xs = put16 k w (ys @ xs)"
  by (simp add: put16_def list_update_append)

lemma checksum_store:
  assumes "length data \<le> 131074" and "even k" and "Suc k < length data"
  shows "checksum (put16 k (checksum (put16 k 0 data)) data) = 0"
proof -
  have "checksum (put16 k (checksum (put16 k 0 data)) (put16 k 0 data)) = 0"
    unfolding put16_def [of k "checksum (put16 k 0 data)"]
    by (rule rw_csum.store_verifies) (use assms in \<open>auto simp: put16_nth to_be16_def\<close>)
  then show ?thesis by simp
qed

section \<open>What the two fix-ups compute\<close>

definition ihl_of :: "bytes \<Rightarrow> nat" where
  "ihl_of pkt = unat (pkt ! 0 AND 0x0F) * 4"

definition tcp_pseudo :: "bytes \<Rightarrow> bytes" where
  "tcp_pseudo pkt = take 4 (drop 12 pkt) @ take 4 (drop 16 pkt) @ [0, 6]
     @ to_be16 (word_of_int (int (length pkt) - int (ihl_of pkt)))"

text \<open>The checksum over pseudo-header and segment, with the checksum field read as zero.\<close>

definition tcp_csum :: "bytes \<Rightarrow> u16" where
  "tcp_csum pkt = checksum (put16 28 0 (tcp_pseudo pkt @ drop (ihl_of pkt) pkt))"

definition ipv4_csum :: "bytes \<Rightarrow> u16" where
  "ipv4_csum pkt = checksum (take (ihl_of pkt) (put16 10 0 pkt))"

lemma ihl_of_put16 [simp]: "0 < k \<Longrightarrow> ihl_of (put16 k w p) = ihl_of p"
  by (simp add: ihl_of_def)

lemma ihl_of_mod: "ihl_of p = 4 * (unat (p ! 0) mod 16)"
  by (simp add: ihl_of_def unat_nibble_lo)

lemma even_ihl_of: "even (ihl_of p)"
  by (simp add: ihl_of_def)

lemma length_tcp_pseudo: "20 \<le> length p \<Longrightarrow> length (tcp_pseudo p) = 12"
  by (simp add: tcp_pseudo_def)

lemma add_chunks_acc_words: "even (length xs) \<Longrightarrow> acc_words (add_chunks a (chunks_exact2 xs)) ys = acc_words a (xs @ ys)"
  by (induction xs arbitrary: a rule: chunks_exact2.induct) (auto simp: add_chunks_def)

lemma tcp_pseudo_put16 [simp]: "0 < k \<Longrightarrow> \<not> (Suc k \<ge> 12 \<and> k < 20) \<Longrightarrow> tcp_pseudo (put16 k w p) = tcp_pseudo p"
  by (cases "k < 12")
    (auto simp: tcp_pseudo_def drop_put16 drop_put16_out take_put16_out)

lemma fix_tcp_checksum_eq:
  assumes "20 \<le> length p" and "ihl_of p + 18 \<le> length p"
  shows "fix_tcp_checksum p = Some (put16 (ihl_of p + 16) (tcp_csum p) p)"
proof -
  let ?ihl = "ihl_of p"
  let ?q = "put16 (?ihl + 16) 0 p"
  have "tcp_pseudo p @ drop ?ihl ?q = put16 28 0 (tcp_pseudo p @ drop ?ihl p)"
    using append_put16 [of 28 "tcp_pseudo p" 16] assms(1)
    by (simp add: drop_put16 length_tcp_pseudo)
  then have "fold_acc (acc_words (add_chunks 0 (chunks_exact2 (tcp_pseudo p))) (drop ?ihl ?q)) = tcp_csum p"
    using assms(1) by (simp add: add_chunks_acc_words length_tcp_pseudo tcp_csum_def checksum_acc)
  moreover have "p[?ihl + 16 := 0, ?ihl + 17 := 0] = ?q"
    using put16_0 [of p "?ihl + 16"] by (simp add: add.commute)
  moreover have "copy_slice ?q (?ihl + 16) (?ihl + 18) (to_be16 w) = Some (put16 (?ihl + 16) w p)" for w
    using assms by (subst copy_slice_put16) auto
  ultimately show ?thesis
    using assms unfolding fix_tcp_checksum_def
    by (simp add: Let_def ihl_of_def tcp_pseudo_def fold_acc_def del: copy_slice_in)
qed

lemma fix_ipv4_checksum_eq:
  assumes "20 \<le> length p" and "ihl_of p \<le> length p"
  shows "fix_ipv4_checksum p = Some (put16 10 (ipv4_csum p) p)"
proof -
  have "p[10 := 0, 11 := 0] = put16 10 0 p"
    using put16_0 [of p 10] by simp
  moreover have "copy_slice (put16 10 0 p) 10 12 (to_be16 w) = Some (put16 10 w p)" for w
    using assms by (subst copy_slice_put16) auto
  ultimately show ?thesis
    using assms unfolding fix_ipv4_checksum_def
    by (simp add: Let_def ihl_of_def ipv4_csum_def del: copy_slice_in)
qed

text \<open>The guard both rewrites share, and the packets of RFC 791 shape among those it lets through.\<close>

definition tcp4 :: "bytes \<Rightarrow> bool" where
  "tcp4 p \<longleftrightarrow> 20 \<le> length p \<and> drop_bit 4 (p ! 0) = 4 \<and> p ! 9 = 6 \<and> ihl_of p + 20 \<le> length p"

definition refresh :: "bytes \<Rightarrow> bytes" where
  "refresh p = (let q = put16 (ihl_of p + 16) (tcp_csum p) p in put16 10 (ipv4_csum q) q)"

lemma fix_both:
  assumes "20 \<le> length p" and "ihl_of p + 18 \<le> length p"
  shows "do { p \<leftarrow> fix_tcp_checksum p; p \<leftarrow> fix_ipv4_checksum p; Some (True, p) } = Some (True, refresh p)"
  using assms by (simp add: fix_tcp_checksum_eq fix_ipv4_checksum_eq refresh_def Let_def)

lemma length_refresh [simp]: "length (refresh p) = length p"
  by (simp add: refresh_def Let_def)

lemma refresh_other:
  "i \<notin> {10, 11, ihl_of p + 16, ihl_of p + 17} \<Longrightarrow> refresh p ! i = p ! i"
  by (simp add: refresh_def Let_def)

lemma ihl_of_refresh [simp]: "ihl_of (refresh p) = ihl_of p"
  by (simp add: refresh_def Let_def)

lemma rewrite_inbound_eq:
  "rewrite_inbound p vport =
     (if tcp4 p then Some (True, refresh (put16 (ihl_of p + 2) vport p)) else Some (False, p))"
proof (cases "tcp4 p")
  case True
  let ?q = "put16 (ihl_of p + 2) vport p"
  have "copy_slice p (ihl_of p + 2) (ihl_of p + 4) (to_be16 vport) = Some ?q"
    using True by (subst copy_slice_put16) (auto simp: tcp4_def)
  moreover have "do { p \<leftarrow> fix_tcp_checksum ?q; p \<leftarrow> fix_ipv4_checksum p; Some (True, p) } = Some (True, refresh ?q)"
    by (rule fix_both) (use True in \<open>auto simp: tcp4_def\<close>)
  ultimately show ?thesis
    using True by (simp add: rewrite_inbound_def tcp4_def ihl_of_def Let_def del: copy_slice_in)
qed (auto simp: rewrite_inbound_def tcp4_def ihl_of_def Let_def)

definition put_src :: "bytes \<Rightarrow> Ipv4Addr \<Rightarrow> bytes" where
  "put_src p a = take 12 p @ ipv4_octets a @ drop 16 p"

lemma length_put_src [simp]: "20 \<le> length p \<Longrightarrow> length (put_src p a) = length p"
  by (simp add: put_src_def)

lemma put_src_nth:
  "20 \<le> length p \<Longrightarrow> i < length p \<Longrightarrow>
     put_src p a ! i = (if 12 \<le> i \<and> i < 16 then ipv4_octets a ! (i - 12) else p ! i)"
  by (auto simp: put_src_def nth_append)

lemma ihl_of_put_src [simp]: "20 \<le> length p \<Longrightarrow> ihl_of (put_src p a) = ihl_of p"
  by (simp add: ihl_of_def put_src_nth)

lemma rewrite_outbound_eq:
  assumes "ihl_of p \<noteq> 0"
  shows "rewrite_outbound p a port =
     (if tcp4 p then Some (True, refresh (put16 (ihl_of p) port (put_src p a))) else Some (False, p))"
proof (cases "tcp4 p")
  case True
  let ?q = "put16 (ihl_of p) port (put_src p a)"
  have "copy_slice p 12 16 (ipv4_octets a) = Some (put_src p a)"
    using True by (simp add: tcp4_def put_src_def)
  moreover have "copy_slice (put_src p a) (ihl_of p) (ihl_of p + 2) (to_be16 port) = Some ?q"
    using True by (subst copy_slice_put16) (auto simp: tcp4_def)
  moreover have "do { p \<leftarrow> fix_tcp_checksum ?q; p \<leftarrow> fix_ipv4_checksum p; Some (True, p) } = Some (True, refresh ?q)"
    by (rule fix_both) (use True assms in \<open>auto simp: tcp4_def\<close>)
  ultimately show ?thesis
    using True by (simp add: rewrite_outbound_def tcp4_def ihl_of_def Let_def del: copy_slice_in)
qed (auto simp: rewrite_outbound_def tcp4_def ihl_of_def Let_def)

section \<open>The receiver accepts\<close>

text \<open>The receiver's test of RFC 793 on a whole IPv4 datagram, with the routines of
  \<open>gravital-proto\<close>.\<close>

definition tcp_accepts :: "bytes \<Rightarrow> bool" where
  "tcp_accepts p \<longleftrightarrow>
     fold_acc (acc_words
       (pseudo_header_v4 (p ! 12, p ! 13, p ! 14, p ! 15) (p ! 16, p ! 17, p ! 18, p ! 19) 6
          (word_of_nat (length p - ihl_of p)))
       (drop (ihl_of p) p)) = 0"

lemma take4_drop: "k + 4 \<le> length p \<Longrightarrow> take 4 (drop k p) = [p ! k, p ! (k + 1), p ! (k + 2), p ! (k + 3)]"
  by (rule nth_equalityI) (auto simp: less_Suc_eq numeral_eq_Suc)

lemma pseudo_header_chunks:
  assumes "20 \<le> length p" and "ihl_of p \<le> length p"
  shows "pseudo_header_v4 (p ! 12, p ! 13, p ! 14, p ! 15) (p ! 16, p ! 17, p ! 18, p ! 19) 6
          (word_of_nat (length p - ihl_of p)) = add_chunks 0 (chunks_exact2 (tcp_pseudo p))"
proof -
  have "int (length p) - int (ihl_of p) = int (length p - ihl_of p)" using assms by simp
  then have len: "(word_of_int (int (length p) - int (ihl_of p)) :: u16) = word_of_nat (length p - ihl_of p)"
    by (simp only: of_int_of_nat_eq)
  define n :: u16 where "n = word_of_nat (length p - ihl_of p)"
  obtain a b where ab: "to_be16 n = [a, b]" by (simp add: to_be16_def)
  then have "from_be16 a b = n" using from_be16_to_be16 [of n] by simp
  then show ?thesis
    using assms(1) unfolding tcp_pseudo_def len n_def [symmetric]
    by (simp add: ab take4_drop add_chunks_def pseudo_header_v4_def Let_def)
qed

lemma tcp_accepts_checksum:
  assumes "20 \<le> length p" and "ihl_of p \<le> length p"
  shows "tcp_accepts p \<longleftrightarrow> checksum (tcp_pseudo p @ drop (ihl_of p) p) = 0"
  unfolding tcp_accepts_def pseudo_header_chunks [OF assms]
  using assms by (simp add: add_chunks_acc_words length_tcp_pseudo checksum_acc)

lemma refresh_accepted:
  assumes "20 \<le> ihl_of p" and "ihl_of p + 20 \<le> length p" and "length p \<le> 65535"
  shows "tcp_accepts (refresh p)" and "Ipv4View_verify_checksum \<lparr>v4_bytes = refresh p\<rparr> = Some (Inr ())"
proof -
  let ?ihl = "ihl_of p"
  let ?q = "put16 (?ihl + 16) (tcp_csum p) p"
  have len: "20 \<le> length p" using assms by simp
  let ?d = "tcp_pseudo p @ drop ?ihl p"
  have "checksum (put16 28 (checksum (put16 28 0 ?d)) ?d) = 0"
    by (rule checksum_store) (use assms len in \<open>auto simp: length_tcp_pseudo\<close>)
  moreover have "tcp_pseudo (refresh p) = tcp_pseudo p"
    using assms by (simp add: refresh_def Let_def)
  moreover have "drop ?ihl (refresh p) = put16 16 (tcp_csum p) (drop ?ihl p)"
    using assms by (simp add: refresh_def Let_def drop_put16_out drop_put16)
  moreover have "tcp_pseudo p @ put16 16 (tcp_csum p) (drop ?ihl p) = put16 28 (tcp_csum p) ?d"
    by (rule append_put16) (simp add: length_tcp_pseudo len)
  ultimately show "tcp_accepts (refresh p)"
    using assms len by (simp add: tcp_accepts_checksum tcp_csum_def)
  have "checksum (put16 10 (checksum (put16 10 0 (take ?ihl ?q))) (take ?ihl ?q)) = 0"
    by (rule checksum_store) (use assms in auto)
  then have "checksum (take ?ihl (refresh p)) = 0"
    using assms by (simp add: refresh_def Let_def take_put16 ipv4_csum_def)
  then have "internet_checksum (take ?ihl (refresh p)) = 0"
    by (simp add: checksum_acc internet_checksum_acc)
  then show "Ipv4View_verify_checksum \<lparr>v4_bytes = refresh p\<rparr> = Some (Inr ())"
    using assms len ihl_of_refresh [of p]
    by (simp add: Ipv4View_verify_checksum_def Ipv4View_ihl_def ihl_of_def Let_def)
qed

lemma extract_tcp_addrs_eq:
  "extract_tcp_addrs p =
     Some (if tcp4 p then
             Some (SocketAddr (V4 (Ipv4Addr (p ! 12) (p ! 13) (p ! 14) (p ! 15)))
                     (from_be16 (p ! ihl_of p) (p ! (ihl_of p + 1))),
                   SocketAddr (V4 (Ipv4Addr (p ! 16) (p ! 17) (p ! 18) (p ! 19)))
                     (from_be16 (p ! (ihl_of p + 2)) (p ! (ihl_of p + 3))))
           else None)"
  by (simp add: extract_tcp_addrs_def tcp4_def ihl_of_def Let_def)

lemma valid_ipv4_ihl:
  assumes "valid_ipv4 p"
  shows "20 \<le> ihl_of p" and "20 \<le> length p" and "tcp4 p \<longleftrightarrow> p ! 9 = 6 \<and> ihl_of p + 20 \<le> length p"
proof -
  show "20 \<le> ihl_of p" and len: "20 \<le> length p"
    using valid_ipv4_bounds [OF assms] by (auto simp: ihl_of_def)
  have "drop_bit 4 (p ! 0) = 4"
    using assms by (cases p) (auto simp: valid_ipv4_def hi_nibble_4)
  with len show "tcp4 p \<longleftrightarrow> p ! 9 = 6 \<and> ihl_of p + 20 \<le> length p" by (simp add: tcp4_def)
qed

lemma tcp4_refresh: "tcp4 p \<Longrightarrow> tcp4 (refresh p)"
  by (simp add: tcp4_def refresh_other)

text \<open>C2: a packet from the TUN device is redirected without a panic. Exactly the TCP packets that
  hold a full TCP header are rewritten, all others are returned untouched. A rewritten packet keeps
  its length and its source, its destination is the same host at the virtual port, nothing but the
  port and the two checksum fields changes, and both the IPv4 and the TCP checksum verify, whatever
  they were before.\<close>

theorem rewrite_inbound_correct:
  assumes "valid_ipv4 pkt" and "length pkt \<le> 65535"
  shows "\<exists>ok pkt'. rewrite_inbound pkt vport = Some (ok, pkt') \<and>
     (ok \<longleftrightarrow> pkt ! 9 = 6 \<and> ihl_of pkt + 20 \<le> length pkt) \<and>
     (\<not> ok \<longrightarrow> pkt' = pkt) \<and>
     (ok \<longrightarrow> length pkt' = length pkt \<and> tcp_accepts pkt' \<and>
        Ipv4View_verify_checksum \<lparr>v4_bytes = pkt'\<rparr> = Some (Inr ()) \<and>
        (\<exists>src dst. extract_tcp_addrs pkt = Some (Some (src, dst)) \<and>
           extract_tcp_addrs pkt' = Some (Some (src, SocketAddr (sa_ip dst) vport))) \<and>
        (\<forall>i. i \<notin> {10, 11, ihl_of pkt + 2, ihl_of pkt + 3, ihl_of pkt + 16, ihl_of pkt + 17} \<longrightarrow>
           pkt' ! i = pkt ! i))"
proof (cases "tcp4 pkt")
  case False
  then have "rewrite_inbound pkt vport = Some (False, pkt)"
    using valid_ipv4_ihl(1) [OF assms(1)] by (simp add: rewrite_inbound_eq)
  with False show ?thesis using valid_ipv4_ihl(3) [OF assms(1)] by blast
next
  case True
  let ?p = "put16 (ihl_of pkt + 2) vport pkt"
  have ihl: "20 \<le> ihl_of pkt" and len: "ihl_of pkt + 20 \<le> length pkt"
    using valid_ipv4_ihl [OF assms(1)] True by auto
  have "tcp4 ?p" using True ihl by (simp add: tcp4_def)
  then have ok: "tcp4 (refresh ?p)" by (rule tcp4_refresh)
  have "from_be16 (?p ! (ihl_of pkt + 2)) (?p ! (ihl_of pkt + 3)) = vport"
    using len from_be16_to_be16 [of vport] by (simp add: put16_nth)
  then have "\<exists>src dst. extract_tcp_addrs pkt = Some (Some (src, dst)) \<and>
      extract_tcp_addrs (refresh ?p) = Some (Some (src, SocketAddr (sa_ip dst) vport))"
    using True ok ihl by (simp add: extract_tcp_addrs_eq refresh_other)
  moreover have "tcp_accepts (refresh ?p)"
    and "Ipv4View_verify_checksum \<lparr>v4_bytes = refresh ?p\<rparr> = Some (Inr ())"
    using refresh_accepted [of ?p] ihl len assms(2) by simp_all
  moreover have "refresh ?p ! i = pkt ! i"
    if "i \<notin> {10, 11, ihl_of pkt + 2, ihl_of pkt + 3, ihl_of pkt + 16, ihl_of pkt + 17}" for i
    using that by (simp add: refresh_other)
  ultimately show ?thesis
    using True valid_ipv4_ihl [OF assms(1)]
    by (intro exI [of _ True] exI [of _ "refresh ?p"]) (simp add: rewrite_inbound_eq)
qed

text \<open>The SYN packet of the unit tests of \<open>rewrite.rs\<close>, checksums not yet filled in.\<close>

definition syn_packet :: bytes where
  "syn_packet =
     [0x45, 0, 0, 40, 0, 0, 0, 0, 64, 6, 0, 0, 10, 42, 0, 2, 8, 8, 8, 8,
      0xD4, 0x31, 0x01, 0xBB, 0, 0, 0, 0, 0, 0, 0, 0, 0x50, 0x02, 0, 0, 0, 0, 0, 0]"

theorem rewrite_inbound_correct_witness:
  "valid_ipv4 syn_packet \<and> length syn_packet \<le> 65535 \<and>
   (\<exists>pkt'. rewrite_inbound syn_packet 12345 = Some (True, pkt') \<and> tcp_accepts pkt')"
proof -
  have v: "valid_ipv4 syn_packet" and l: "length syn_packet \<le> 65535"
    and t: "syn_packet ! 9 = 6 \<and> ihl_of syn_packet + 20 \<le> length syn_packet"
    by (simp_all add: valid_ipv4_def syn_packet_def ihl_of_mod)
  show ?thesis using rewrite_inbound_correct [OF v l, of 12345] v l t by auto
qed

text \<open>C3: a packet for the TUN device gets the real remote as its source. The rewrite does not
  panic, changes exactly the TCP packets that hold a full header, keeps length and destination,
  sets source address and port to the ones given, touches no byte outside the source address, the
  source port and the two checksum fields, and leaves both checksums valid.\<close>

theorem rewrite_outbound_correct:
  assumes "valid_ipv4 pkt" and "length pkt \<le> 65535"
  shows "\<exists>ok pkt'. rewrite_outbound pkt ip port = Some (ok, pkt') \<and>
     (ok \<longleftrightarrow> pkt ! 9 = 6 \<and> ihl_of pkt + 20 \<le> length pkt) \<and>
     (\<not> ok \<longrightarrow> pkt' = pkt) \<and>
     (ok \<longrightarrow> length pkt' = length pkt \<and> tcp_accepts pkt' \<and>
        Ipv4View_verify_checksum \<lparr>v4_bytes = pkt'\<rparr> = Some (Inr ()) \<and>
        (\<exists>src dst. extract_tcp_addrs pkt = Some (Some (src, dst)) \<and>
           extract_tcp_addrs pkt' = Some (Some (SocketAddr (V4 ip) port, dst))) \<and>
        (\<forall>i < length pkt. i \<notin> {10, 11, 12, 13, 14, 15, ihl_of pkt, ihl_of pkt + 1,
             ihl_of pkt + 16, ihl_of pkt + 17} \<longrightarrow> pkt' ! i = pkt ! i))"
proof (cases "tcp4 pkt")
  case False
  then have "rewrite_outbound pkt ip port = Some (False, pkt)"
    using valid_ipv4_ihl(1) [OF assms(1)] by (simp add: rewrite_outbound_eq)
  with False show ?thesis using valid_ipv4_ihl(3) [OF assms(1)] by blast
next
  case True
  let ?p = "put16 (ihl_of pkt) port (put_src pkt ip)"
  have ihl: "20 \<le> ihl_of pkt" and len: "ihl_of pkt + 20 \<le> length pkt" "20 \<le> length pkt"
    using valid_ipv4_ihl [OF assms(1)] True by auto
  have hd: "ihl_of ?p = ihl_of pkt" using ihl len by simp
  have "tcp4 ?p" using True ihl len hd by (simp add: tcp4_def put_src_nth)
  then have ok: "tcp4 (refresh ?p)" by (rule tcp4_refresh)
  have "from_be16 (?p ! ihl_of pkt) (?p ! (ihl_of pkt + 1)) = port"
    using len from_be16_to_be16 [of port] by (simp add: put16_nth)
  moreover have "Ipv4Addr (?p ! 12) (?p ! 13) (?p ! 14) (?p ! 15) = ip"
    using ihl len by (cases ip) (simp add: put_src_nth)
  ultimately have "\<exists>src dst. extract_tcp_addrs pkt = Some (Some (src, dst)) \<and>
      extract_tcp_addrs (refresh ?p) = Some (Some (SocketAddr (V4 ip) port, dst))"
    using True ok ihl len hd by (simp add: extract_tcp_addrs_eq refresh_other put_src_nth)
  moreover have "tcp_accepts (refresh ?p)"
    and "Ipv4View_verify_checksum \<lparr>v4_bytes = refresh ?p\<rparr> = Some (Inr ())"
    using refresh_accepted [of ?p] ihl len assms(2) hd by simp_all
  moreover have "refresh ?p ! i = pkt ! i"
    if "i < length pkt" and "i \<notin> {10, 11, 12, 13, 14, 15, ihl_of pkt, ihl_of pkt + 1,
             ihl_of pkt + 16, ihl_of pkt + 17}" for i
    using that len hd by (auto simp: refresh_other put_src_nth)
  ultimately show ?thesis
    using True ihl len valid_ipv4_ihl [OF assms(1)]
    by (intro exI [of _ True] exI [of _ "refresh ?p"]) (simp add: rewrite_outbound_eq)
qed

theorem rewrite_outbound_correct_witness:
  "valid_ipv4 syn_packet \<and> length syn_packet \<le> 65535 \<and>
   (\<exists>pkt'. rewrite_outbound syn_packet (Ipv4Addr 1 1 1 1) 443 = Some (True, pkt') \<and> tcp_accepts pkt')"
proof -
  have v: "valid_ipv4 syn_packet" and l: "length syn_packet \<le> 65535"
    and t: "syn_packet ! 9 = 6 \<and> ihl_of syn_packet + 20 \<le> length syn_packet"
    by (simp_all add: valid_ipv4_def syn_packet_def ihl_of_mod)
  show ?thesis using rewrite_outbound_correct [OF v l, of "Ipv4Addr 1 1 1 1" 443] v l t by auto
qed

text \<open>Where the rewriting code can panic. Inbound rewriting and address extraction never do, on
  any buffer; the SYN test panics exactly on the empty buffer; outbound rewriting can panic only on
  a packet whose header length nibble is zero, where the new source port overwrites that nibble.\<close>

lemma rewrite_panics:
  "rewrite_inbound pkt vport \<noteq> None \<and> extract_tcp_addrs pkt \<noteq> None \<and>
   (is_tcp_syn pkt = None \<longleftrightarrow> pkt = []) \<and>
   (rewrite_outbound pkt ip port = None \<longrightarrow> tcp4 pkt \<and> ihl_of pkt = 0)"
proof (intro conjI impI)
  show "is_tcp_syn pkt = None \<longleftrightarrow> pkt = []"
    by (cases pkt) (auto simp: is_tcp_syn_def idx_def Let_def)
  assume panic: "rewrite_outbound pkt ip port = None"
  then show "tcp4 pkt" and "ihl_of pkt = 0"
    using rewrite_outbound_eq [of pkt ip port]
    by (auto simp: rewrite_outbound_def tcp4_def ihl_of_def Let_def split: if_splits)
qed (auto simp: rewrite_inbound_eq extract_tcp_addrs_eq)

end
