(* ===== verification/Nat_Table.thy ===== *)
theory Nat_Table
  imports GS_Prelude
begin

text \<open>
  The virtual-port table of \<open>gravital-stack/src/nat.rs\<close>. \<open>NatTable\<close> keeps a forward map from
  connections to virtual ports, the reverse map, and the port at which the next scan starts. The
  scan of \<open>insert\<close> is an unbounded \<open>loop\<close> in the source: it is a \<^theory_text>\<open>partial_function\<close> here, and
  that it returns is proved from the table invariant. The interface the stack relies on is the
  locale \<open>port_nat\<close>; the code's table interprets it.
\<close>

section \<open>The code\<close>

type_synonym flow = "SocketAddr \<times> SocketAddr"

record NatTable =
  nat_forward :: "flow \<rightharpoonup> u16"
  nat_reverse :: "u16 \<rightharpoonup> flow"
  nat_next :: u16

definition BASE_PORT :: u16 where
  "BASE_PORT = 10000"

definition PORT_RANGE :: u16 where
  "PORT_RANGE = 50000"

definition NatTable_new :: NatTable where
  "NatTable_new = \<lparr>nat_forward = Map.empty, nat_reverse = Map.empty, nat_next = BASE_PORT\<rparr>"

text \<open>\<open>self.next = BASE_PORT + (self.next - BASE_PORT + 1) % PORT_RANGE\<close>.\<close>

definition advance :: "u16 \<Rightarrow> u16" where
  "advance p = BASE_PORT + (p - BASE_PORT + 1) mod PORT_RANGE"

partial_function (option) insert_loop ::
  "u16 \<Rightarrow> SocketAddr \<Rightarrow> SocketAddr \<Rightarrow> NatTable \<Rightarrow> (u16 option \<times> NatTable) option" where
  "insert_loop start src real_dst t =
     (let vp = nat_next t;
          t = t\<lparr>nat_next := advance (nat_next t)\<rparr>
      in if nat_reverse t vp = None then
           Some (Some vp, t\<lparr>nat_forward := (nat_forward t)((src, real_dst) \<mapsto> vp),
                            nat_reverse := (nat_reverse t)(vp \<mapsto> (src, real_dst))\<rparr>)
         else if nat_next t = start then Some (None, t)
         else insert_loop start src real_dst t)"

definition NatTable_insert ::
  "SocketAddr \<Rightarrow> SocketAddr \<Rightarrow> NatTable \<Rightarrow> (u16 option \<times> NatTable) option" where
  "NatTable_insert src real_dst t =
     (case nat_forward t (src, real_dst) of
        Some vp \<Rightarrow> Some (Some vp, t)
      | None \<Rightarrow> insert_loop (nat_next t) src real_dst t)"

definition NatTable_lookup_forward :: "NatTable \<Rightarrow> SocketAddr \<Rightarrow> SocketAddr \<Rightarrow> u16 option" where
  "NatTable_lookup_forward t src real_dst = nat_forward t (src, real_dst)"

definition NatTable_lookup_reverse :: "NatTable \<Rightarrow> u16 \<Rightarrow> flow option" where
  "NatTable_lookup_reverse t vport = nat_reverse t vport"

definition NatTable_remove_by_vport :: "u16 \<Rightarrow> NatTable \<Rightarrow> NatTable" where
  "NatTable_remove_by_vport vport t =
     (case nat_reverse t vport of
        Some key \<Rightarrow> t\<lparr>nat_reverse := (nat_reverse t)(vport := None),
                      nat_forward := (nat_forward t)(key := None)\<rparr>
      | None \<Rightarrow> t)"

section \<open>The invariant\<close>

definition port_ok :: "u16 \<Rightarrow> bool" where
  "port_ok p \<longleftrightarrow> 10000 \<le> unat p \<and> unat p < 60000"

definition NatTable_inv :: "NatTable \<Rightarrow> bool" where
  "NatTable_inv t \<longleftrightarrow>
     (\<forall>k p. nat_forward t k = Some p \<longleftrightarrow> nat_reverse t p = Some k) \<and>
     (\<forall>p. nat_reverse t p \<noteq> None \<longrightarrow> port_ok p) \<and> port_ok (nat_next t)"

lemma NatTable_invD:
  assumes "NatTable_inv t"
  shows "nat_forward t k = Some p \<longleftrightarrow> nat_reverse t p = Some k"
    and "nat_reverse t p = Some k \<Longrightarrow> port_ok p" and "port_ok (nat_next t)"
  using assms unfolding NatTable_inv_def by blast+

section \<open>The port cycle\<close>

text \<open>The ports in scan order, as positions \<open>0, \<dots>, 49999\<close> taken modulo the range.\<close>

definition port_at :: "nat \<Rightarrow> u16" where
  "port_at k = word_of_nat (10000 + k mod 50000)"

definition pos_of :: "u16 \<Rightarrow> nat" where
  "pos_of p = unat p - 10000"

lemma unat_port_at: "unat (port_at k) = 10000 + k mod 50000"
proof -
  have "k mod 50000 < 50000" by simp
  then have "10000 + k mod 50000 < 65536" by linarith
  then show ?thesis
    unfolding port_at_def by (subst unsigned_of_nat) (simp add: take_bit_nat_eq_self)
qed

lemma port_at_ok [simp]: "port_ok (port_at k)"
  by (simp add: port_ok_def unat_port_at)

lemma port_at_pos_of: "port_ok p \<Longrightarrow> port_at (pos_of p) = p"
proof -
  assume ok: "port_ok p"
  then have "unat p - 10000 < 50000" by (auto simp: port_ok_def)
  then have "(unat p - 10000) mod 50000 = unat p - 10000" by simp
  with ok show ?thesis
    by (simp add: word_unat_eq_iff unat_port_at pos_of_def port_ok_def)
qed

lemma port_at_eq_iff: "port_at i = port_at j \<longleftrightarrow> i mod 50000 = j mod 50000"
  by (simp add: word_unat_eq_iff unat_port_at)

lemma advance_port_at: "advance (port_at k) = port_at (Suc k)"
proof (rule word_unat_eq_iff [THEN iffD2])
  let ?m = "k mod 50000"
  have m: "?m < 50000" by simp
  have "unat (port_at k - BASE_PORT) = ?m"
    by (simp add: BASE_PORT_def unat_sub word_le_nat_alt unat_port_at)
  then have "unat (port_at k - BASE_PORT + 1) = Suc ?m"
    using m by (simp add: unat_word_ariths)
  then have "unat ((port_at k - BASE_PORT + 1) mod PORT_RANGE) = Suc k mod 50000"
    by (simp add: unat_mod PORT_RANGE_def mod_Suc_eq)
  moreover have "Suc k mod 50000 < 50000" by simp
  ultimately show "unat (advance (port_at k)) = unat (port_at (Suc k))"
    by (simp add: advance_def BASE_PORT_def unat_word_ariths unat_port_at)
qed

lemma port_cycle: "0 < j \<Longrightarrow> j \<le> 50000 \<Longrightarrow> port_at (s + j) = port_at s \<longleftrightarrow> j = 50000"
proof -
  assume j: "0 < j" "j \<le> 50000"
  have "(s + j) mod 50000 = s mod 50000 \<longleftrightarrow> 50000 dvd j"
    using mod_eq_dvd_iff_nat [of s "s + j" 50000] by simp
  also have "\<dots> \<longleftrightarrow> j = 50000" using j by (auto dest: dvd_imp_le)
  finally show ?thesis by (simp add: port_at_eq_iff)
qed

section \<open>The scan returns\<close>

definition grant :: "u16 \<Rightarrow> u16 \<Rightarrow> flow \<Rightarrow> NatTable \<Rightarrow> NatTable" where
  "grant vp n k t =
     t\<lparr>nat_next := n, nat_forward := (nat_forward t)(k \<mapsto> vp), nat_reverse := (nat_reverse t)(vp \<mapsto> k)\<rparr>"

lemma insert_loop_found:
  assumes "nat_next t = port_at (s + j)" and "j \<le> m" and "m < 50000"
    and "nat_reverse t (port_at (s + m)) = None"
    and "\<And>i. j \<le> i \<Longrightarrow> i < m \<Longrightarrow> nat_reverse t (port_at (s + i)) \<noteq> None"
  shows "insert_loop (port_at s) src dst t =
     Some (Some (port_at (s + m)), grant (port_at (s + m)) (port_at (s + Suc m)) (src, dst) t)"
  using assms
proof (induction "m - j" arbitrary: j t)
  case 0
  then have "j = m" by simp
  with 0 show ?case
    by (simp add: insert_loop.simps [of _ _ _ t] Let_def advance_port_at grant_def)
next
  case (Suc d)
  let ?t = "t\<lparr>nat_next := port_at (s + Suc j)\<rparr>"
  have jm: "j < m" using Suc.hyps(2) by simp
  have taken: "nat_reverse t (port_at (s + j)) \<noteq> None" using Suc.prems(5) [of j] jm by simp
  have step: "insert_loop (port_at s) src dst t = insert_loop (port_at s) src dst ?t"
    using taken jm Suc.prems(1,3) port_cycle [of "Suc j" s]
    by (auto simp: insert_loop.simps [of _ _ _ t] Let_def advance_port_at)
  have "insert_loop (port_at s) src dst ?t =
      Some (Some (port_at (s + m)), grant (port_at (s + m)) (port_at (s + Suc m)) (src, dst) ?t)"
    by (rule Suc.hyps(1) [of "Suc j"]) (use Suc.hyps(2) Suc.prems jm in auto)
  with step show ?case by (simp add: grant_def)
qed

lemma insert_loop_full:
  assumes "nat_next t = port_at (s + j)" and "j < 50000"
    and "\<And>i. j \<le> i \<Longrightarrow> i < 50000 \<Longrightarrow> nat_reverse t (port_at (s + i)) \<noteq> None"
  shows "insert_loop (port_at s) src dst t = Some (None, t\<lparr>nat_next := port_at s\<rparr>)"
  using assms
proof (induction "50000 - Suc j" arbitrary: j t)
  case 0
  then have j: "Suc j = 50000" by simp
  have "nat_reverse t (port_at (s + j)) \<noteq> None" using 0 by simp
  moreover have "port_at (Suc (s + j)) = port_at s"
    by (metis j port_cycle le_refl zero_less_Suc add_Suc_right)
  ultimately show ?case
    using 0 by (simp add: insert_loop.simps [of _ _ _ t] Let_def advance_port_at)
next
  case (Suc d)
  let ?t = "t\<lparr>nat_next := port_at (s + Suc j)\<rparr>"
  have j: "Suc j < 50000" using Suc.hyps(2) by simp
  have taken: "nat_reverse t (port_at (s + j)) \<noteq> None" using Suc.prems(2,3) by simp
  have step: "insert_loop (port_at s) src dst t = insert_loop (port_at s) src dst ?t"
    using taken j Suc.prems(1) port_cycle [of "Suc j" s]
    by (auto simp: insert_loop.simps [of _ _ _ t] Let_def advance_port_at)
  have "insert_loop (port_at s) src dst ?t = Some (None, ?t\<lparr>nat_next := port_at s\<rparr>)"
    by (rule Suc.hyps(1) [of "Suc j"]) (use Suc.hyps(2) Suc.prems j in auto)
  with step show ?case by simp
qed

text \<open>The free ports, in scan order from the table's cursor.\<close>

definition free_pos :: "NatTable \<Rightarrow> nat \<Rightarrow> bool" where
  "free_pos t m \<longleftrightarrow> m < 50000 \<and> nat_reverse t (port_at (pos_of (nat_next t) + m)) = None"

lemma free_pos_exhaust:
  assumes "port_ok p"
  shows "\<exists>m < 50000. p = port_at (pos_of q + m)"
proof -
  let ?a = "pos_of p" and ?b = "pos_of q"
  define m where "m = (?a + 50000 * (1 + ?b) - ?b) mod 50000"
  have le: "?b \<le> ?a + 50000 * (1 + ?b)" by simp
  have "(?b + m) mod 50000 = (?b + (?a + 50000 * (1 + ?b) - ?b)) mod 50000"
    unfolding m_def by (rule mod_add_right_eq)
  also have "\<dots> = (?a + 50000 * (1 + ?b)) mod 50000" by (simp only: le_add_diff_inverse [OF le])
  also have "\<dots> = ?a mod 50000" by (rule mod_mult_self2)
  finally have "port_at (?b + m) = port_at ?a" by (simp add: port_at_eq_iff)
  then have "p = port_at (?b + m)" using port_at_pos_of [OF assms] by simp
  moreover have "m < 50000" unfolding m_def by simp
  ultimately show ?thesis by blast
qed

lemma insert_new:
  assumes inv: "NatTable_inv t" and new: "nat_forward t (src, dst) = None"
    and m: "free_pos t m" and least: "\<And>i. i < m \<Longrightarrow> \<not> free_pos t i"
  shows "NatTable_insert src dst t =
     Some (Some (port_at (pos_of (nat_next t) + m)),
           grant (port_at (pos_of (nat_next t) + m)) (port_at (pos_of (nat_next t) + Suc m))
             (src, dst) t)"
proof -
  let ?s = "pos_of (nat_next t)"
  have start: "nat_next t = port_at ?s"
    using NatTable_invD(3) [OF inv] by (simp add: port_at_pos_of)
  have "insert_loop (port_at ?s) src dst t =
      Some (Some (port_at (?s + m)), grant (port_at (?s + m)) (port_at (?s + Suc m)) (src, dst) t)"
  proof (rule insert_loop_found [where j = 0])
    show "nat_next t = port_at (?s + 0)" using start by simp
    show "m < 50000" and "nat_reverse t (port_at (?s + m)) = None" using m by (auto simp: free_pos_def)
    show "nat_reverse t (port_at (?s + i)) \<noteq> None" if "i < m" for i
      using least [OF that] that m by (auto simp: free_pos_def)
  qed simp
  with new start show ?thesis by (simp add: NatTable_insert_def)
qed

lemma insert_full:
  assumes inv: "NatTable_inv t" and new: "nat_forward t (src, dst) = None"
    and full: "\<And>m. \<not> free_pos t m"
  shows "NatTable_insert src dst t = Some (None, t)"
proof -
  let ?s = "pos_of (nat_next t)"
  have start: "nat_next t = port_at ?s"
    using NatTable_invD(3) [OF inv] by (simp add: port_at_pos_of)
  have "insert_loop (port_at ?s) src dst t = Some (None, t\<lparr>nat_next := port_at ?s\<rparr>)"
  proof (rule insert_loop_full [where j = 0])
    show "nat_next t = port_at (?s + 0)" using start by simp
    show "nat_reverse t (port_at (?s + i)) \<noteq> None" if "i < 50000" for i
      using full [of i] that by (auto simp: free_pos_def)
  qed simp
  also have "t\<lparr>nat_next := port_at ?s\<rparr> = t" using start by simp
  finally show ?thesis using new start by (simp add: NatTable_insert_def)
qed

section \<open>The contract of the table\<close>

text \<open>
  What the stack relies on: lookups in both directions agree, an insertion returns, finds the
  known port or grants an unused one without touching any other connection, and a removal frees
  exactly one connection.
\<close>

locale port_nat =
  fixes fwd :: "'t \<Rightarrow> 'k \<Rightarrow> 'p option"
    and rvs :: "'t \<Rightarrow> 'p \<Rightarrow> 'k option"
    and ins :: "'k \<Rightarrow> 't \<Rightarrow> ('p option \<times> 't) option"
    and del :: "'p \<Rightarrow> 't \<Rightarrow> 't"
    and invar :: "'t \<Rightarrow> bool"
  assumes agree: "invar t \<Longrightarrow> fwd t k = Some p \<longleftrightarrow> rvs t p = Some k"
    and ins_returns: "invar t \<Longrightarrow> \<exists>r t'. ins k t = Some (r, t') \<and> invar t'"
    and ins_known: "fwd t k = Some p \<Longrightarrow> ins k t = Some (Some p, t)"
    and ins_fresh: "invar t \<Longrightarrow> fwd t k = None \<Longrightarrow> ins k t = Some (Some p, t') \<Longrightarrow>
          rvs t p = None \<and> fwd t' = (fwd t)(k \<mapsto> p)"
    and ins_refused: "invar t \<Longrightarrow> ins k t = Some (None, t') \<Longrightarrow> t' = t \<and> fwd t k = None"
    and del_invar: "invar t \<Longrightarrow> invar (del p t)"
    and del_used: "invar t \<Longrightarrow> rvs t p = Some k \<Longrightarrow> fwd (del p t) = (fwd t)(k := None)"
    and del_unused: "rvs t p = None \<Longrightarrow> del p t = t"
begin

lemma ins_total: "invar t \<Longrightarrow> ins k t \<noteq> None"
  using ins_returns [of t k] by auto

lemma ins_invar: "invar t \<Longrightarrow> ins k t = Some (r, t') \<Longrightarrow> invar t'"
  using ins_returns [of t k] by auto

text \<open>The port handed out leads back to its connection.\<close>

lemma ins_routes_back:
  assumes "invar t" and "ins k t = Some (Some p, t')"
  shows "fwd t' k = Some p" and "rvs t' p = Some k"
proof -
  show f: "fwd t' k = Some p"
  proof (cases "fwd t k")
    case None
    with assms show ?thesis using ins_fresh by fastforce
  next
    case (Some q)
    with assms ins_known [OF Some] show ?thesis by simp
  qed
  show "rvs t' p = Some k" using f agree [OF ins_invar [OF assms]] by simp
qed

text \<open>No other connection is disturbed, whatever the insertion answers.\<close>

lemma ins_frame:
  assumes "invar t" and "ins k t = Some (r, t')" and "fwd t k' = Some p'"
  shows "fwd t' k' = Some p'" and "rvs t' p' = Some k'"
proof -
  show f: "fwd t' k' = Some p'"
  proof (cases r)
    case None
    with assms show ?thesis using ins_refused by blast
  next
    case (Some p)
    show ?thesis
    proof (cases "fwd t k")
      case None
      with assms Some have "fwd t' = (fwd t)(k \<mapsto> p)" using ins_fresh by blast
      moreover have "k' \<noteq> k" using None assms(3) by auto
      ultimately show ?thesis using assms(3) by simp
    next
      case (Some q)
      with assms show ?thesis using ins_known [OF Some] by simp
    qed
  qed
  show "rvs t' p' = Some k'" using f agree [OF ins_invar [OF assms(1,2)]] by simp
qed

lemma ports_distinct:
  "invar t \<Longrightarrow> fwd t k = Some p \<Longrightarrow> fwd t k' = Some p \<Longrightarrow> k = k'"
  using agree [of t k p] agree [of t k' p] by simp

lemma del_frame:
  assumes "invar t" and "rvs t p' = Some k'" and "p' \<noteq> p"
  shows "rvs (del p t) p' = Some k'"
proof (cases "rvs t p")
  case None
  with assms show ?thesis using del_unused by simp
next
  case (Some k)
  have "fwd t k' = Some p'" using agree [OF assms(1)] assms(2) by simp
  moreover have "k' \<noteq> k" using agree [OF assms(1)] Some assms(2,3) by (metis option.inject)
  ultimately have "fwd (del p t) k' = Some p'" using del_used [OF assms(1) Some] by simp
  then show ?thesis using agree [OF del_invar [OF assms(1)]] by simp
qed

lemma del_gone: "invar t \<Longrightarrow> rvs (del p t) p = None"
proof (cases "rvs t p")
  case None
  then show ?thesis using del_unused by simp
next
  case (Some k)
  assume inv: "invar t"
  have fk: "fwd t k = Some p" using agree [OF inv] Some by simp
  show ?thesis
  proof (rule ccontr)
    assume "rvs (del p t) p \<noteq> None"
    then obtain k' where "rvs (del p t) p = Some k'" by blast
    then have k': "fwd (del p t) k' = Some p" using agree [OF del_invar [OF inv]] by simp
    then have "k' \<noteq> k" and "fwd t k' = Some p"
      using del_used [OF inv Some] by (auto split: if_splits)
    then show False using ports_distinct [OF inv fk] by simp
  qed
qed

end

section \<open>The code meets the contract\<close>

lemma NatTable_new_inv: "NatTable_inv NatTable_new"
  by (simp add: NatTable_inv_def NatTable_new_def BASE_PORT_def port_ok_def)

lemma NatTable_invI:
  assumes "\<And>k p. nat_forward t k = Some p \<longleftrightarrow> nat_reverse t p = Some k"
    and "\<And>k p. nat_reverse t p = Some k \<Longrightarrow> port_ok p" and "port_ok (nat_next t)"
  shows "NatTable_inv t"
  using assms unfolding NatTable_inv_def by blast

lemma grant_inv:
  assumes inv: "NatTable_inv t" and "nat_forward t k = None" and "nat_reverse t vp = None"
    and "port_ok vp" and "port_ok n"
  shows "NatTable_inv (grant vp n k t)"
proof (rule NatTable_invI)
  fix k' p
  have "nat_forward t k' \<noteq> Some vp" and "nat_reverse t p \<noteq> Some k"
    using NatTable_invD(1) [OF inv] assms(2,3) by (metis option.distinct(1))+
  then show "nat_forward (grant vp n k t) k' = Some p \<longleftrightarrow> nat_reverse (grant vp n k t) p = Some k'"
    using NatTable_invD(1) [OF inv, of k' p] by (simp add: grant_def)
next
  fix k' p assume "nat_reverse (grant vp n k t) p = Some k'"
  then show "port_ok p"
    using assms(4) NatTable_invD(2) [OF inv] by (simp add: grant_def split: if_splits)
qed (simp add: grant_def assms(5))

lemma remove_inv:
  assumes inv: "NatTable_inv t"
  shows "NatTable_inv (NatTable_remove_by_vport p t)"
proof (cases "nat_reverse t p")
  case (Some k)
  have key: "nat_forward t k' = Some q \<longrightarrow> (k' = k \<longleftrightarrow> q = p)" for k' q
    using NatTable_invD(1) [OF inv] Some by (metis option.inject)
  show ?thesis
  proof (rule NatTable_invI)
    fix k' q
    show "nat_forward (NatTable_remove_by_vport p t) k' = Some q \<longleftrightarrow>
        nat_reverse (NatTable_remove_by_vport p t) q = Some k'"
      using key [of k' q] NatTable_invD(1) [OF inv, of k' q] Some
      by (cases "k' = k"; cases "q = p") (simp_all add: NatTable_remove_by_vport_def)
  next
    fix k' q assume "nat_reverse (NatTable_remove_by_vport p t) q = Some k'"
    then show "port_ok q"
      using Some NatTable_invD(2) [OF inv, of q k']
      by (simp add: NatTable_remove_by_vport_def split: if_splits)
  qed (use Some NatTable_invD(3) [OF inv] in \<open>simp add: NatTable_remove_by_vport_def\<close>)
qed (simp add: NatTable_remove_by_vport_def inv)

lemma insert_cases:
  assumes inv: "NatTable_inv t" and new: "nat_forward t (src, dst) = None"
  obtains (granted) vp n where "NatTable_insert src dst t = Some (Some vp, grant vp n (src, dst) t)"
      and "nat_reverse t vp = None" and "port_ok vp" and "port_ok n"
    | (full) "NatTable_insert src dst t = Some (None, t)" and "\<And>p. port_ok p \<Longrightarrow> nat_reverse t p \<noteq> None"
proof (cases "\<exists>m. free_pos t m")
  case True
  define m where "m = (LEAST m. free_pos t m)"
  have m: "free_pos t m" using True unfolding m_def by (rule LeastI_ex)
  have least: "\<not> free_pos t i" if "i < m" for i
    using that unfolding m_def by (rule not_less_Least)
  show thesis
    by (rule granted [OF insert_new [OF inv new m least]]) (use m in \<open>auto simp: free_pos_def\<close>)
next
  case False
  have "nat_reverse t p \<noteq> None" if ok: "port_ok p" for p
  proof -
    obtain i where "i < 50000" and "p = port_at (pos_of (nat_next t) + i)"
      using free_pos_exhaust [OF ok, of "nat_next t"] by blast
    then show ?thesis using False by (auto simp: free_pos_def)
  qed
  then show thesis
    using full insert_full [OF inv new] False by blast
qed

interpretation nt: port_nat nat_forward nat_reverse "\<lambda>(src, dst). NatTable_insert src dst"
  NatTable_remove_by_vport NatTable_inv
proof (unfold_locales, goal_cases)
  case (1 t k p)
  then show ?case by (rule NatTable_invD(1))
next
  case (2 t k)
  obtain src dst where k: "k = (src, dst)" by (cases k)
  show ?case
  proof (cases "nat_forward t k")
    case None
    with k have new: "nat_forward t (src, dst) = None" by simp
    with 2 show ?thesis
    proof (cases rule: insert_cases)
      case (granted vp n)
      with grant_inv [OF 2 new granted(2,3,4)] k show ?thesis by simp
    next
      case full
      with 2 k show ?thesis by simp
    qed
  next
    case (Some p)
    with 2 k show ?thesis by (simp add: NatTable_insert_def)
  qed
next
  case (3 t k p)
  then show ?case by (cases k) (simp add: NatTable_insert_def)
next
  case (4 t k p t')
  obtain src dst where k: "k = (src, dst)" by (cases k)
  from 4 k have "nat_forward t (src, dst) = None" by simp
  with 4(1) show ?case
  proof (cases rule: insert_cases)
    case (granted vp n)
    with 4 k have "p = vp" and "t' = grant vp n (src, dst) t" by auto
    with granted k show ?thesis by (simp add: grant_def)
  next
    case full
    with 4 k show ?thesis by simp
  qed
next
  case (5 t k t')
  obtain src dst where k: "k = (src, dst)" by (cases k)
  show ?case
  proof (cases "nat_forward t (src, dst)")
    case None
    with 5(1) show ?thesis
      by (cases rule: insert_cases) (use 5 k None in auto)
  next
    case (Some p)
    with 5 k show ?thesis by (simp add: NatTable_insert_def)
  qed
next
  case (6 t p)
  then show ?case by (rule remove_inv)
next
  case (7 t p k)
  then show ?case by (simp add: NatTable_remove_by_vport_def)
next
  case (8 t p)
  then show ?case by (simp add: NatTable_remove_by_vport_def)
qed

lemma ports_card: "card {p. port_ok p} = 50000"
proof -
  have "{p. port_ok p} = port_at ` {..<50000}"
  proof (intro set_eqI iffI)
    fix p assume "p \<in> {p. port_ok p}"
    then have ok: "port_ok p" by simp
    have "p = port_at (pos_of p)" using port_at_pos_of [OF ok] by simp
    moreover have "pos_of p < 50000" using ok by (auto simp: pos_of_def port_ok_def)
    ultimately show "p \<in> port_at ` {..<50000}" by blast
  qed auto
  moreover have "inj_on port_at {..<50000}"
    by (auto simp: inj_on_def port_at_eq_iff)
  ultimately show ?thesis by (simp add: card_image)
qed

text \<open>The table is full exactly when all 50000 ports of the range are in use.\<close>

lemma full_iff_card:
  assumes "NatTable_inv t"
  shows "(\<forall>p. port_ok p \<longrightarrow> nat_reverse t p \<noteq> None) \<longleftrightarrow> card (dom (nat_reverse t)) = 50000"
proof -
  have sub: "dom (nat_reverse t) \<subseteq> {p. port_ok p}"
    using NatTable_invD(2) [OF assms] by auto
  have "finite {p. port_ok p}" by simp
  then have "card (dom (nat_reverse t)) = 50000 \<longleftrightarrow> dom (nat_reverse t) = {p. port_ok p}"
    using card_subset_eq [OF _ sub] ports_card by auto
  moreover have "dom (nat_reverse t) = {p. port_ok p} \<longleftrightarrow> (\<forall>p. port_ok p \<longrightarrow> p \<in> dom (nat_reverse t))"
    using sub by blast
  ultimately show ?thesis by (simp add: domIff)
qed

lemma insert_shape:
  assumes inv: "NatTable_inv t"
  shows "\<exists>r t'. NatTable_insert src dst t = Some (r, t') \<and> NatTable_inv t' \<and>
     (case r of
        Some vp \<Rightarrow> nat_forward t' = (nat_forward t)((src, dst) \<mapsto> vp) \<and> nat_reverse t' vp = Some (src, dst)
      | None \<Rightarrow> t' = t \<and> nat_forward t (src, dst) = None \<and> card (dom (nat_reverse t)) = 50000)"
proof -
  obtain r t' where ins: "NatTable_insert src dst t = Some (r, t')"
    using nt.ins_total [OF inv, of "(src, dst)"] by auto
  have inv': "NatTable_inv t'" using nt.ins_invar [OF inv, of "(src, dst)"] ins by simp
  show ?thesis
  proof (cases r)
    case None
    then have same: "t' = t" and new: "nat_forward t (src, dst) = None"
      using nt.ins_refused [OF inv, of "(src, dst)"] ins by auto
    have "\<forall>p. port_ok p \<longrightarrow> nat_reverse t p \<noteq> None"
      by (rule insert_cases [OF inv new]) (use ins None in auto)
    then show ?thesis using ins None same new inv full_iff_card [OF inv] by simp
  next
    case (Some vp)
    then have leads: "nat_forward t' (src, dst) = Some vp" "nat_reverse t' vp = Some (src, dst)"
      using nt.ins_routes_back [OF inv, of "(src, dst)"] ins by auto
    have "nat_forward t' = (nat_forward t)((src, dst) \<mapsto> vp)"
    proof (cases "nat_forward t (src, dst)")
      case None
      then show ?thesis using nt.ins_fresh [OF inv, of "(src, dst)"] ins Some by simp
    next
      case (Some q)
      then have "t' = t" using nt.ins_known [OF Some] ins by simp
      with leads show ?thesis by (metis fun_upd_idem)
    qed
    with ins Some leads inv' show ?thesis by simp
  qed
qed

inductive nat_reach :: "NatTable \<Rightarrow> bool" where
  reach_new: "nat_reach NatTable_new"
| reach_insert: "nat_reach t \<Longrightarrow> NatTable_insert src dst t = Some (r, t') \<Longrightarrow> nat_reach t'"
| reach_remove: "nat_reach t \<Longrightarrow> nat_reach (NatTable_remove_by_vport p t)"

lemma nat_reach_inv: "nat_reach t \<Longrightarrow> NatTable_inv t"
proof (induction rule: nat_reach.induct)
  case (reach_insert t src dst r t')
  then show ?case using nt.ins_invar [of t "(src, dst)"] by simp
qed (simp_all add: NatTable_new_inv remove_inv)

text \<open>On every table the stack can build, allocating a virtual port returns (the scan always
  ends), keeps the table well formed, and either records exactly this connection under a port that
  leads back to it, leaving every other connection as it was, or refuses without any change; it
  refuses exactly when the connection is unknown and all 50000 ports of the range are taken.\<close>

lemma NatTable_insert_correct:
  assumes "nat_reach t"
  shows "\<exists>r t'. NatTable_insert src dst t = Some (r, t') \<and> NatTable_inv t' \<and>
     (r = None \<longleftrightarrow> NatTable_lookup_forward t src dst = None \<and> card (dom (nat_reverse t)) = 50000) \<and>
     (case r of
        Some vp \<Rightarrow> nat_forward t' = (nat_forward t)((src, dst) \<mapsto> vp)
          \<and> NatTable_lookup_reverse t' vp = Some (src, dst) \<and> port_ok vp
      | None \<Rightarrow> t' = t)"
proof -
  have inv: "NatTable_inv t" using assms by (rule nat_reach_inv)
  obtain r t' where ins: "NatTable_insert src dst t = Some (r, t')" and inv': "NatTable_inv t'"
    and r: "case r of
        Some vp \<Rightarrow> nat_forward t' = (nat_forward t)((src, dst) \<mapsto> vp) \<and> nat_reverse t' vp = Some (src, dst)
      | None \<Rightarrow> t' = t \<and> nat_forward t (src, dst) = None \<and> card (dom (nat_reverse t)) = 50000"
    using insert_shape [OF inv, of src dst] by blast
  have "r = None" if "nat_forward t (src, dst) = None" and "card (dom (nat_reverse t)) = 50000"
    by (rule insert_cases [OF inv that(1)]) (use that(2) ins full_iff_card [OF inv] in auto)
  then show ?thesis
    using ins inv' r NatTable_invD(2) [OF inv']
    by (cases r) (auto simp: NatTable_lookup_forward_def NatTable_lookup_reverse_def)
qed

definition demo_src :: SocketAddr where
  "demo_src = SocketAddr (V4 (Ipv4Addr 10 42 0 2)) 54321"

definition demo_dst :: SocketAddr where
  "demo_dst = SocketAddr (V4 (Ipv4Addr 8 8 8 8)) 443"

text \<open>Freeing a virtual port of a table the stack can build forgets exactly the connection
  that held it, in both directions, and leaves every other connection and port alone; the freed
  port makes room for a new connection again.\<close>

lemma NatTable_remove_correct:
  assumes "nat_reach t" and "NatTable_lookup_reverse t p = Some k"
  shows "nat_forward (NatTable_remove_by_vport p t) = (nat_forward t)(k := None)
    \<and> nat_reverse (NatTable_remove_by_vport p t) = (nat_reverse t)(p := None)
    \<and> (\<forall>src dst. \<exists>vp t'. NatTable_insert src dst (NatTable_remove_by_vport p t) = Some (Some vp, t'))"
proof (intro conjI allI)
  let ?t = "NatTable_remove_by_vport p t"
  have inv: "NatTable_inv t" using assms(1) by (rule nat_reach_inv)
  have rp: "nat_reverse t p = Some k" using assms(2) by (simp add: NatTable_lookup_reverse_def)
  show "nat_forward ?t = (nat_forward t)(k := None)" using nt.del_used [OF inv rp] .
  show rev: "nat_reverse ?t = (nat_reverse t)(p := None)"
    using rp by (simp add: NatTable_remove_by_vport_def)
  have inv': "NatTable_inv ?t" using inv by (rule remove_inv)
  have "port_ok p" using NatTable_invD(2) [OF inv rp] .
  then have "card (dom (nat_reverse ?t)) \<noteq> 50000"
    using full_iff_card [OF inv'] rev by (metis fun_upd_same)
  then show "\<exists>vp t'. NatTable_insert src dst ?t = Some (Some vp, t')" for src dst
    using insert_shape [OF inv', of src dst] by (auto split: option.splits)
qed

section \<open>How often the scan turns\<close>

text \<open>One pass through the body of the \<open>loop\<close> of \<open>insert\<close>: it ends the loop with a result, or leaves a table
  for the next pass.\<close>

definition insert_turn ::
  "u16 \<Rightarrow> SocketAddr \<Rightarrow> SocketAddr \<Rightarrow> NatTable \<Rightarrow> NatTable + (u16 option \<times> NatTable)" where
  "insert_turn start src real_dst t =
     (let vp = nat_next t;
          t = t\<lparr>nat_next := advance (nat_next t)\<rparr>
      in if nat_reverse t vp = None then
           Inr (Some vp, t\<lparr>nat_forward := (nat_forward t)((src, real_dst) \<mapsto> vp),
                           nat_reverse := (nat_reverse t)(vp \<mapsto> (src, real_dst))\<rparr>)
         else if nat_next t = start then Inr (None, t)
         else Inl t)"

fun insert_turns ::
  "nat \<Rightarrow> u16 \<Rightarrow> SocketAddr \<Rightarrow> SocketAddr \<Rightarrow> NatTable \<Rightarrow> NatTable + (u16 option \<times> NatTable)" where
  "insert_turns 0 start src real_dst t = Inl t"
| "insert_turns (Suc n) start src real_dst t =
     (case insert_turn start src real_dst t of
        Inr r \<Rightarrow> Inr r
      | Inl t \<Rightarrow> insert_turns n start src real_dst t)"

lemma insert_loop_turn:
  "insert_loop start src dst t =
     (case insert_turn start src dst t of Inr r \<Rightarrow> Some r | Inl t \<Rightarrow> insert_loop start src dst t)"
  by (subst insert_loop.simps) (simp add: insert_turn_def Let_def)

lemma insert_turns_loop: "insert_turns n start src dst t = Inr r \<Longrightarrow> insert_loop start src dst t = Some r"
proof (induction n arbitrary: t)
  case (Suc n)
  then show ?case by (subst insert_loop_turn) (auto split: sum.splits)
qed simp

lemma insert_turns_add:
  "insert_turns (n + m) start src dst t =
     (case insert_turns n start src dst t of Inr r \<Rightarrow> Inr r | Inl t \<Rightarrow> insert_turns m start src dst t)"
  by (induction n arbitrary: t) (auto split: sum.splits)

lemma insert_turns_taken:
  assumes "nat_next t = port_at (s + j)" and "j + n < 50000"
    and "\<And>i. j \<le> i \<Longrightarrow> i < j + n \<Longrightarrow> nat_reverse t (port_at (s + i)) \<noteq> None"
  shows "insert_turns n (port_at s) src dst t = Inl (t\<lparr>nat_next := port_at (s + j + n)\<rparr>)"
  using assms
proof (induction n arbitrary: j t)
  case (Suc n)
  let ?t = "t\<lparr>nat_next := port_at (s + Suc j)\<rparr>"
  have "nat_reverse t (port_at (s + j)) \<noteq> None" using Suc.prems(3) by simp
  then have "insert_turn (port_at s) src dst t = Inl ?t"
    using Suc.prems(1,2) port_cycle [of "Suc j" s] by (auto simp: insert_turn_def Let_def advance_port_at)
  moreover have "insert_turns n (port_at s) src dst ?t = Inl (?t\<lparr>nat_next := port_at (s + Suc j + n)\<rparr>)"
    by (rule Suc.IH) (use Suc.prems in auto)
  ultimately show ?case by simp
qed simp

text \<open>The scan looks at the ports one after the other: it turns once more than there are taken ports before
  the first free one, and 50000 times in a full table.\<close>

lemma insert_turns_free:
  assumes "port_ok (nat_next t)" and "free_pos t m" and "\<And>i. i < m \<Longrightarrow> \<not> free_pos t i"
  shows "\<exists>t'. insert_turns (Suc m) (nat_next t) src dst t = Inr (Some (port_at (pos_of (nat_next t) + m)), t')"
    and "insert_turns m (nat_next t) src dst t = Inl (t\<lparr>nat_next := port_at (pos_of (nat_next t) + m)\<rparr>)"
proof -
  let ?s = "pos_of (nat_next t)"
  have start: "port_at ?s = nat_next t" by (rule port_at_pos_of [OF assms(1)])
  have m: "m < 50000" "nat_reverse t (port_at (?s + m)) = None" using assms(2) by (auto simp: free_pos_def)
  have taken: "nat_reverse t (port_at (?s + i)) \<noteq> None" if "i < m" for i
    using assms(3) [OF that] that m(1) by (auto simp: free_pos_def)
  have "insert_turns m (port_at ?s) src dst t = Inl (t\<lparr>nat_next := port_at (?s + 0 + m)\<rparr>)"
    by (rule insert_turns_taken) (use m taken in \<open>simp_all add: start\<close>)
  then show turns: "insert_turns m (nat_next t) src dst t = Inl (t\<lparr>nat_next := port_at (?s + m)\<rparr>)"
    by (simp add: start)
  show "\<exists>t'. insert_turns (Suc m) (nat_next t) src dst t = Inr (Some (port_at (?s + m)), t')"
    using insert_turns_add [of m 1 "nat_next t" src dst t] turns m(2) by (simp add: insert_turn_def Let_def)
qed

lemma insert_turns_full:
  assumes "port_ok (nat_next t)" and "\<And>i. \<not> free_pos t i"
  shows "insert_turns 50000 (nat_next t) src dst t = Inr (None, t)"
    and "\<not> isl (insert_turns n (nat_next t) src dst t) \<Longrightarrow> 50000 \<le> n"
proof -
  let ?s = "pos_of (nat_next t)"
  have start: "port_at ?s = nat_next t" by (rule port_at_pos_of [OF assms(1)])
  have taken: "nat_reverse t (port_at (?s + i)) \<noteq> None" if "i < 50000" for i
    using assms(2) [of i] that by (auto simp: free_pos_def)
  have turns: "insert_turns n (nat_next t) src dst t = Inl (t\<lparr>nat_next := port_at (?s + n)\<rparr>)" if "n < 50000" for n
    using insert_turns_taken [of t ?s 0 n src dst] taken that by (simp add: start)
  have "insert_turn (nat_next t) src dst (t\<lparr>nat_next := port_at (?s + 49999)\<rparr>) = Inr (None, t)"
    using taken [of 49999] port_cycle [of 50000 ?s] advance_port_at [of "?s + 49999"]
    by (simp add: insert_turn_def Let_def start add.commute)
  then show "insert_turns 50000 (nat_next t) src dst t = Inr (None, t)"
    using insert_turns_add [of 49999 1 "nat_next t" src dst t] turns [of 49999] by simp
  show "50000 \<le> n" if "\<not> isl (insert_turns n (nat_next t) src dst t)"
    using turns [of n] that by (cases "n < 50000") auto
qed

lemma insert_turns_mono:
  assumes "isl (insert_turns n start src dst t)" and "k \<le> n"
  shows "isl (insert_turns k start src dst t)"
  using assms insert_turns_add [of k "n - k" start src dst t] by (auto split: sum.splits)

lemma taken_before_free:
  assumes "m < 50000" and "\<And>i. i < m \<Longrightarrow> \<not> free_pos t i"
  shows "m \<le> card (dom (nat_reverse t))"
proof -
  let ?p = "\<lambda>i. port_at (pos_of (nat_next t) + i)"
  have "?p i \<noteq> ?p j" if "i < j" and "j < m" for i j
  proof -
    have "0 < j - i" "j - i \<le> 50000" "j - i \<noteq> 50000" "i + (j - i) = j" using that assms(1) by auto
    then show ?thesis using port_cycle [of "j - i" "pos_of (nat_next t) + i"] by (metis add.assoc)
  qed
  then have "inj_on ?p {..<m}" by (intro inj_onI) (metis lessThan_iff linorder_less_linear)
  moreover have "?p ` {..<m} \<subseteq> dom (nat_reverse t)" using assms by (auto simp: free_pos_def)
  ultimately show ?thesis using card_mono [of "dom (nat_reverse t)" "?p ` {..<m}"] by (simp add: card_image)
qed

text \<open>C18: the port scan ends, and soon. On every table the stack can build, the unbounded \<open>loop\<close> of \<open>insert\<close>
  runs for a definite number of turns and then has its result. It runs at most one turn more than the
  table has entries, never more than the 50000 ports of the range, and comes back without a port exactly
  when all of them are taken.\<close>

theorem nat_scan_terminates:
  assumes "nat_reach t" and "NatTable_lookup_forward t src dst = None"
  shows "\<exists>n r t'. NatTable_insert src dst t = Some (r, t') \<and>
     insert_turns n (nat_next t) src dst t = Inr (r, t') \<and> (\<forall>k < n. isl (insert_turns k (nat_next t) src dst t)) \<and>
     n \<le> 50000 \<and> n \<le> Suc (card (dom (nat_reverse t))) \<and> (r = None \<longleftrightarrow> card (dom (nat_reverse t)) = 50000)"
proof -
  have inv: "NatTable_inv t" by (rule nat_reach_inv [OF assms(1)])
  have ok: "port_ok (nat_next t)" by (rule NatTable_invD(3) [OF inv])
  have full: "card (dom (nat_reverse t)) = 50000 \<longleftrightarrow> (\<forall>m. \<not> free_pos t m)"
    unfolding full_iff_card [OF inv, symmetric] free_pos_def using free_pos_exhaust [of _ "nat_next t"] by (metis port_at_ok)
  have ins: "NatTable_insert src dst t = Some r" if "insert_turns n (nat_next t) src dst t = Inr r" for n r
    using insert_turns_loop [OF that] assms(2) by (simp add: NatTable_insert_def NatTable_lookup_forward_def)
  show ?thesis
  proof (cases "\<exists>m. free_pos t m")
    case True
    define m where "m = (LEAST m. free_pos t m)"
    have m: "free_pos t m" "\<And>i. i < m \<Longrightarrow> \<not> free_pos t i" using True unfolding m_def by (auto intro: LeastI dest: not_less_Least)
    note f = insert_turns_free [OF ok m, where src = src and dst = dst]
    have lt: "m < 50000" using m(1) by (simp add: free_pos_def)
    have early: "isl (insert_turns k (nat_next t) src dst t)" if "k < Suc m" for k
      using insert_turns_mono [of m "nat_next t" src dst t k] f(2) that by simp
    obtain t' where t': "insert_turns (Suc m) (nat_next t) src dst t = Inr (Some (port_at (pos_of (nat_next t) + m)), t')"
      using f(1) by blast
    show ?thesis
      using ins [OF t'] t' early lt taken_before_free [OF lt m(2)] full True
      by (intro exI [of _ "Suc m"] exI [of _ "Some (port_at (pos_of (nat_next t) + m))"] exI [of _ t']) auto
  next
    case False
    then have none: "\<And>m. \<not> free_pos t m" by blast
    note f = insert_turns_full [OF ok none, where src = src and dst = dst]
    have early: "isl (insert_turns k (nat_next t) src dst t)" if "k < 50000" for k
      using f(2) [of k] that by linarith
    show ?thesis
      using ins [OF f(1)] f(1) early full none
      by (intro exI [of _ 50000] exI [of _ None] exI [of _ t]) auto
  qed
qed

theorem nat_scan_terminates_witness:
  "\<exists>n r t'. NatTable_insert demo_src demo_dst NatTable_new = Some (r, t') \<and>
     insert_turns n 10000 demo_src demo_dst NatTable_new = Inr (r, t') \<and> n \<le> 1 \<and> r \<noteq> None"
proof -
  have f: "NatTable_lookup_forward NatTable_new demo_src demo_dst = None"
    by (simp add: NatTable_lookup_forward_def NatTable_new_def)
  have e: "card (dom (nat_reverse NatTable_new)) = 0" "nat_next NatTable_new = 10000"
    by (simp_all add: NatTable_new_def BASE_PORT_def)
  show ?thesis using nat_scan_terminates [OF reach_new f] unfolding e by auto
qed

end
