(* ===== verification/Userspace_Stack.thy ===== *)
theory Userspace_Stack
  imports Rewrite Nat_Table
begin

text \<open>
  The userspace TCP stack of \<open>gravital-stack\<close>: \<open>device.rs\<close>, \<open>connection.rs\<close> and \<open>stack.rs\<close>. The state
  \<open>Inner\<close> behind the mutex is a record; \<open>feed_inbound\<close>, \<open>poll\<close>, \<open>drain_outbound\<close> and \<open>accept\<close> are
  functions on it. smoltcp (interface, sockets) and tokio's channels are not part of the
  repository: their state is the type \<open>'w\<close> and their operations are the fields of \<open>net_ops\<close>. A
  result \<open>None\<close> is a panic, or a loop that does not end.
\<close>

section \<open>The virtual device\<close>

record TunVirtualDevice =
  dev_rx :: "bytes list"
  dev_tx :: "bytes list"
  dev_mtu :: nat

definition TunVirtualDevice_new :: "nat \<Rightarrow> TunVirtualDevice" where
  "TunVirtualDevice_new mtu = \<lparr>dev_rx = [], dev_tx = [], dev_mtu = mtu\<rparr>"

definition TunVirtualDevice_has_rx :: "TunVirtualDevice \<Rightarrow> bool" where
  "TunVirtualDevice_has_rx d = (dev_rx d \<noteq> [])"

text \<open>\<open>receive\<close> hands out the packet (the receive token owns it) and the right to transmit.\<close>

definition TunVirtualDevice_receive :: "TunVirtualDevice \<Rightarrow> (bytes \<times> TunVirtualDevice) option" where
  "TunVirtualDevice_receive d =
     (case dev_rx d of [] \<Rightarrow> None | pkt # rest \<Rightarrow> Some (pkt, d\<lparr>dev_rx := rest\<rparr>))"

definition VirtualRxToken_consume :: "bytes \<Rightarrow> (bytes \<Rightarrow> 'r \<times> bytes) \<Rightarrow> 'r" where
  "VirtualRxToken_consume pkt f = fst (f pkt)"

definition VirtualTxToken_consume ::
  "nat \<Rightarrow> (bytes \<Rightarrow> 'r \<times> bytes) \<Rightarrow> TunVirtualDevice \<Rightarrow> 'r \<times> TunVirtualDevice" where
  "VirtualTxToken_consume len f d =
     (case f (replicate len 0) of (r, buf) \<Rightarrow> (r, d\<lparr>dev_tx := dev_tx d @ [buf]\<rparr>))"

text \<open>The device can always transmit: the token only gives access to the queue.\<close>

definition TunVirtualDevice_transmit ::
  "nat \<Rightarrow> (bytes \<Rightarrow> 'r \<times> bytes) \<Rightarrow> TunVirtualDevice \<Rightarrow> ('r \<times> TunVirtualDevice) option" where
  "TunVirtualDevice_transmit len f d = Some (VirtualTxToken_consume len f d)"

definition TunVirtualDevice_capabilities :: "TunVirtualDevice \<Rightarrow> nat" where
  "TunVirtualDevice_capabilities d = dev_mtu d"

section \<open>What the stack calls of smoltcp and tokio\<close>

datatype TcpState =
    Closed | Listen | SynSent | SynReceived | Established | FinWait1 | FinWait2
  | CloseWait | Closing | LastAck | TimeWait

text \<open>
  Sockets and channels are named by numbers (\<open>SocketHandle\<close> wraps an index). \<open>sock_open\<close> stands for
  \<open>Socket::new\<close>, \<open>listen\<close> and \<open>SocketSet::add\<close> (\<open>None\<close>: \<open>listen\<close> failed). \<open>sock_state\<close> is \<open>None\<close>
  where \<open>SocketSet::get_mut\<close> panics, \<open>sock_remove\<close> where \<open>SocketSet::remove\<close> does. \<open>sock_recv\<close> gives
  the contiguous slice passed to the closure, all of which the closure consumes. \<open>key_order\<close> is the
  iteration order of a \<open>HashMap\<close> with the given keys.
\<close>

record 'w net_ops =
  iface_poll :: "int \<Rightarrow> 'w \<Rightarrow> TunVirtualDevice \<Rightarrow> bool \<times> 'w \<times> TunVirtualDevice"
  sock_open :: "nat \<Rightarrow> Ipv4Addr \<Rightarrow> u16 \<Rightarrow> 'w \<Rightarrow> (nat \<times> 'w) option"
  sock_remove :: "nat \<Rightarrow> 'w \<Rightarrow> 'w option"
  sock_state :: "'w \<Rightarrow> nat \<Rightarrow> TcpState option"
  sock_can_recv :: "'w \<Rightarrow> nat \<Rightarrow> bool"
  sock_recv :: "nat \<Rightarrow> 'w \<Rightarrow> (bytes \<times> 'w) option"
  sock_can_send :: "'w \<Rightarrow> nat \<Rightarrow> bool"
  sock_send_slice :: "nat \<Rightarrow> bytes \<Rightarrow> 'w \<Rightarrow> 'w"
  sock_close :: "nat \<Rightarrow> 'w \<Rightarrow> 'w"
  chan_new :: "nat \<Rightarrow> 'w \<Rightarrow> nat \<times> 'w"
  chan_try_send :: "nat \<Rightarrow> bytes \<Rightarrow> 'w \<Rightarrow> 'w"
  chan_try_recv :: "nat \<Rightarrow> 'w \<Rightarrow> (bytes \<times> 'w) option"
  chan_is_closed :: "'w \<Rightarrow> nat \<Rightarrow> bool"
  chan_drop :: "nat \<Rightarrow> nat \<Rightarrow> 'w \<Rightarrow> 'w"
  key_order :: "nat set \<Rightarrow> nat list"

section \<open>Connections\<close>

record VirtualConnection =
  vc_local :: SocketAddr
  vc_remote :: SocketAddr
  vc_rx :: nat
  vc_tx :: nat

record VirtualConnectionPeer =
  peer_rx :: nat
  peer_tx :: nat

definition VirtualConnection_pair ::
  "'w net_ops \<Rightarrow> SocketAddr \<Rightarrow> SocketAddr \<Rightarrow> 'w \<Rightarrow> (VirtualConnection \<times> VirtualConnectionPeer) \<times> 'w" where
  "VirtualConnection_pair ops local remote w =
     (let (a, w) = chan_new ops 256 w;
          (b, w) = chan_new ops 256 w;
          conn = \<lparr>vc_local = local, vc_remote = remote, vc_rx = a, vc_tx = b\<rparr>;
          peer = \<lparr>peer_rx = b, peer_tx = a\<rparr>
      in ((conn, peer), w))"

section \<open>The inner state\<close>

datatype StackError = InvalidMtu u16 | SocketExhausted | ConnectionReset | StackIo

definition SOCK_BUF :: nat where
  "SOCK_BUF = 65536"

definition PENDING_CAP :: nat where
  "PENDING_CAP = 128"

definition IFACE_IP :: Ipv4Addr where
  "IFACE_IP = Ipv4Addr 10 0 2 2"

record 'w Inner =
  in_net :: 'w
  in_device :: TunVirtualDevice
  in_nat :: NatTable
  in_active :: "nat \<rightharpoonup> SocketAddr \<times> VirtualConnectionPeer"
  in_pending :: "VirtualConnection list"
  in_tun_tx :: "bytes list"
  in_tun_rx :: "bytes list"

text \<open>\<open>net0\<close> is the freshly configured interface with an empty socket set.\<close>

definition Inner_new :: "'w \<Rightarrow> u16 \<Rightarrow> 'w Inner" where
  "Inner_new net0 mtu =
     \<lparr>in_net = net0, in_device = TunVirtualDevice_new (unat mtu), in_nat = NatTable_new,
      in_active = Map.empty, in_pending = [], in_tun_tx = [], in_tun_rx = []\<rparr>"

definition create_listener :: "'w net_ops \<Rightarrow> u16 \<Rightarrow> SocketAddr \<Rightarrow> 'w Inner \<Rightarrow> 'w Inner" where
  "create_listener ops vport real_remote s =
     (case sock_open ops SOCK_BUF IFACE_IP vport (in_net s) of
        None \<Rightarrow> s
      | Some (handle, w) \<Rightarrow>
          let ((conn, peer), w) =
                VirtualConnection_pair ops (SocketAddr (V4 IFACE_IP) vport) real_remote w;
              s = s\<lparr>in_net := w, in_active := (in_active s)(handle \<mapsto> (real_remote, peer))\<rparr>
          in if length (in_pending s) < PENDING_CAP
             then s\<lparr>in_pending := in_pending s @ [conn]\<rparr>
             else s\<lparr>in_net := chan_drop ops (vc_rx conn) (vc_tx conn) w\<rparr>)"

definition remote_active :: "'w net_ops \<Rightarrow> SocketAddr \<Rightarrow> 'w Inner \<Rightarrow> bool" where
  "remote_active ops real_dst s =
     list_ex (\<lambda>h. case in_active s h of Some (rd, _) \<Rightarrow> rd = real_dst | None \<Rightarrow> False)
       (key_order ops (dom (in_active s)))"

definition process_inbound :: "'w net_ops \<Rightarrow> bytes \<Rightarrow> 'w Inner \<Rightarrow> 'w Inner option" where
  "process_inbound ops raw s = do {
     addrs \<leftarrow> extract_tcp_addrs raw;
     case addrs of
       None \<Rightarrow> Some s
     | Some (src, real_dst) \<Rightarrow> do {
         syn \<leftarrow> is_tcp_syn raw;
         (vport, s) \<leftarrow>
           (if syn then do {
              (r, nat) \<leftarrow> NatTable_insert src real_dst (in_nat s);
              let s = s\<lparr>in_nat := nat\<rparr>;
              case r of
                Some vp \<Rightarrow>
                  Some (Some vp, if \<not> remote_active ops real_dst s then create_listener ops vp real_dst s else s)
              | None \<Rightarrow> Some (None, s)
            } else Some (NatTable_lookup_forward (in_nat s) src real_dst, s));
         case vport of
           None \<Rightarrow> Some s
         | Some vp \<Rightarrow> do {
             (ok, pkt) \<leftarrow> rewrite_inbound raw vp;
             if ok then Some (s\<lparr>in_device := (in_device s)\<lparr>dev_rx := dev_rx (in_device s) @ [pkt]\<rparr>\<rparr>)
             else Some s } } }"

section \<open>Servicing sockets\<close>

partial_function (option) write_pending ::
  "'w net_ops \<Rightarrow> nat \<Rightarrow> nat \<Rightarrow> 'w \<Rightarrow> 'w option" where
  "write_pending ops handle ch w =
     (if sock_can_send ops w handle then
        case chan_try_recv ops ch w of
          Some (data, w) \<Rightarrow> write_pending ops handle ch (sock_send_slice ops handle data w)
        | None \<Rightarrow> Some w
      else Some w)"

definition read_received :: "'w net_ops \<Rightarrow> nat \<Rightarrow> nat \<Rightarrow> 'w \<Rightarrow> 'w" where
  "read_received ops handle ch w =
     (if sock_can_recv ops w handle then
        case sock_recv ops handle w of
          Some (data, w) \<Rightarrow> if data \<noteq> [] then chan_try_send ops ch data w else w
        | None \<Rightarrow> w
      else w)"

definition service_socket :: "'w net_ops \<Rightarrow> nat \<Rightarrow> 'w Inner \<Rightarrow> (bool \<times> 'w Inner) option" where
  "service_socket ops handle s = do {
     state \<leftarrow> sock_state ops (in_net s) handle;
     if state = Closed \<or> state = TimeWait then Some (True, s)
     else case in_active s handle of
       None \<Rightarrow> Some (True, s)
     | Some (_, peer) \<Rightarrow> do {
         let w = read_received ops handle (peer_tx peer) (in_net s);
         w \<leftarrow> write_pending ops handle (peer_rx peer) w;
         let w = (if sock_can_send ops w handle \<and> chan_is_closed ops w (peer_rx peer)
                  then sock_close ops handle w else w);
         Some (False, s\<lparr>in_net := w\<rparr>) } }"

definition vport_of_handle :: "nat \<Rightarrow> 'w Inner \<Rightarrow> u16 option" where
  "vport_of_handle handle s =
     (case in_active s handle of
        None \<Rightarrow> None
      | Some (real_remote, _) \<Rightarrow>
          find (\<lambda>vport. case NatTable_lookup_reverse (in_nat s) vport of
                          Some (_, rd) \<Rightarrow> rd = real_remote
                        | None \<Rightarrow> False)
            (map word_of_nat [10000..<60000]))"

fun service_all :: "'w net_ops \<Rightarrow> nat list \<Rightarrow> bool \<Rightarrow> 'w Inner \<Rightarrow> (bool \<times> 'w Inner) option" where
  "service_all ops [] need_more s = Some (need_more, s)"
| "service_all ops (handle # handles) need_more s = do {
     (closed, s) \<leftarrow> service_socket ops handle s;
     if closed then do {
       (_, peer) \<leftarrow> in_active s handle;
       let s = s\<lparr>in_active := (in_active s)(handle := None)\<rparr>;
       let s = (case vport_of_handle handle s of
                  Some vp \<Rightarrow> s\<lparr>in_nat := NatTable_remove_by_vport vp (in_nat s)\<rparr>
                | None \<Rightarrow> s);
       w \<leftarrow> sock_remove ops handle (in_net s);
       service_all ops handles True (s\<lparr>in_net := chan_drop ops (peer_rx peer) (peer_tx peer) w\<rparr>)
     } else service_all ops handles need_more s }"

section \<open>The poll cycle\<close>

fun feed_all :: "'w net_ops \<Rightarrow> bytes list \<Rightarrow> 'w Inner \<Rightarrow> 'w Inner option" where
  "feed_all ops [] s = Some s"
| "feed_all ops (raw # raws) s = do { s \<leftarrow> process_inbound ops raw s; feed_all ops raws s }"

definition outbound_src_port :: "bytes \<Rightarrow> u16 option option" where
  "outbound_src_port pkt =
     (if length pkt < 20 then Some None
      else do {
        b0 \<leftarrow> idx pkt 0; proto \<leftarrow> idx pkt 9;
        if drop_bit 4 b0 \<noteq> 4 \<or> proto \<noteq> 6 then Some None
        else do {
          let ihl = unat (b0 AND 0x0F) * 4;
          if length pkt < ihl + 4 then Some None
          else do { p0 \<leftarrow> idx pkt ihl; p1 \<leftarrow> idx pkt (ihl + 1); Some (Some (from_be16 p0 p1)) } } })"

fun drain_tx :: "bytes list \<Rightarrow> 'w Inner \<Rightarrow> 'w Inner option" where
  "drain_tx [] s = Some s"
| "drain_tx (pkt # pkts) s = do {
     vp \<leftarrow> outbound_src_port pkt;
     (case Option.bind vp (NatTable_lookup_reverse (in_nat s)) of
        Some (_, SocketAddr (V4 ip) port) \<Rightarrow> do {
          (_, pkt) \<leftarrow> rewrite_outbound pkt ip port;
          drain_tx pkts (s\<lparr>in_tun_tx := in_tun_tx s @ [pkt]\<rparr>) }
      | Some (_, SocketAddr (V6 _) _) \<Rightarrow> drain_tx pkts (s\<lparr>in_tun_tx := in_tun_tx s @ [pkt]\<rparr>)
      | None \<Rightarrow> drain_tx pkts s) }"

definition Inner_poll :: "'w net_ops \<Rightarrow> int \<Rightarrow> 'w Inner \<Rightarrow> (bool \<times> 'w Inner) option" where
  "Inner_poll ops ts s = do {
     s \<leftarrow> feed_all ops (in_tun_rx s) (s\<lparr>in_tun_rx := []\<rparr>);
     let (progress, w, dev) = iface_poll ops ts (in_net s) (in_device s);
     let s = s\<lparr>in_net := w, in_device := dev\<rparr>;
     let handles = key_order ops (dom (in_active s));
     (need_more, s) \<leftarrow> service_all ops handles progress s;
     s \<leftarrow> drain_tx (dev_tx (in_device s)) (s\<lparr>in_device := (in_device s)\<lparr>dev_tx := []\<rparr>\<rparr>);
     Some (need_more, s) }"

text \<open>The time given to smoltcp: microseconds since 1970, cut to 64 bits, and 0 if the clock is before
  1970 (\<open>None\<close>).\<close>

definition smol_now :: "nat option \<Rightarrow> int" where
  "smol_now micros = (case micros of Some n \<Rightarrow> sint (word_of_nat n :: u64) | None \<Rightarrow> 0)"

section \<open>The public interface\<close>

definition UserspaceStack_new :: "'w \<Rightarrow> u16 \<Rightarrow> StackError + 'w Inner" where
  "UserspaceStack_new net0 mtu =
     (if mtu < 576 \<or> mtu > 9000 then Inl (InvalidMtu mtu) else Inr (Inner_new net0 mtu))"

definition UserspaceStack_mtu :: "'w Inner \<Rightarrow> u16" where
  "UserspaceStack_mtu s = word_of_nat (TunVirtualDevice_capabilities (in_device s))"

definition UserspaceStack_mtu_inner :: "'w Inner \<Rightarrow> u16" where
  "UserspaceStack_mtu_inner s = word_of_nat (TunVirtualDevice_capabilities (in_device s))"

definition UserspaceStack_feed_inbound :: "bytes \<Rightarrow> 'w Inner \<Rightarrow> 'w Inner" where
  "UserspaceStack_feed_inbound pkt s = s\<lparr>in_tun_rx := in_tun_rx s @ [pkt]\<rparr>"

definition UserspaceStack_drain_outbound :: "'w Inner \<Rightarrow> bytes option \<times> 'w Inner" where
  "UserspaceStack_drain_outbound s =
     (case in_tun_tx s of [] \<Rightarrow> (None, s) | pkt # rest \<Rightarrow> (Some pkt, s\<lparr>in_tun_tx := rest\<rparr>))"

definition UserspaceStack_poll :: "'w net_ops \<Rightarrow> int \<Rightarrow> 'w Inner \<Rightarrow> (bool \<times> 'w Inner) option" where
  "UserspaceStack_poll ops ts s = Inner_poll ops ts s"

definition UserspaceStack_accept :: "'w Inner \<Rightarrow> VirtualConnection option \<times> 'w Inner" where
  "UserspaceStack_accept s =
     (case in_pending s of [] \<Rightarrow> (None, s) | conn # rest \<Rightarrow> (Some conn, s\<lparr>in_pending := rest\<rparr>))"

section \<open>A small network to run the stack on\<close>

text \<open>
  A concrete instance of the third-party operations, used to evaluate the stack on examples. Its
  interface swallows received packets and a new socket gets a handle no open socket has; from time 1 on it reports every socket as closed. Socket
  buffers hold \<open>SOCK_BUF\<close> bytes and channels 256 chunks, as in the code.
\<close>

record demo_net =
  dn_socks :: "nat list"
  dn_fresh :: nat
  dn_shut :: bool
  dn_rcv :: "nat \<Rightarrow> bytes"
  dn_snd :: "nat \<Rightarrow> bytes"
  dn_chan :: "nat \<Rightarrow> bytes list"

definition demo0 :: demo_net where
  "demo0 = \<lparr>dn_socks = [], dn_fresh = 0, dn_shut = False, dn_rcv = \<lambda>_. [], dn_snd = \<lambda>_. [],
            dn_chan = \<lambda>_. []\<rparr>"

definition demo_ops :: "demo_net net_ops" where
  "demo_ops =
     \<lparr>iface_poll = \<lambda>ts w d. (False, w\<lparr>dn_shut := 1 \<le> ts\<rparr>, d\<lparr>dev_rx := []\<rparr>),
      sock_open = \<lambda>size ip port w.
        (let h = sum_list (map Suc (dn_socks w)) in Some (h, w\<lparr>dn_socks := h # dn_socks w\<rparr>)),
      sock_remove = \<lambda>h w.
        if h \<in> set (dn_socks w) then Some (w\<lparr>dn_socks := filter (\<lambda>x. x \<noteq> h) (dn_socks w)\<rparr>) else None,
      sock_state = \<lambda>w h.
        if h \<in> set (dn_socks w) then Some (if dn_shut w then Closed else Established) else None,
      sock_can_recv = \<lambda>w h. dn_rcv w h \<noteq> [],
      sock_recv = \<lambda>h w. Some (dn_rcv w h, w\<lparr>dn_rcv := (dn_rcv w)(h := [])\<rparr>),
      sock_can_send = \<lambda>w h. length (dn_snd w h) < SOCK_BUF,
      sock_send_slice = \<lambda>h data w.
        w\<lparr>dn_snd := (dn_snd w)(h := dn_snd w h @ take (SOCK_BUF - length (dn_snd w h)) data)\<rparr>,
      sock_close = \<lambda>h w. w,
      chan_new = \<lambda>cap w. (dn_fresh w, w\<lparr>dn_fresh := Suc (dn_fresh w)\<rparr>),
      chan_try_send = \<lambda>ch data w.
        if length (dn_chan w ch) < 256 then w\<lparr>dn_chan := (dn_chan w)(ch := dn_chan w ch @ [data])\<rparr> else w,
      chan_try_recv = \<lambda>ch w.
        (case dn_chan w ch of
           [] \<Rightarrow> None
         | data # rest \<Rightarrow> Some (data, w\<lparr>dn_chan := (dn_chan w)(ch := rest)\<rparr>)),
      chan_is_closed = \<lambda>w ch. False,
      chan_drop = \<lambda>a b w. w,
      key_order = sorted_list_of_set\<rparr>"

lemma demo_ops_sel [simp]:
  "iface_poll demo_ops ts w d = (False, w\<lparr>dn_shut := 1 \<le> ts\<rparr>, d\<lparr>dev_rx := []\<rparr>)"
  "sock_open demo_ops n ip port w =
     (let h = sum_list (map Suc (dn_socks w)) in Some (h, w\<lparr>dn_socks := h # dn_socks w\<rparr>))"
  "sock_remove demo_ops h w =
     (if h \<in> set (dn_socks w) then Some (w\<lparr>dn_socks := filter (\<lambda>x. x \<noteq> h) (dn_socks w)\<rparr>) else None)"
  "sock_state demo_ops w h =
     (if h \<in> set (dn_socks w) then Some (if dn_shut w then Closed else Established) else None)"
  "sock_can_recv demo_ops w h \<longleftrightarrow> dn_rcv w h \<noteq> []"
  "sock_recv demo_ops h w = Some (dn_rcv w h, w\<lparr>dn_rcv := (dn_rcv w)(h := [])\<rparr>)"
  "sock_can_send demo_ops w h \<longleftrightarrow> length (dn_snd w h) < SOCK_BUF"
  "sock_send_slice demo_ops h data w =
     w\<lparr>dn_snd := (dn_snd w)(h := dn_snd w h @ take (SOCK_BUF - length (dn_snd w h)) data)\<rparr>"
  "sock_close demo_ops h w = w"
  "chan_new demo_ops cap w = (dn_fresh w, w\<lparr>dn_fresh := Suc (dn_fresh w)\<rparr>)"
  "chan_try_send demo_ops ch data w =
     (if length (dn_chan w ch) < 256 then w\<lparr>dn_chan := (dn_chan w)(ch := dn_chan w ch @ [data])\<rparr> else w)"
  "chan_try_recv demo_ops ch w =
     (case dn_chan w ch of
        [] \<Rightarrow> None
      | data # rest \<Rightarrow> Some (data, w\<lparr>dn_chan := (dn_chan w)(ch := rest)\<rparr>))"
  "chan_is_closed demo_ops w ch \<longleftrightarrow> False"
  "chan_drop demo_ops x y w = w"
  "key_order demo_ops = sorted_list_of_set"
  by (simp_all add: demo_ops_def)

section \<open>The translation table over a stack's life\<close>

lemma create_listener_frame [simp]:
  "in_nat (create_listener ops vp rd s) = in_nat s"
  "in_device (create_listener ops vp rd s) = in_device s"
  "in_tun_rx (create_listener ops vp rd s) = in_tun_rx s"
  "in_tun_tx (create_listener ops vp rd s) = in_tun_tx s"
  by (simp_all add: create_listener_def Let_def split: option.split prod.split)

lemma create_listener_pending:
  "length (in_pending s) \<le> PENDING_CAP \<Longrightarrow> length (in_pending (create_listener ops vp rd s)) \<le> PENDING_CAP"
  by (simp add: create_listener_def Let_def split: option.split prod.split)

lemma extract_Some_tcp4: "extract_tcp_addrs raw = Some (Some a) \<Longrightarrow> tcp4 raw"
  by (simp add: extract_tcp_addrs_eq split: if_splits)

text \<open>What one packet does, branch by branch.\<close>

lemma process_inbound_ignored:
  "extract_tcp_addrs raw = Some None \<Longrightarrow> process_inbound ops raw s = Some s"
  by (simp add: process_inbound_def)

definition deliver :: "bytes \<Rightarrow> u16 \<Rightarrow> 'w Inner \<Rightarrow> 'w Inner" where
  "deliver raw vp s =
     s\<lparr>in_device := (in_device s)\<lparr>dev_rx := dev_rx (in_device s)
        @ [refresh (put16 (ihl_of raw + 2) vp raw)]\<rparr>\<rparr>"

definition with_listener :: "'w net_ops \<Rightarrow> u16 \<Rightarrow> SocketAddr \<Rightarrow> 'w Inner \<Rightarrow> 'w Inner" where
  "with_listener ops vp real_dst s =
     (if remote_active ops real_dst s then s else create_listener ops vp real_dst s)"

lemma process_inbound_mid_flow:
  assumes "extract_tcp_addrs raw = Some (Some (src, dst))" and "is_tcp_syn raw = Some False"
  shows "process_inbound ops raw s =
     (case nat_forward (in_nat s) (src, dst) of
        Some vp \<Rightarrow> Some (deliver raw vp s)
      | None \<Rightarrow> Some s)"
  using assms extract_Some_tcp4 [OF assms(1)]
  by (simp add: process_inbound_def NatTable_lookup_forward_def rewrite_inbound_eq deliver_def
      split: option.split)

lemma process_inbound_syn:
  assumes "extract_tcp_addrs raw = Some (Some (src, dst))" and "is_tcp_syn raw = Some True"
    and "NatTable_insert src dst (in_nat s) = Some (r, n)"
  shows "process_inbound ops raw s =
     (case r of
        Some vp \<Rightarrow> Some (deliver raw vp (with_listener ops vp dst (s\<lparr>in_nat := n\<rparr>)))
      | None \<Rightarrow> Some (s\<lparr>in_nat := n\<rparr>))"
  using assms extract_Some_tcp4 [OF assms(1)]
  by (simp add: process_inbound_def rewrite_inbound_eq deliver_def with_listener_def Let_def
      split: option.split)

lemma deliver_frame [simp]:
  "in_nat (deliver raw vp s) = in_nat s" "in_pending (deliver raw vp s) = in_pending s"
  "in_active (deliver raw vp s) = in_active s" "in_net (deliver raw vp s) = in_net s"
  "in_tun_rx (deliver raw vp s) = in_tun_rx s" "in_tun_tx (deliver raw vp s) = in_tun_tx s"
  by (simp_all add: deliver_def)

lemma with_listener_frame [simp]:
  "in_nat (with_listener ops vp rd s) = in_nat s"
  "in_device (with_listener ops vp rd s) = in_device s"
  "in_tun_rx (with_listener ops vp rd s) = in_tun_rx s"
  "in_tun_tx (with_listener ops vp rd s) = in_tun_tx s"
  by (simp_all add: with_listener_def)

lemma with_listener_pending:
  "length (in_pending s) \<le> PENDING_CAP \<Longrightarrow> length (in_pending (with_listener ops vp rd s)) \<le> PENDING_CAP"
  by (simp add: with_listener_def create_listener_pending)

text \<open>Each case of \<open>process_inbound\<close> on a table that meets its invariant.\<close>

lemma process_inbound_cases:
  assumes inv: "NatTable_inv (in_nat s)"
  obtains (skip) "process_inbound ops raw s = Some s"
    | (deliver) src dst vp where "extract_tcp_addrs raw = Some (Some (src, dst))"
        and "nat_forward (in_nat s) (src, dst) = Some vp"
        and "process_inbound ops raw s = Some (deliver raw vp s)"
    | (opened) src dst vp n where "extract_tcp_addrs raw = Some (Some (src, dst))"
        and "is_tcp_syn raw = Some True"
        and "NatTable_insert src dst (in_nat s) = Some (Some vp, n)"
        and "process_inbound ops raw s =
           Some (deliver raw vp (with_listener ops vp dst (s\<lparr>in_nat := n\<rparr>)))"
proof (cases "extract_tcp_addrs raw")
  case None
  then show thesis by (simp add: extract_tcp_addrs_eq)
next
  case (Some addrs)
  show thesis
  proof (cases addrs)
    case None
    then show thesis using Some skip process_inbound_ignored by blast
  next
    case (Some a)
    obtain src dst where a: "extract_tcp_addrs raw = Some (Some (src, dst))"
      using \<open>extract_tcp_addrs raw = Some addrs\<close> Some by (cases a) simp
    have "is_tcp_syn raw \<noteq> None"
      using extract_Some_tcp4 [OF a] by (auto simp: tcp4_def is_tcp_syn_def Let_def)
    then obtain syn where syn: "is_tcp_syn raw = Some syn" by blast
    show thesis
    proof (cases syn)
      case False
      then show thesis
        using process_inbound_mid_flow [OF a, of ops s] syn skip deliver [OF a]
        by (cases "nat_forward (in_nat s) (src, dst)") auto
    next
      case True
      obtain r n where ins: "NatTable_insert src dst (in_nat s) = Some (r, n)"
        using insert_shape [OF inv, of src dst] by blast
      have refused: "n = in_nat s" if "r = None"
        using insert_shape [OF inv, of src dst] ins that by simp
      show thesis
      proof (cases r)
        case None
        then show thesis
          using process_inbound_syn [OF a, of s r n ops] syn True ins refused skip by simp
      next
        case (Some vp)
        then show thesis
          using process_inbound_syn [OF a, of s r n ops] syn True ins opened [OF a] by simp
      qed
    qed
  qed
qed

lemma process_inbound_total: "NatTable_inv (in_nat s) \<Longrightarrow> process_inbound ops raw s \<noteq> None"
  by (erule process_inbound_cases [of s ops raw]) auto

text \<open>The invariant of the stack, and the two facts every step keeps: the invariant, and each
  entry of the translation table.\<close>

definition stack_inv :: "'w Inner \<Rightarrow> bool" where
  "stack_inv s \<longleftrightarrow> nat_reach (in_nat s) \<and> length (in_pending s) \<le> PENDING_CAP"

definition nat_grows :: "'w Inner \<Rightarrow> 'w Inner \<Rightarrow> bool" where
  "nat_grows s s' \<longleftrightarrow> nat_forward (in_nat s) \<subseteq>\<^sub>m nat_forward (in_nat s')"

lemma stack_inv_nat: "stack_inv s \<Longrightarrow> NatTable_inv (in_nat s)"
  by (simp add: stack_inv_def nat_reach_inv)

lemma nat_grows_refl: "in_nat s' = in_nat s \<Longrightarrow> nat_grows s s'"
  by (simp add: nat_grows_def)

lemma nat_grows_trans: "nat_grows a b \<Longrightarrow> nat_grows b c \<Longrightarrow> nat_grows a c"
  unfolding nat_grows_def by (rule map_le_trans)

lemma process_inbound_keeps:
  assumes inv: "stack_inv s" and step: "process_inbound ops raw s = Some s'"
  shows "stack_inv s' \<and> nat_grows s s'"
proof (cases rule: process_inbound_cases [OF stack_inv_nat [OF inv], of ops raw])
  case 1
  then show ?thesis using step inv by (simp add: nat_grows_refl)
next
  case (2 src dst vp)
  then show ?thesis using step inv by (auto simp: nat_grows_refl stack_inv_def)
next
  case (3 src dst vp n)
  have "nat_reach n" using inv 3(3) by (auto simp: stack_inv_def intro: reach_insert)
  moreover have "nat_forward (in_nat s) \<subseteq>\<^sub>m nat_forward n"
    using nt.ins_frame(1) [OF stack_inv_nat [OF inv], of "(src, dst)"] 3(3)
    by (force simp: map_le_def dom_def)
  ultimately show ?thesis
    using step 3(4) inv by (auto simp: stack_inv_def nat_grows_def with_listener_pending)
qed

lemma feed_all_keeps:
  "stack_inv s \<Longrightarrow> feed_all ops raws s = Some s' \<Longrightarrow> stack_inv s' \<and> nat_grows s s'"
proof (induction raws arbitrary: s)
  case Nil
  then show ?case by (simp add: nat_grows_refl)
next
  case (Cons raw raws)
  then obtain s1 where s1: "process_inbound ops raw s = Some s1" and "feed_all ops raws s1 = Some s'"
    by (auto split: bind_splits)
  with Cons process_inbound_keeps [OF Cons.prems(1) s1] show ?case
    by (blast intro: nat_grows_trans)
qed

lemma service_socket_frame:
  assumes "service_socket ops h s = Some (closed, s')"
  shows "in_nat s' = in_nat s" and "in_pending s' = in_pending s" and "in_active s' = in_active s"
    and "in_device s' = in_device s" and "in_tun_tx s' = in_tun_tx s" and "in_tun_rx s' = in_tun_rx s"
  using assms
  by (auto simp: service_socket_def Let_def split: bind_splits if_splits option.splits)

text \<open>The socket is looked up after it has left the active map, so its port is never found.\<close>

lemma vport_of_removed [simp]: "vport_of_handle h (s\<lparr>in_active := (in_active s)(h := None)\<rparr>) = None"
  by (simp add: vport_of_handle_def)

lemma service_all_frame:
  "service_all ops hs b s = Some (b', s') \<Longrightarrow>
     in_nat s' = in_nat s \<and> in_pending s' = in_pending s \<and> in_device s' = in_device s \<and>
     in_tun_tx s' = in_tun_tx s \<and> in_tun_rx s' = in_tun_rx s"
proof (induction hs arbitrary: b s)
  case (Cons h hs)
  then obtain closed s1 where s1: "service_socket ops h s = Some (closed, s1)"
    by (auto split: bind_splits)
  note frame = service_socket_frame [OF s1]
  show ?case
    using Cons.prems s1 frame
    by (cases closed) (auto simp: Let_def split: bind_splits dest!: Cons.IH)
qed simp

lemma drain_tx_frame:
  "drain_tx pkts s = Some s' \<Longrightarrow> in_nat s' = in_nat s \<and> in_pending s' = in_pending s \<and>
     in_device s' = in_device s \<and> in_active s' = in_active s \<and> in_net s' = in_net s"
proof (induction pkts s rule: drain_tx.induct)
  case (2 pkt pkts s)
  then show ?case
    by (fastforce split: bind_splits option.splits SocketAddr.splits IpAddr.splits)
qed simp

lemma Inner_poll_keeps:
  assumes inv: "stack_inv s" and step: "Inner_poll ops ts s = Some (b, s')"
  shows "stack_inv s' \<and> nat_grows s s'"
proof -
  let ?s = "s\<lparr>in_tun_rx := []\<rparr>"
  obtain s1 where s1: "feed_all ops (in_tun_rx s) ?s = Some s1"
    using step by (auto simp: Inner_poll_def Let_def split: bind_splits)
  obtain p w d where io: "iface_poll ops ts (in_net s1) (in_device s1) = (p, w, d)"
    by (metis prod_cases3)
  let ?s2 = "s1\<lparr>in_net := w, in_device := d\<rparr>"
  obtain b' s3 where s3: "service_all ops (key_order ops (dom (in_active ?s2))) p ?s2 = Some (b', s3)"
    and s4: "drain_tx (dev_tx (in_device s3)) (s3\<lparr>in_device := (in_device s3)\<lparr>dev_tx := []\<rparr>\<rparr>) = Some s'"
    using step s1 io by (auto simp: Inner_poll_def Let_def split: bind_splits)
  have "stack_inv ?s" using inv by (simp add: stack_inv_def)
  then have "stack_inv s1 \<and> nat_grows ?s s1" using feed_all_keeps s1 by blast
  moreover have "in_nat s' = in_nat s1" and "in_pending s' = in_pending s1"
    using service_all_frame [OF s3] drain_tx_frame [OF s4] by auto
  ultimately show ?thesis by (auto simp: stack_inv_def nat_grows_def)
qed

inductive stack_step :: "'w net_ops \<Rightarrow> 'w Inner \<Rightarrow> 'w Inner \<Rightarrow> bool" for ops where
  step_feed: "stack_step ops s (UserspaceStack_feed_inbound pkt s)"
| step_poll: "UserspaceStack_poll ops ts s = Some (b, s') \<Longrightarrow> stack_step ops s s'"
| step_drain: "UserspaceStack_drain_outbound s = (r, s') \<Longrightarrow> stack_step ops s s'"
| step_accept: "UserspaceStack_accept s = (c, s') \<Longrightarrow> stack_step ops s s'"

inductive_cases stack_stepE: "stack_step ops s s'"

definition stack_steps :: "'w net_ops \<Rightarrow> 'w Inner \<Rightarrow> 'w Inner \<Rightarrow> bool" where
  "stack_steps ops = (stack_step ops)\<^sup>*\<^sup>*"

lemma stack_steps_refl: "stack_steps ops s s"
  by (simp add: stack_steps_def)

lemma stack_steps_step: "stack_step ops s t \<Longrightarrow> stack_steps ops t u \<Longrightarrow> stack_steps ops s u"
  unfolding stack_steps_def by (rule converse_rtranclp_into_rtranclp)

lemma stack_step_keeps:
  assumes inv: "stack_inv s" and step: "stack_step ops s s'"
  shows "stack_inv s' \<and> nat_grows s s'"
  using step
proof cases
  case (step_feed pkt)
  then show ?thesis
    using inv by (simp add: UserspaceStack_feed_inbound_def stack_inv_def nat_grows_refl)
next
  case (step_poll ts b)
  then show ?thesis using inv Inner_poll_keeps unfolding UserspaceStack_poll_def by blast
next
  case (step_drain r)
  then show ?thesis
    using inv by (auto simp: UserspaceStack_drain_outbound_def stack_inv_def nat_grows_refl
        split: list.splits)
next
  case (step_accept c)
  then show ?thesis
    using inv by (auto simp: UserspaceStack_accept_def stack_inv_def nat_grows_refl
        split: list.splits)
qed

lemma stack_steps_keeps:
  "stack_steps ops s s' \<Longrightarrow> stack_inv s \<Longrightarrow> stack_inv s' \<and> nat_grows s s'"
  unfolding stack_steps_def
proof (induction rule: rtranclp_induct)
  case base
  then show ?case by (simp add: nat_grows_refl)
next
  case (step t u)
  then show ?case using stack_step_keeps nat_grows_trans by blast
qed

lemma Inner_new_inv: "stack_inv (Inner_new net0 mtu)"
  by (simp add: stack_inv_def Inner_new_def reach_new)

text \<open>C21: the stack never frees a virtual port. However the stack got into its present state and
  whatever it does next (packets fed, polls that close sockets, packets drained, connections
  accepted), an entry of the translation table stays: the port of a closed connection is looked up
  only after the connection has been taken out of the map the look-up reads.\<close>

theorem nat_entries_leak:
  assumes "stack_steps ops (Inner_new net0 mtu) s" and "stack_steps ops s s'"
    and "NatTable_lookup_forward (in_nat s) src dst = Some vp"
  shows "NatTable_lookup_forward (in_nat s') src dst = Some vp
    \<and> NatTable_lookup_reverse (in_nat s') vp = Some (src, dst)"
proof -
  have "stack_inv s" using stack_steps_keeps [OF assms(1) Inner_new_inv] by blast
  then have "stack_inv s'" and "nat_grows s s'" using stack_steps_keeps [OF assms(2)] by auto
  then have "nat_forward (in_nat s') (src, dst) = Some vp"
    using assms(3) by (force simp: nat_grows_def NatTable_lookup_forward_def map_le_def dom_def)
  then show ?thesis
    using NatTable_invD(1) [OF stack_inv_nat [OF \<open>stack_inv s'\<close>]]
    by (simp add: NatTable_lookup_forward_def NatTable_lookup_reverse_def)
qed

text \<open>The stack of the example: the SYN of \<open>syn_packet\<close> arrives, its socket opens, and at time 1 it
  is closed and removed.\<close>

definition demo_open :: "demo_net Inner" where
  "demo_open =
     (Inner_new (demo0\<lparr>dn_socks := [0], dn_fresh := 2\<rparr>) 1280)
       \<lparr>in_nat := grant 10000 10001 (demo_src, demo_dst) NatTable_new,
        in_active := [0 \<mapsto> (demo_dst, \<lparr>peer_rx = 1, peer_tx = 0\<rparr>)],
        in_pending := [\<lparr>vc_local = SocketAddr (V4 IFACE_IP) 10000, vc_remote = demo_dst,
                        vc_rx = 0, vc_tx = 1\<rparr>]\<rparr>"

lemma syn_packet_addrs: "extract_tcp_addrs syn_packet = Some (Some (demo_src, demo_dst))"
  by (simp add: extract_tcp_addrs_def syn_packet_def demo_src_def demo_dst_def from_be16_def Let_def)

lemma syn_packet_syn: "is_tcp_syn syn_packet = Some True"
  by (simp add: is_tcp_syn_def syn_packet_def Let_def)

lemma demo_insert:
  "NatTable_insert demo_src demo_dst NatTable_new =
     Some (Some 10000, grant 10000 10001 (demo_src, demo_dst) NatTable_new)"
  by (simp add: NatTable_insert_def insert_loop.simps NatTable_new_def grant_def Let_def advance_def
      BASE_PORT_def PORT_RANGE_def)

lemma demo_first_poll:
  "UserspaceStack_poll demo_ops 0 (UserspaceStack_feed_inbound syn_packet (Inner_new demo0 1280)) =
     Some (False, demo_open)"
  using process_inbound_syn [OF syn_packet_addrs syn_packet_syn, of "Inner_new demo0 1280" "Some 10000"
      "grant 10000 10001 (demo_src, demo_dst) NatTable_new" demo_ops]
  by (simp add: UserspaceStack_poll_def UserspaceStack_feed_inbound_def Inner_poll_def Inner_new_def
      demo_insert with_listener_def remote_active_def create_listener_def VirtualConnection_pair_def
      demo0_def deliver_def demo_open_def TunVirtualDevice_new_def PENDING_CAP_def
      service_socket_def read_received_def write_pending.simps SOCK_BUF_def Let_def
      numeral_2_eq_2)

lemma demo_second_poll:
  "UserspaceStack_poll demo_ops 1 demo_open =
     Some (True, demo_open\<lparr>in_net := (in_net demo_open)\<lparr>dn_socks := [], dn_shut := True\<rparr>, in_active := Map.empty\<rparr>)"
  by (simp add: UserspaceStack_poll_def Inner_poll_def Inner_new_def demo0_def demo_open_def
      TunVirtualDevice_new_def service_socket_def vport_of_handle_def Let_def)

theorem nat_entries_leak_witness:
  "\<exists>s'. stack_steps demo_ops (Inner_new demo0 1280) demo_open \<and> stack_steps demo_ops demo_open s' \<and>
     in_active demo_open \<noteq> Map.empty \<and> in_active s' = Map.empty \<and>
     NatTable_lookup_forward (in_nat s') demo_src demo_dst = Some 10000"
proof (intro exI conjI)
  let ?s = "demo_open\<lparr>in_net := (in_net demo_open)\<lparr>dn_socks := [], dn_shut := True\<rparr>, in_active := Map.empty\<rparr>"
  show reach: "stack_steps demo_ops (Inner_new demo0 1280) demo_open"
    by (rule stack_steps_step [OF step_feed stack_steps_step [OF step_poll [OF demo_first_poll] stack_steps_refl]])
  show close: "stack_steps demo_ops demo_open ?s"
    by (rule stack_steps_step [OF step_poll [OF demo_second_poll] stack_steps_refl])
  show "in_active demo_open \<noteq> Map.empty" by (simp add: demo_open_def)
  have "NatTable_lookup_forward (in_nat demo_open) demo_src demo_dst = Some 10000"
    by (simp add: demo_open_def NatTable_lookup_forward_def grant_def)
  then show "NatTable_lookup_forward (in_nat ?s) demo_src demo_dst = Some 10000"
    using nat_entries_leak [OF reach close] by blast
qed simp

end
