(* ===== verification/Stack_Flows.thy ===== *)
theory Stack_Flows
  imports Userspace_Stack
begin

text \<open>
  What a flow experiences in the userspace stack of \<open>stack.rs\<close>: the first packet of a connection,
  a second connection to the same server, the translation of replies, and a full table.
\<close>

section \<open>The first packet of a connection\<close>

definition hash_keys :: "'w net_ops \<Rightarrow> bool" where
  "hash_keys ops \<longleftrightarrow> (\<forall>K. finite K \<longrightarrow> set (key_order ops K) = K \<and> distinct (key_order ops K))"

lemma remote_active_iff:
  assumes "hash_keys ops" and "finite (dom (in_active s))"
  shows "remote_active ops dst s \<longleftrightarrow> (\<exists>h peer. in_active s h = Some (dst, peer))"
proof -
  have "set (key_order ops (dom (in_active s))) = dom (in_active s)"
    using assms by (simp add: hash_keys_def)
  then have "remote_active ops dst s \<longleftrightarrow>
      (\<exists>h \<in> dom (in_active s). case in_active s h of Some (rd, _) \<Rightarrow> rd = dst | None \<Rightarrow> False)"
    by (simp add: remote_active_def list_ex_iff)
  also have "\<dots> \<longleftrightarrow> (\<exists>h e. in_active s h = Some e \<and> fst e = dst)"
    by (force simp: dom_def)
  also have "\<dots> \<longleftrightarrow> (\<exists>h peer. in_active s h = Some (dst, peer))"
    by (metis fst_conv prod.collapse)
  finally show ?thesis .
qed

lemma syn_granted:
  assumes inv: "stack_inv s" and a: "extract_tcp_addrs raw = Some (Some (src, dst))"
    and syn: "is_tcp_syn raw = Some True" and room: "card (dom (nat_reverse (in_nat s))) < 50000"
  obtains vp n where "NatTable_insert src dst (in_nat s) = Some (Some vp, n)"
    and "nat_forward n = (nat_forward (in_nat s))((src, dst) \<mapsto> vp)"
    and "process_inbound ops raw s =
       Some (deliver raw vp (with_listener ops vp dst (s\<lparr>in_nat := n\<rparr>)))"
proof -
  obtain r n where ins: "NatTable_insert src dst (in_nat s) = Some (r, n)"
    and r: "case r of
        Some vp \<Rightarrow> nat_forward n = (nat_forward (in_nat s))((src, dst) \<mapsto> vp) \<and> nat_reverse n vp = Some (src, dst)
      | None \<Rightarrow> n = in_nat s \<and> nat_forward (in_nat s) (src, dst) = None
          \<and> card (dom (nat_reverse (in_nat s))) = 50000"
    using insert_shape [OF stack_inv_nat [OF inv], of src dst] by blast
  show thesis
  proof (cases r)
    case None
    then show ?thesis using r room by simp
  next
    case (Some vp)
    then show ?thesis using that ins r process_inbound_syn [OF a syn ins, of ops] by simp
  qed
qed

lemma deliver_addrs:
  assumes "valid_ipv4 raw" and "length raw \<le> 65535" and "extract_tcp_addrs raw = Some (Some (src, dst))"
  shows "\<exists>pkt. dev_rx (in_device (deliver raw vp s)) = dev_rx (in_device s) @ [pkt] \<and>
     extract_tcp_addrs pkt = Some (Some (src, SocketAddr (sa_ip dst) vp)) \<and> tcp_accepts pkt"
proof -
  let ?p = "put16 (ihl_of raw + 2) vp raw"
  have t: "tcp4 raw" using extract_Some_tcp4 [OF assms(3)] .
  have ihl: "20 \<le> ihl_of raw" and len: "ihl_of raw + 20 \<le> length raw"
    using valid_ipv4_ihl [OF assms(1)] t by (auto simp: tcp4_def)
  have "tcp4 (refresh ?p)" by (rule tcp4_refresh) (use t ihl in \<open>simp add: tcp4_def\<close>)
  moreover have "from_be16 (?p ! (ihl_of raw + 2)) (?p ! (ihl_of raw + 3)) = vp"
    using len from_be16_to_be16 [of vp] by (simp add: put16_nth)
  ultimately have "extract_tcp_addrs (refresh ?p) = Some (Some (src, SocketAddr (sa_ip dst) vp))"
    using t ihl assms(3) by (auto simp: extract_tcp_addrs_eq refresh_other)
  moreover have "tcp_accepts (refresh ?p)" using refresh_accepted(1) [of ?p] ihl len assms(2) by simp
  ultimately show ?thesis by (simp add: deliver_def)
qed

lemma syn_listens:
  assumes "stack_inv s" and "hash_keys ops" and "finite (dom (in_active s))"
    and "extract_tcp_addrs raw = Some (Some (src, dst))" and "is_tcp_syn raw = Some True"
    and "card (dom (nat_reverse (in_nat s))) < 50000"
    and "\<forall>h peer. in_active s h \<noteq> Some (dst, peer)"
    and "\<forall>vp. sock_open ops SOCK_BUF IFACE_IP vp (in_net s) \<noteq> None"
  obtains t vp h w conn peer where "process_inbound ops raw s = Some (deliver raw vp t)"
    and "nat_forward (in_nat t) (src, dst) = Some vp"
    and "sock_open ops SOCK_BUF IFACE_IP vp (in_net s) = Some (h, w)"
    and "in_active t = (in_active s)(h \<mapsto> (dst, peer))"
    and "vc_local conn = SocketAddr (V4 IFACE_IP) vp" and "vc_remote conn = dst"
    and "in_pending t = (if length (in_pending s) < 128 then in_pending s @ [conn] else in_pending s)"
    and "in_device t = in_device s"
proof -
  obtain vp n where ins: "nat_forward n = (nat_forward (in_nat s))((src, dst) \<mapsto> vp)"
    and step: "process_inbound ops raw s =
       Some (deliver raw vp (with_listener ops vp dst (s\<lparr>in_nat := n\<rparr>)))"
    using syn_granted [OF assms(1,4,5,6)] by metis
  obtain h w where sock: "sock_open ops SOCK_BUF IFACE_IP vp (in_net s) = Some (h, w)"
    using assms(8) by (metis option.exhaust surj_pair)
  let ?t = "create_listener ops vp dst (s\<lparr>in_nat := n\<rparr>)"
  obtain conn peer w' where pair:
    "VirtualConnection_pair ops (SocketAddr (V4 IFACE_IP) vp) dst w = ((conn, peer), w')"
    by (metis surj_pair)
  then have conn: "vc_local conn = SocketAddr (V4 IFACE_IP) vp" "vc_remote conn = dst"
    by (auto simp: VirtualConnection_pair_def Let_def split: prod.splits)
  have t: "in_active ?t = (in_active s)(h \<mapsto> (dst, peer))" "in_nat ?t = n" "in_device ?t = in_device s"
    "in_pending ?t = (if length (in_pending s) < 128 then in_pending s @ [conn] else in_pending s)"
    using sock pair by (simp_all add: create_listener_def PENDING_CAP_def Let_def)
  have "\<not> remote_active ops dst (s\<lparr>in_nat := n\<rparr>)"
    using remote_active_iff [OF assms(2), of "s\<lparr>in_nat := n\<rparr>" dst] assms(3,7) by simp
  then have "process_inbound ops raw s = Some (deliver raw vp ?t)"
    using step by (simp add: with_listener_def)
  then show thesis by (rule that) (use t conn ins sock in simp_all)
qed

text \<open>C7: the SYN that opens a connection to a server no other connection is using. It is given a
  virtual port; a socket is opened on the interface's own address at that port; a connection whose
  remote is the server is queued for the engine unless 128 are waiting already; and the packet
  handed to smoltcp is the SYN readdressed to the port, its destination still being the address of
  the server and not the one the socket was opened on.\<close>

theorem first_syn_opens:
  assumes "stack_inv s" and "hash_keys ops" and "finite (dom (in_active s))"
    and "valid_ipv4 raw" and "length raw \<le> 65535"
    and "extract_tcp_addrs raw = Some (Some (src, dst))" and "is_tcp_syn raw = Some True"
    and "card (dom (nat_reverse (in_nat s))) < 50000"
    and "\<forall>h peer. in_active s h \<noteq> Some (dst, peer)"
    and "\<forall>vp. sock_open ops SOCK_BUF IFACE_IP vp (in_net s) \<noteq> None"
  shows "\<exists>s' vp h w pkt. process_inbound ops raw s = Some s' \<and>
     NatTable_lookup_forward (in_nat s') src dst = Some vp \<and>
     sock_open ops SOCK_BUF IFACE_IP vp (in_net s) = Some (h, w) \<and>
     (\<exists>peer. in_active s' = (in_active s)(h \<mapsto> (dst, peer))) \<and>
     (\<exists>conn. vc_local conn = SocketAddr (V4 IFACE_IP) vp \<and> vc_remote conn = dst \<and>
        in_pending s' = (if length (in_pending s) < 128 then in_pending s @ [conn] else in_pending s)) \<and>
     dev_rx (in_device s') = dev_rx (in_device s) @ [pkt] \<and>
     extract_tcp_addrs pkt = Some (Some (src, SocketAddr (sa_ip dst) vp))"
proof -
  obtain t vp h w conn peer where step: "process_inbound ops raw s = Some (deliver raw vp t)"
    and t: "nat_forward (in_nat t) (src, dst) = Some vp" "sock_open ops SOCK_BUF IFACE_IP vp (in_net s) = Some (h, w)"
      "in_active t = (in_active s)(h \<mapsto> (dst, peer))" "vc_local conn = SocketAddr (V4 IFACE_IP) vp" "vc_remote conn = dst"
      "in_pending t = (if length (in_pending s) < 128 then in_pending s @ [conn] else in_pending s)"
      "in_device t = in_device s"
    by (rule syn_listens [OF assms(1-3,6-10)])
  moreover obtain pkt where "dev_rx (in_device (deliver raw vp t)) = dev_rx (in_device s) @ [pkt]"
    and "extract_tcp_addrs pkt = Some (Some (src, SocketAddr (sa_ip dst) vp))"
    using deliver_addrs [OF assms(4,5,6), of vp t] t(7) by auto
  ultimately show ?thesis by (force simp: NatTable_lookup_forward_def)
qed

theorem first_syn_opens_witness:
  "\<exists>s' vp. process_inbound demo_ops syn_packet (Inner_new demo0 1280) = Some s' \<and>
     NatTable_lookup_forward (in_nat s') demo_src demo_dst = Some vp \<and> length (in_pending s') = 1"
proof -
  let ?s = "Inner_new demo0 1280"
  have "hash_keys demo_ops" by (simp add: hash_keys_def)
  moreover have "valid_ipv4 syn_packet" and "length syn_packet \<le> 65535"
    by (simp_all add: valid_ipv4_def syn_packet_def)
  ultimately show ?thesis
    using first_syn_opens [of ?s demo_ops syn_packet demo_src demo_dst]
      Inner_new_inv syn_packet_addrs syn_packet_syn
    by (fastforce simp: Inner_new_def NatTable_new_def Let_def)
qed

section \<open>A second connection to the same server\<close>


lemma demo_open_inv: "stack_inv demo_open"
  using reach_insert [OF reach_new demo_insert]
  by (simp add: stack_inv_def demo_open_def PENDING_CAP_def)

text \<open>The same application opens a second connection to the server of \<open>demo_open\<close>, from port 54322.\<close>

definition second_syn :: bytes where
  "second_syn = syn_packet[21 := 0x32]"


section \<open>Replies carry the server's address\<close>

lemma outbound_src_port_tcp4:
  "tcp4 p \<Longrightarrow> outbound_src_port p = Some (Some (from_be16 (p ! ihl_of p) (p ! (ihl_of p + 1))))"
  by (auto simp: outbound_src_port_def tcp4_def ihl_of_def Let_def)

text \<open>C6: transparency of the translation. When an application at \<open>src\<close> opened a connection to the
  IPv4 server \<open>ip:port\<close> and holds a virtual port, a TCP packet smoltcp sends from that virtual port
  to \<open>src\<close> leaves for the TUN device with the server as its source, still addressed to \<open>src\<close>, and
  with valid checksums.\<close>

theorem reply_translated:
  assumes "stack_inv s"
    and "NatTable_lookup_forward (in_nat s) src (SocketAddr (V4 ip) port) = Some vp"
    and "valid_ipv4 pkt" and "length pkt \<le> 65535"
    and "extract_tcp_addrs pkt = Some (Some (SocketAddr gateway vp, src))"
  shows "\<exists>pkt'. drain_tx [pkt] s = Some (s\<lparr>in_tun_tx := in_tun_tx s @ [pkt']\<rparr>) \<and>
     extract_tcp_addrs pkt' = Some (Some (SocketAddr (V4 ip) port, src)) \<and>
     tcp_accepts pkt' \<and> Ipv4View_verify_checksum \<lparr>v4_bytes = pkt'\<rparr> = Some (Inr ())"
proof -
  let ?ihl = "ihl_of pkt"
  let ?p = "put16 ?ihl port (put_src pkt ip)"
  have t: "tcp4 pkt" using extract_Some_tcp4 [OF assms(5)] .
  have ihl: "20 \<le> ?ihl" and len: "?ihl + 20 \<le> length pkt" "20 \<le> length pkt"
    using valid_ipv4_ihl [OF assms(3)] t by (auto simp: tcp4_def)
  have hd: "ihl_of ?p = ?ihl" using ihl len by simp
  have "nat_reverse (in_nat s) vp = Some (src, SocketAddr (V4 ip) port)"
    using NatTable_invD(1) [OF stack_inv_nat [OF assms(1)]] assms(2)
    by (simp add: NatTable_lookup_forward_def)
  moreover have "outbound_src_port pkt = Some (Some vp)"
    using assms(5) t outbound_src_port_tcp4 [OF t] by (simp add: extract_tcp_addrs_eq)
  moreover have "rewrite_outbound pkt ip port = Some (True, refresh ?p)"
    using ihl t by (simp add: rewrite_outbound_eq)
  ultimately have "drain_tx [pkt] s = Some (s\<lparr>in_tun_tx := in_tun_tx s @ [refresh ?p]\<rparr>)"
    by (simp add: NatTable_lookup_reverse_def)
  moreover have "tcp4 (refresh ?p)"
    by (rule tcp4_refresh) (use t ihl len hd in \<open>simp add: tcp4_def put_src_nth\<close>)
  moreover have "from_be16 (?p ! ?ihl) (?p ! (?ihl + 1)) = port"
    using len from_be16_to_be16 [of port] by (simp add: put16_nth)
  moreover have "Ipv4Addr (?p ! 12) (?p ! 13) (?p ! 14) (?p ! 15) = ip"
    using ihl len by (cases ip) (simp add: put_src_nth)
  ultimately show ?thesis
    using assms(5) t ihl len hd refresh_accepted [of ?p] assms(4)
    by (auto simp: extract_tcp_addrs_eq refresh_other put_src_nth)
qed

text \<open>A SYN-ACK smoltcp sends from port 10000 for the connection of \<open>demo_open\<close>.\<close>

definition syn_ack :: bytes where
  "syn_ack =
     [0x45, 0, 0, 40, 0, 0, 0, 0, 64, 6, 0, 0, 10, 0, 2, 2, 10, 42, 0, 2,
      0x27, 0x10, 0xD4, 0x31, 0, 0, 0, 0, 0, 0, 0, 0, 0x50, 0x12, 0, 0, 0, 0, 0, 0]"

theorem reply_translated_witness:
  "\<exists>s' pkt'. drain_tx [syn_ack] demo_open = Some s' \<and> in_tun_tx s' = [pkt'] \<and>
     extract_tcp_addrs pkt' = Some (Some (demo_dst, demo_src))"
proof -
  have "extract_tcp_addrs syn_ack = Some (Some (SocketAddr (V4 IFACE_IP) 10000, demo_src))"
    by (simp add: extract_tcp_addrs_def syn_ack_def demo_src_def IFACE_IP_def from_be16_def Let_def)
  moreover have "valid_ipv4 syn_ack" and "length syn_ack \<le> 65535"
    by (simp_all add: valid_ipv4_def syn_ack_def)
  moreover have "NatTable_lookup_forward (in_nat demo_open) demo_src demo_dst = Some 10000"
    by (simp add: demo_open_def NatTable_lookup_forward_def grant_def)
  ultimately show ?thesis
    using reply_translated [OF demo_open_inv, of demo_src "Ipv4Addr 8 8 8 8" 443 10000 syn_ack "V4 IFACE_IP"]
    unfolding demo_dst_def
    by (auto simp: demo_open_def Inner_new_def)
qed

section \<open>A full table\<close>

text \<open>Tables with any number of entries up to the 50000 of the range can be reached.\<close>

definition nth_flow :: "nat \<Rightarrow> flow" where
  "nth_flow i = (SocketAddr (V4 (Ipv4Addr 10 42 0 2)) (word_of_nat i), demo_dst)"

lemma unat_of_nat_16: "i < 65536 \<Longrightarrow> unat (word_of_nat i :: u16) = i"
  by (subst unsigned_of_nat) (simp add: take_bit_nat_eq_self)

lemma nth_flow_inj: "i < 65536 \<Longrightarrow> j < 65536 \<Longrightarrow> nth_flow i = nth_flow j \<longleftrightarrow> i = j"
  unfolding nth_flow_def by (metis Pair_inject SocketAddr.inject unat_of_nat_16)

lemma card_forward_reverse:
  assumes inv: "NatTable_inv t"
  shows "card (dom (nat_forward t)) = card (dom (nat_reverse t))"
proof -
  let ?f = "\<lambda>k. the (nat_forward t k)"
  have "inj_on ?f (dom (nat_forward t))"
  proof (rule inj_onI)
    fix k k' assume "k \<in> dom (nat_forward t)" "k' \<in> dom (nat_forward t)" and eq: "?f k = ?f k'"
    then obtain p p' where "nat_forward t k = Some p" "nat_forward t k' = Some p'" by blast
    moreover from this eq have "p = p'" by simp
    ultimately have "nat_reverse t p = Some k" "nat_reverse t p = Some k'"
      using NatTable_invD(1) [OF inv] by blast+
    then show "k = k'" by simp
  qed
  moreover have "?f ` dom (nat_forward t) = dom (nat_reverse t)"
  proof (intro set_eqI iffI)
    fix p assume "p \<in> ?f ` dom (nat_forward t)"
    then obtain k where "nat_forward t k = Some p" by force
    then have "nat_reverse t p = Some k" using NatTable_invD(1) [OF inv] by blast
    then show "p \<in> dom (nat_reverse t)" by blast
  next
    fix p assume "p \<in> dom (nat_reverse t)"
    then obtain k where "nat_reverse t p = Some k" by blast
    then have "nat_forward t k = Some p" using NatTable_invD(1) [OF inv] by blast
    then show "p \<in> ?f ` dom (nat_forward t)" by force
  qed
  ultimately show ?thesis by (metis card_image)
qed

lemma nat_fill:
  "n \<le> 50000 \<Longrightarrow> \<exists>t. nat_reach t \<and> dom (nat_forward t) = nth_flow ` {..<n}"
proof (induction n)
  case 0
  have "dom (nat_forward NatTable_new) = {}" by (simp add: NatTable_new_def)
  then show ?case using reach_new by force
next
  case (Suc n)
  then obtain t where t: "nat_reach t" and dom_t: "dom (nat_forward t) = nth_flow ` {..<n}" by auto
  have inv: "NatTable_inv t" using t by (rule nat_reach_inv)
  have "inj_on nth_flow {..<n}" using Suc.prems by (auto simp: inj_on_def nth_flow_inj)
  then have "card (dom (nat_reverse t)) = n"
    using dom_t card_forward_reverse [OF inv] by (simp add: card_image)
  moreover obtain src dst where k: "nth_flow n = (src, dst)" by (metis surj_pair)
  moreover obtain r t' where ins: "NatTable_insert src dst t = Some (r, t')"
    and r: "case r of
        Some vp \<Rightarrow> nat_forward t' = (nat_forward t)((src, dst) \<mapsto> vp) \<and> nat_reverse t' vp = Some (src, dst)
      | None \<Rightarrow> t' = t \<and> nat_forward t (src, dst) = None \<and> card (dom (nat_reverse t)) = 50000"
    using insert_shape [OF inv, of src dst] by blast
  ultimately obtain vp where "nat_forward t' = (nat_forward t)(nth_flow n \<mapsto> vp)"
    using Suc.prems by (cases r) simp_all
  then have "dom (nat_forward t') = nth_flow ` {..<Suc n}" using dom_t by (simp add: lessThan_Suc)
  then show ?case using reach_insert [OF t ins] by blast
qed

text \<open>C22: once all 50000 virtual ports have been handed out, they stay so: at any later time, after
  any packets, polls, drained packets and accepted connections, a TCP packet of a flow that holds no
  port is dropped without any change to the stack.\<close>

theorem full_table_is_final:
  assumes "stack_inv s" and "card (dom (nat_reverse (in_nat s))) = 50000"
    and "stack_steps ops s s'"
    and "extract_tcp_addrs raw = Some (Some (src, dst))"
    and "NatTable_lookup_forward (in_nat s') src dst = None"
  shows "process_inbound ops raw s' = Some s'"
proof -
  have inv': "stack_inv s'" and grows: "nat_grows s s'"
    using stack_steps_keeps [OF assms(3,1)] by auto
  note i = stack_inv_nat [OF assms(1)] and i' = stack_inv_nat [OF inv']
  have "nat_reverse (in_nat s') p \<noteq> None" if "port_ok p" for p
  proof -
    have full: "\<forall>p. port_ok p \<longrightarrow> nat_reverse (in_nat s) p \<noteq> None"
      using full_iff_card [OF i] assms(2) by blast
    have "nat_reverse (in_nat s) p \<noteq> None" using full that by blast
    then obtain k where "nat_reverse (in_nat s) p = Some k" by blast
    then have "nat_forward (in_nat s) k = Some p" using NatTable_invD(1) [OF i] by blast
    then have "nat_forward (in_nat s') k = Some p"
      using grows by (metis domI map_le_def nat_grows_def)
    then show ?thesis using NatTable_invD(1) [OF i'] by simp
  qed
  then have "NatTable_insert src dst (in_nat s') = Some (None, in_nat s')"
    using insert_cases [OF i' assms(5) [unfolded NatTable_lookup_forward_def]] by blast
  moreover have "is_tcp_syn raw \<noteq> None"
    using extract_Some_tcp4 [OF assms(4)] by (auto simp: tcp4_def is_tcp_syn_def Let_def)
  then obtain syn where "is_tcp_syn raw = Some syn" by blast
  ultimately show ?thesis
    using process_inbound_syn [OF assms(4), of s' None "in_nat s'" ops]
      process_inbound_mid_flow [OF assms(4), of ops s'] assms(5)
    by (cases syn) (simp_all add: NatTable_lookup_forward_def)
qed

theorem full_table_is_final_witness:
  "\<exists>s. stack_inv s \<and> card (dom (nat_reverse (in_nat s))) = 50000 \<and>
     process_inbound demo_ops syn_packet s = Some s"
proof -
  obtain t where t: "nat_reach t" and dom_t: "dom (nat_forward t) = nth_flow ` {..<50000}"
    using nat_fill [of 50000] by auto
  let ?s = "(Inner_new demo0 1280)\<lparr>in_nat := t\<rparr>"
  have inv: "stack_inv ?s" using t by (simp add: stack_inv_def Inner_new_def)
  have "inj_on nth_flow {..<50000}" by (auto simp: inj_on_def nth_flow_inj)
  then have full: "card (dom (nat_reverse t)) = 50000"
    using dom_t card_forward_reverse [OF nat_reach_inv [OF t]] by (simp add: card_image)
  have "(demo_src, demo_dst) = nth_flow 54321" by (simp add: nth_flow_def demo_src_def)
  then have "(demo_src, demo_dst) \<notin> dom (nat_forward t)" using dom_t by (auto simp: nth_flow_inj)
  then have "NatTable_lookup_forward (in_nat ?s) demo_src demo_dst = None"
    by (simp add: NatTable_lookup_forward_def domIff)
  with full_table_is_final [OF inv _ stack_steps_refl syn_packet_addrs, of demo_ops] full inv
  show ?thesis by auto
qed

end
