(* ===== verification/Stack_Poll.thy ===== *)
theory Stack_Poll
  imports Stack_Flows
begin

text \<open>
  The poll cycle of \<open>stack.rs\<close> returns without a panic, and what it does with the bytes of a
  connection, given what smoltcp and tokio document: \<open>net_model\<close> lists it. \<open>live\<close> is the set of
  handles in the socket set, \<open>queue\<close> the chunks waiting in a channel.
\<close>

section \<open>What smoltcp and tokio promise\<close>

definition sockets_model :: "'w net_ops \<Rightarrow> ('w \<Rightarrow> nat set) \<Rightarrow> bool" where
  "sockets_model ops live \<longleftrightarrow>
     (\<forall>w. finite (live w)) \<and>
     (\<forall>n ip port w h w'. sock_open ops n ip port w = Some (h, w') \<longrightarrow> h \<notin> live w \<and> live w' = insert h (live w)) \<and>
     (\<forall>h w. h \<in> live w \<longrightarrow> (\<exists>w'. sock_remove ops h w = Some w' \<and> live w' = live w - {h})) \<and>
     (\<forall>h w. h \<in> live w \<longrightarrow> sock_state ops w h \<noteq> None) \<and>
     (\<forall>h w data w'. sock_recv ops h w = Some (data, w') \<longrightarrow> live w' = live w) \<and>
     (\<forall>h data w. live (sock_send_slice ops h data w) = live w) \<and>
     (\<forall>h w. live (sock_close ops h w) = live w) \<and>
     (\<forall>ts w d b w' d'. iface_poll ops ts w d = (b, w', d') \<longrightarrow> live w' = live w)"

definition channels_model :: "'w net_ops \<Rightarrow> ('w \<Rightarrow> nat set) \<Rightarrow> ('w \<Rightarrow> nat \<Rightarrow> bytes list) \<Rightarrow> bool" where
  "channels_model ops live queue \<longleftrightarrow>
     (\<forall>n w. live (snd (chan_new ops n w)) = live w) \<and>
     (\<forall>ch data w. live (chan_try_send ops ch data w) = live w) \<and>
     (\<forall>ch w data w'. chan_try_recv ops ch w = Some (data, w') \<longrightarrow>
        live w' = live w \<and> queue w ch = data # queue w' ch) \<and>
     (\<forall>a b w. live (chan_drop ops a b w) = live w) \<and>
     (\<forall>h data w ch. queue (sock_send_slice ops h data w) ch = queue w ch)"

text \<open>The interface appends well-formed IPv4 packets to the device's transmit queue.\<close>

definition emits_ipv4 :: "'w net_ops \<Rightarrow> bool" where
  "emits_ipv4 ops \<longleftrightarrow>
     (\<forall>ts w d b w' d'. iface_poll ops ts w d = (b, w', d') \<longrightarrow>
        (\<exists>pkts. dev_tx d' = dev_tx d @ pkts \<and> (\<forall>p \<in> set pkts. valid_ipv4 p)))"

definition net_model :: "'w net_ops \<Rightarrow> ('w \<Rightarrow> nat set) \<Rightarrow> ('w \<Rightarrow> nat \<Rightarrow> bytes list) \<Rightarrow> bool" where
  "net_model ops live queue \<longleftrightarrow>
     sockets_model ops live \<and> channels_model ops live queue \<and> emits_ipv4 ops \<and> hash_keys ops"

lemma net_modelD:
  assumes "net_model ops live queue"
  shows "finite (live w)"
    and "sock_open ops n ip port w = Some (h, w1) \<Longrightarrow> h \<notin> live w \<and> live w1 = insert h (live w)"
    and "h \<in> live w \<Longrightarrow> \<exists>w1. sock_remove ops h w = Some w1 \<and> live w1 = live w - {h}"
    and "h \<in> live w \<Longrightarrow> sock_state ops w h \<noteq> None"
    and "sock_recv ops h w = Some (data, w1) \<Longrightarrow> live w1 = live w"
    and "live (sock_send_slice ops h data w) = live w"
    and "live (sock_close ops h w) = live w"
    and "iface_poll ops ts w d = (b, w1, d1) \<Longrightarrow> live w1 = live w"
    and "live (snd (chan_new ops n w)) = live w"
    and "live (chan_try_send ops ch data w) = live w"
    and "chan_try_recv ops ch w = Some (data, w1) \<Longrightarrow> live w1 = live w \<and> queue w ch = data # queue w1 ch"
    and "live (chan_drop ops a c w) = live w"
    and "queue (sock_send_slice ops h data w) ch = queue w ch"
    and "hash_keys ops"
proof -
  note m = assms [unfolded net_model_def sockets_model_def channels_model_def]
  have "\<forall>w. finite (live w)"
    using m by - (elim conjE, assumption)
  then show "finite (live w)" by blast
  have "\<forall>n ip port w h w'. sock_open ops n ip port w = Some (h, w') \<longrightarrow> h \<notin> live w \<and> live w' = insert h (live w)"
    using m by - (elim conjE, assumption)
  then show "sock_open ops n ip port w = Some (h, w1) \<Longrightarrow> h \<notin> live w \<and> live w1 = insert h (live w)" by blast
  have "\<forall>h w. h \<in> live w \<longrightarrow> (\<exists>w'. sock_remove ops h w = Some w' \<and> live w' = live w - {h})"
    using m by - (elim conjE, assumption)
  then show "h \<in> live w \<Longrightarrow> \<exists>w1. sock_remove ops h w = Some w1 \<and> live w1 = live w - {h}" by blast
  have "\<forall>h w. h \<in> live w \<longrightarrow> sock_state ops w h \<noteq> None"
    using m by - (elim conjE, assumption)
  then show "h \<in> live w \<Longrightarrow> sock_state ops w h \<noteq> None" by blast
  have "\<forall>h w data w'. sock_recv ops h w = Some (data, w') \<longrightarrow> live w' = live w"
    using m by - (elim conjE, assumption)
  then show "sock_recv ops h w = Some (data, w1) \<Longrightarrow> live w1 = live w" by blast
  have "\<forall>h data w. live (sock_send_slice ops h data w) = live w"
    using m by - (elim conjE, assumption)
  then show "live (sock_send_slice ops h data w) = live w" by blast
  have "\<forall>h w. live (sock_close ops h w) = live w"
    using m by - (elim conjE, assumption)
  then show "live (sock_close ops h w) = live w" by blast
  have "\<forall>ts w d b w' d'. iface_poll ops ts w d = (b, w', d') \<longrightarrow> live w' = live w"
    using m by - (elim conjE, assumption)
  then show "iface_poll ops ts w d = (b, w1, d1) \<Longrightarrow> live w1 = live w" by blast
  have "\<forall>n w. live (snd (chan_new ops n w)) = live w"
    using m by - (elim conjE, assumption)
  then show "live (snd (chan_new ops n w)) = live w" by blast
  have "\<forall>ch data w. live (chan_try_send ops ch data w) = live w"
    using m by - (elim conjE, assumption)
  then show "live (chan_try_send ops ch data w) = live w" by blast
  have "\<forall>ch w data w'. chan_try_recv ops ch w = Some (data, w') \<longrightarrow>
        live w' = live w \<and> queue w ch = data # queue w' ch"
    using m by - (elim conjE, assumption)
  then show "chan_try_recv ops ch w = Some (data, w1) \<Longrightarrow> live w1 = live w \<and> queue w ch = data # queue w1 ch" by blast
  have "\<forall>a b w. live (chan_drop ops a b w) = live w"
    using m by - (elim conjE, assumption)
  then show "live (chan_drop ops a c w) = live w" by blast
  have "\<forall>h data w ch. queue (sock_send_slice ops h data w) ch = queue w ch"
    using m by - (elim conjE, assumption)
  then show "queue (sock_send_slice ops h data w) ch = queue w ch" by blast
  show "hash_keys ops" using m by - (elim conjE, assumption)
qed

lemma emits_ipv4D:
  "net_model ops live queue \<Longrightarrow> iface_poll ops ts w d = (b, w1, d1) \<Longrightarrow>
     \<exists>pkts. dev_tx d1 = dev_tx d @ pkts \<and> (\<forall>p \<in> set pkts. valid_ipv4 p)"
  unfolding net_model_def emits_ipv4_def by blast

section \<open>Servicing one socket\<close>

lemma write_pending_returns:
  assumes m: "net_model ops live queue"
  shows "\<exists>w'. write_pending ops h ch w = Some w' \<and> live w' = live w"
proof (induction "length (queue w ch)" arbitrary: w rule: less_induct)
  case less
  show ?case
  proof (cases "sock_can_send ops w h")
    case False
    then show ?thesis by (simp add: write_pending.simps)
  next
    case True
    show ?thesis
    proof (cases "chan_try_recv ops ch w")
      case None
      with True show ?thesis by (simp add: write_pending.simps)
    next
      case (Some r)
      obtain data w1 where r: "r = (data, w1)" by (cases r)
      note recv = net_modelD(11) [OF m Some [unfolded r]]
      let ?w = "sock_send_slice ops h data w1"
      have "length (queue ?w ch) < length (queue w ch)"
        using recv net_modelD(13) [OF m] by simp
      then obtain w' where "write_pending ops h ch ?w = Some w'" and "live w' = live ?w"
        using less.hyps by blast
      with True Some r recv show ?thesis
        using net_modelD(6) [OF m] by (simp add: write_pending.simps [of _ _ _ w])
    qed
  qed
qed

lemma read_received_live:
  assumes m: "net_model ops live queue"
  shows "live (read_received ops h ch w) = live w"
proof (cases "sock_recv ops h w")
  case None
  then show ?thesis by (simp add: read_received_def)
next
  case (Some r)
  obtain data w1 where r: "r = (data, w1)" by (cases r)
  have "live w1 = live w" using net_modelD(5) [OF m] Some r by blast
  then show ?thesis using Some r net_modelD(10) [OF m, of ch data w1] by (simp add: read_received_def)
qed

lemma service_socket_returns:
  assumes m: "net_model ops live queue" and h: "h \<in> live (in_net s)"
  shows "\<exists>closed s'. service_socket ops h s = Some (closed, s') \<and> live (in_net s') = live (in_net s)"
proof -
  obtain st where st: "sock_state ops (in_net s) h = Some st" using net_modelD(4) [OF m h] by blast
  show ?thesis
  proof (cases "in_active s h")
    case None
    with st have "service_socket ops h s = Some (True, s)" by (simp add: service_socket_def)
    then show ?thesis by blast
  next
    case (Some e)
    obtain rd peer where e: "e = (rd, peer)" by (cases e)
    let ?r = "read_received ops h (peer_tx peer) (in_net s)"
    obtain w where w: "write_pending ops h (peer_rx peer) ?r = Some w" and "live w = live ?r"
      using write_pending_returns [OF m] by blast
    then have lw: "live w = live (in_net s)" using read_received_live [OF m] by metis
    let ?w = "if sock_can_send ops w h \<and> chan_is_closed ops w (peer_rx peer) then sock_close ops h w else w"
    have "live ?w = live (in_net s)" using lw net_modelD(7) [OF m, of h w] by (simp split: if_split)
    moreover have "service_socket ops h s =
        Some (if st = Closed \<or> st = TimeWait then (True, s) else (False, s\<lparr>in_net := ?w\<rparr>))"
      using Some e st w by (simp add: service_socket_def Let_def)
    ultimately show ?thesis by (simp split: if_split) blast
  qed
qed

section \<open>The whole cycle returns\<close>

definition poll_ok :: "('w \<Rightarrow> nat set) \<Rightarrow> 'w Inner \<Rightarrow> bool" where
  "poll_ok live s \<longleftrightarrow> stack_inv s \<and> dom (in_active s) = live (in_net s) \<and> dev_tx (in_device s) = []"

lemma VirtualConnection_pair_live:
  assumes m: "net_model ops live queue"
    and "VirtualConnection_pair ops l r w = ((conn, peer), w')"
  shows "live w' = live w"
proof -
  obtain a w1 where a: "chan_new ops 256 w = (a, w1)" by (cases "chan_new ops 256 w")
  obtain b w2 where b: "chan_new ops 256 w1 = (b, w2)" by (cases "chan_new ops 256 w1")
  have "w' = w2" using assms(2) a b by (simp add: VirtualConnection_pair_def)
  then show ?thesis using net_modelD(9) [OF m, of 256 w] net_modelD(9) [OF m, of 256 w1] a b by simp
qed

lemma create_listener_live:
  assumes m: "net_model ops live queue" and "dom (in_active s) = live (in_net s)"
  shows "dom (in_active (create_listener ops vp rd s)) = live (in_net (create_listener ops vp rd s))"
proof (cases "sock_open ops SOCK_BUF IFACE_IP vp (in_net s)")
  case None
  with assms show ?thesis by (simp add: create_listener_def)
next
  case (Some hw)
  obtain h w where hw: "hw = (h, w)" by (cases hw)
  obtain conn peer w' where pair:
    "VirtualConnection_pair ops (SocketAddr (V4 IFACE_IP) vp) rd w = ((conn, peer), w')"
    by (metis surj_pair)
  have "live w = insert h (live (in_net s))" using net_modelD(2) [OF m] Some hw by blast
  then have "live w' = insert h (live (in_net s))" using VirtualConnection_pair_live [OF m pair] by simp
  then show ?thesis
    using assms(2) Some hw pair net_modelD(12) [OF m, of "vc_rx conn" "vc_tx conn" w']
    by (simp add: create_listener_def Let_def)
qed

lemma process_inbound_live:
  assumes m: "net_model ops live queue" and ok: "poll_ok live s"
  shows "\<exists>s'. process_inbound ops raw s = Some s' \<and> poll_ok live s'"
proof -
  have inv: "stack_inv s" using ok by (simp add: poll_ok_def)
  obtain s' where s': "process_inbound ops raw s = Some s'"
    using process_inbound_total [OF stack_inv_nat [OF inv]] by blast
  have "dom (in_active s') = live (in_net s') \<and> dev_tx (in_device s') = []"
  proof (cases rule: process_inbound_cases [OF stack_inv_nat [OF inv], of ops raw])
    case 1
    then show ?thesis using s' ok by (simp add: poll_ok_def)
  next
    case (2 src dst vp)
    then show ?thesis using s' ok by (auto simp: poll_ok_def deliver_def)
  next
    case (3 src dst vp n)
    then show ?thesis
      using s' ok create_listener_live [OF m, of "s\<lparr>in_nat := n\<rparr>" vp dst]
      by (auto simp: poll_ok_def with_listener_def) (simp_all add: deliver_def)
  qed
  then show ?thesis
    using s' process_inbound_keeps [OF inv s'] by (simp add: poll_ok_def)
qed

lemma feed_all_live:
  assumes m: "net_model ops live queue"
  shows "poll_ok live s \<Longrightarrow> \<exists>s'. feed_all ops raws s = Some s' \<and> poll_ok live s'"
proof (induction raws arbitrary: s)
  case (Cons raw raws)
  obtain s1 where "process_inbound ops raw s = Some s1" and "poll_ok live s1"
    using process_inbound_live [OF m Cons.prems] by blast
  with Cons.IH show ?case by simp
qed simp

lemma service_all_live:
  assumes m: "net_model ops live queue"
  shows "distinct hs \<Longrightarrow> set hs \<subseteq> dom (in_active s) \<Longrightarrow> dom (in_active s) = live (in_net s) \<Longrightarrow>
     \<exists>b' s'. service_all ops hs b s = Some (b', s') \<and> dom (in_active s') = live (in_net s')"
proof (induction hs arbitrary: b s)
  case (Cons h hs)
  have h: "h \<in> live (in_net s)" using Cons.prems by auto
  obtain closed s1 where s1: "service_socket ops h s = Some (closed, s1)"
    and l1: "live (in_net s1) = live (in_net s)"
    using service_socket_returns [OF m h] by blast
  have a1: "in_active s1 = in_active s" using service_socket_frame [OF s1] by simp
  show ?case
  proof (cases closed)
    case False
    then show ?thesis using Cons.IH [of s1 b] Cons.prems s1 a1 l1 by auto
  next
    case True
    have "h \<in> dom (in_active s1)" using Cons.prems(2) a1 by simp
    then obtain e where e: "in_active s1 h = Some e" by blast
    obtain rd peer where rp: "e = (rd, peer)" by (cases e)
    obtain w where w: "sock_remove ops h (in_net s1) = Some w" and lw: "live w = live (in_net s1) - {h}"
      using net_modelD(3) [OF m, of h "in_net s1"] h l1 by auto
    let ?s = "s1\<lparr>in_active := (in_active s1)(h := None),
                 in_net := chan_drop ops (peer_rx peer) (peer_tx peer) w\<rparr>"
    have d: "dom (in_active ?s) = live (in_net ?s)"
      using lw l1 a1 Cons.prems(3) net_modelD(12) [OF m, of "peer_rx peer" "peer_tx peer" w] by simp
    have sub: "set hs \<subseteq> dom (in_active ?s)" using Cons.prems(1,2) a1 by auto
    have "distinct hs" using Cons.prems(1) by simp
    from Cons.IH [OF this sub d] obtain b' s' where "service_all ops hs True ?s = Some (b', s')"
      and "dom (in_active s') = live (in_net s')" by blast
    then show ?thesis using s1 True e rp w by (simp add: Let_def)
  qed
qed simp

lemma drain_tx_total:
  "(\<forall>p \<in> set pkts. valid_ipv4 p) \<Longrightarrow> drain_tx pkts s \<noteq> None"
proof (induction pkts arbitrary: s)
  case (Cons pkt pkts)
  have ihl: "ihl_of pkt \<noteq> 0" using Cons.prems valid_ipv4_ihl(1) [of pkt] by auto
  have rest: "drain_tx pkts s \<noteq> None" "\<And>x. drain_tx pkts (s\<lparr>in_tun_tx := x\<rparr>) \<noteq> None"
    using Cons.IH Cons.prems by (meson list.set_intros(2))+
  have "(do { (_, pkt) \<leftarrow> rewrite_outbound pkt ip port;
              drain_tx pkts (s\<lparr>in_tun_tx := in_tun_tx s @ [pkt]\<rparr>) }) \<noteq> None" for ip port
    using rest by (simp only: rewrite_outbound_eq [OF ihl]) (simp split: if_split)
  moreover have "outbound_src_port pkt \<noteq> None"
    by (auto simp: outbound_src_port_def Let_def)
  ultimately show ?case
    using rest by (auto split: option.splits SocketAddr.splits IpAddr.splits)
qed simp

text \<open>Once the packets are fed, the rest of the cycle leaves the queue of new connections alone.\<close>

lemma poll_cycle:
  assumes "net_model ops live queue" and "poll_ok live s"
  shows "\<exists>b s' s1. UserspaceStack_poll ops ts s = Some (b, s') \<and> poll_ok live s' \<and>
     feed_all ops (in_tun_rx s) (s\<lparr>in_tun_rx := []\<rparr>) = Some s1 \<and> in_pending s' = in_pending s1"
proof -
  note m = assms(1)
  let ?s = "s\<lparr>in_tun_rx := []\<rparr>"
  have "poll_ok live ?s" using assms(2) by (simp add: poll_ok_def stack_inv_def)
  then obtain s1 where s1: "feed_all ops (in_tun_rx s) ?s = Some s1" and ok1: "poll_ok live s1"
    using feed_all_live [OF m] by blast
  obtain p w d where io: "iface_poll ops ts (in_net s1) (in_device s1) = (p, w, d)"
    by (metis prod_cases3)
  let ?s2 = "s1\<lparr>in_net := w, in_device := d\<rparr>"
  let ?hs = "key_order ops (dom (in_active ?s2))"
  have a2: "dom (in_active ?s2) = live (in_net ?s2)"
    using ok1 net_modelD(8) [OF m io] by (simp add: poll_ok_def)
  have keys: "set ?hs \<subseteq> dom (in_active ?s2)" "distinct ?hs"
    using net_modelD(14) [OF m] net_modelD(1) [OF m, of w] a2 by (simp_all add: hash_keys_def)
  obtain b s3 where s3: "service_all ops ?hs p ?s2 = Some (b, s3)"
    and a3: "dom (in_active s3) = live (in_net s3)"
    using service_all_live [OF m keys(2,1) a2] by blast
  let ?s3 = "s3\<lparr>in_device := (in_device s3)\<lparr>dev_tx := []\<rparr>\<rparr>"
  have d3: "in_device s3 = d" using service_all_frame [OF s3] by simp
  have "\<forall>p \<in> set (dev_tx (in_device s3)). valid_ipv4 p"
    using emits_ipv4D [OF m io] ok1 d3 by (auto simp: poll_ok_def)
  then obtain s4 where s4: "drain_tx (dev_tx (in_device s3)) ?s3 = Some s4"
    using drain_tx_total by blast
  have poll: "Inner_poll ops ts s = Some (b, s4)"
    using s1 io s3 s4 by (simp add: Inner_poll_def Let_def)
  have "stack_inv s4"
    using Inner_poll_keeps [OF _ poll] assms(2) by (simp add: poll_ok_def)
  moreover have "dom (in_active s4) = live (in_net s4)" and "dev_tx (in_device s4) = []" and "in_pending s4 = in_pending s1"
    using drain_tx_frame [OF s4] service_all_frame [OF s3] a3 by simp_all
  ultimately show ?thesis using poll s1 by (simp add: UserspaceStack_poll_def poll_ok_def)
qed

lemma sum_Suc_fresh: "x \<in> set xs \<Longrightarrow> x < sum_list (map Suc xs)"
  by (induction xs) auto

lemma demo_net_model: "net_model demo_ops (\<lambda>w. set (dn_socks w)) dn_chan"
proof -
  have "sum_list (map Suc xs) \<notin> set xs" for xs using sum_Suc_fresh by blast
  then show ?thesis
    unfolding net_model_def sockets_model_def channels_model_def emits_ipv4_def hash_keys_def
    by (auto simp: Let_def split: list.splits)
qed

section \<open>The bytes of a connection\<close>

text \<open>The buffers behind the operations: \<open>rcv\<close> holds what smoltcp has received and acknowledged on a
  socket, \<open>sent\<close> what it has been given to send. A channel of capacity 256 refuses a chunk when it
  is full; a send buffer of \<open>SOCK_BUF\<close> bytes takes as much as fits.\<close>

definition receive_model ::
  "'w net_ops \<Rightarrow> ('w \<Rightarrow> nat \<Rightarrow> bytes) \<Rightarrow> ('w \<Rightarrow> nat \<Rightarrow> bytes list) \<Rightarrow> bool" where
  "receive_model ops rcv queue \<longleftrightarrow>
     (\<forall>w h. sock_can_recv ops w h \<longleftrightarrow> rcv w h \<noteq> []) \<and>
     (\<forall>w h. \<exists>w'. sock_recv ops h w = Some (rcv w h, w') \<and> rcv w' h = [] \<and> queue w' = queue w) \<and>
     (\<forall>ch data w. rcv (chan_try_send ops ch data w) = rcv w \<and>
        queue (chan_try_send ops ch data w) ch =
          (if length (queue w ch) < 256 then queue w ch @ [data] else queue w ch))"

definition send_model ::
  "'w net_ops \<Rightarrow> ('w \<Rightarrow> nat \<Rightarrow> bytes) \<Rightarrow> ('w \<Rightarrow> nat \<Rightarrow> bytes list) \<Rightarrow> bool" where
  "send_model ops sent queue \<longleftrightarrow>
     (\<forall>w h. sock_can_send ops w h \<longleftrightarrow> length (sent w h) < SOCK_BUF) \<and>
     (\<forall>w h data. sent (sock_send_slice ops h data w) h = sent w h @ take (SOCK_BUF - length (sent w h)) data
        \<and> queue (sock_send_slice ops h data w) = queue w) \<and>
     (\<forall>w ch. queue w ch = [] \<longrightarrow> chan_try_recv ops ch w = None) \<and>
     (\<forall>w ch data rest. queue w ch = data # rest \<longrightarrow>
        (\<exists>w'. chan_try_recv ops ch w = Some (data, w') \<and> queue w' ch = rest \<and> sent w' = sent w))"

text \<open>Received bytes are passed to the relay task as one chunk, in order, while its channel has
  room. When 256 chunks are waiting they are taken off the socket all the same and lost: the data has
  been acknowledged to the sender, so no back-pressure and no retransmission brings it back.\<close>

lemma received_bytes_lost_when_full:
  assumes "receive_model ops rcv queue"
  shows "rcv (read_received ops h ch w) h = [] \<and>
     queue (read_received ops h ch w) ch =
       queue w ch @ (if rcv w h \<noteq> [] \<and> length (queue w ch) < 256 then [rcv w h] else [])"
proof (cases "rcv w h = []")
  case True
  then show ?thesis using assms by (simp add: receive_model_def read_received_def)
next
  case False
  obtain w1 where "sock_recv ops h w = Some (rcv w h, w1)" and "rcv w1 h = []" and "queue w1 = queue w"
    using assms unfolding receive_model_def by blast
  with False assms show ?thesis by (simp add: receive_model_def read_received_def)
qed

lemma write_pending_chunk:
  assumes "send_model ops sent queue" and "queue w ch = data # rest" and "length (sent w h) < SOCK_BUF"
  obtains w1 where "write_pending ops h ch w = write_pending ops h ch w1" and "queue w1 ch = rest"
    and "sent w1 h = sent w h @ take (SOCK_BUF - length (sent w h)) data"
proof -
  obtain w0 where w0: "chan_try_recv ops ch w = Some (data, w0)" "queue w0 ch = rest" "sent w0 = sent w"
    using assms(1,2) unfolding send_model_def by blast
  show thesis
    by (rule that [of "sock_send_slice ops h data w0"])
      (use assms w0 in \<open>simp_all add: send_model_def write_pending.simps [of _ _ _ w]\<close>)
qed

lemma write_pending_idle:
  "send_model ops sent queue \<Longrightarrow> queue w ch = [] \<Longrightarrow> write_pending ops h ch w = Some w"
  by (simp add: send_model_def write_pending.simps [of _ _ _ w])

lemma write_pending_fits:
  assumes m: "send_model ops sent queue"
  shows "queue w ch = q \<Longrightarrow> length (sent w h) + length (concat q) < SOCK_BUF \<Longrightarrow>
     \<exists>w'. write_pending ops h ch w = Some w' \<and> queue w' ch = [] \<and> sent w' h = sent w h @ concat q"
proof (induction q arbitrary: w)
  case Nil
  then show ?case using write_pending_idle [OF m, of w ch h] by simp
next
  case (Cons data rest)
  then have "length (sent w h) < SOCK_BUF" by simp
  from write_pending_chunk [OF m Cons.prems(1) this] obtain w1
    where step: "write_pending ops h ch w = write_pending ops h ch w1" and q: "queue w1 ch = rest"
      and s: "sent w1 h = sent w h @ take (SOCK_BUF - length (sent w h)) data" .
  have s': "sent w1 h = sent w h @ data" using s Cons.prems(2) by simp
  have "length (sent w1 h) + length (concat rest) < SOCK_BUF" using Cons.prems(2) s' by simp
  from Cons.IH [OF q this] show ?case using step s' by simp
qed

text \<open>Chunks from the relay task are written to the socket in order and completely as long as
  they all fit into its send buffer. A chunk larger than the room left is cut: its tail is neither
  sent nor put back, so the application receives a stream with a hole.\<close>

lemma pending_bytes_written:
  assumes "send_model ops sent queue"
  shows "(length (sent w h) + length (concat (queue w ch)) < SOCK_BUF \<longrightarrow>
       (\<exists>w'. write_pending ops h ch w = Some w' \<and> queue w' ch = [] \<and>
             sent w' h = sent w h @ concat (queue w ch))) \<and>
     (queue w ch = [data] \<and> length (sent w h) < SOCK_BUF \<and> SOCK_BUF < length (sent w h) + length data \<longrightarrow>
       (\<exists>w'. write_pending ops h ch w = Some w' \<and> queue w' ch = [] \<and>
             sent w' h = sent w h @ take (SOCK_BUF - length (sent w h)) data))"
proof (intro conjI impI)
  show "\<exists>w'. write_pending ops h ch w = Some w' \<and> queue w' ch = [] \<and> sent w' h = sent w h @ concat (queue w ch)"
    if "length (sent w h) + length (concat (queue w ch)) < SOCK_BUF"
    using write_pending_fits [OF assms refl that] .
  assume "queue w ch = [data] \<and> length (sent w h) < SOCK_BUF \<and> SOCK_BUF < length (sent w h) + length data"
  then have "queue w ch = [data]" and "length (sent w h) < SOCK_BUF" by auto
  from write_pending_chunk [OF assms this] obtain w1
    where "write_pending ops h ch w = write_pending ops h ch w1" and "queue w1 ch = []"
      and "sent w1 h = sent w h @ take (SOCK_BUF - length (sent w h)) data" .
  then show "\<exists>w'. write_pending ops h ch w = Some w' \<and> queue w' ch = [] \<and>
      sent w' h = sent w h @ take (SOCK_BUF - length (sent w h)) data"
    using write_pending_idle [OF assms, of w1 ch h] by simp
qed

end
