(* ===== verification/Dns.thy ===== *)
theory Dns
  imports GS_Prelude
begin

text \<open>
  The DNS path of \<open>gravital-dns\<close>: \<open>resolver.rs\<close>, \<open>interceptor.rs\<close> and \<open>leak_check.rs\<close>. The UDP socket
  belongs to tokio: its operations are the fields of \<open>udp_ops\<close>, acting on a world of type \<open>'w\<close>.
\<close>

section \<open>The resolver\<close>

datatype DnsError = DnsIo | ResolveFailed string string | LeakDetected | InvalidPacket | DnsTimeout string

text \<open>Each operation fails with an I/O error (\<open>None\<close>) or succeeds. \<open>udp_recv\<close> is \<open>recv\<close> under a time
  limit in seconds: it answers \<open>Inl ()\<close> when the time is up; a datagram longer than the buffer
  is cut to the buffer's size.\<close>

record ('w, 's) udp_ops =
  udp_bind :: "'w \<Rightarrow> 's option \<times> 'w"
  udp_connect :: "SocketAddr \<Rightarrow> 's \<Rightarrow> 'w \<Rightarrow> unit option \<times> 'w"
  udp_send :: "bytes \<Rightarrow> 's \<Rightarrow> 'w \<Rightarrow> unit option \<times> 'w"
  udp_recv :: "nat \<Rightarrow> 's \<Rightarrow> 'w \<Rightarrow> (unit + bytes option) \<times> 'w"

definition DEFAULT_RESOLVER :: Ipv4Addr where
  "DEFAULT_RESOLVER = Ipv4Addr 1 1 1 1"

definition DNS_PORT :: u16 where
  "DNS_PORT = 53"

definition RESOLVE_TIMEOUT :: nat where
  "RESOLVE_TIMEOUT = 5"

datatype DnsResolver = DnsResolver (resolver_server: SocketAddr)

definition DnsResolver_new :: "IpAddr \<Rightarrow> DnsResolver" where
  "DnsResolver_new server = DnsResolver (SocketAddr server DNS_PORT)"

definition DnsResolver_with_default :: DnsResolver where
  "DnsResolver_with_default = DnsResolver_new (V4 DEFAULT_RESOLVER)"

definition DnsResolver_forward_raw ::
  "('w, 's) udp_ops \<Rightarrow> DnsResolver \<Rightarrow> bytes \<Rightarrow> 'w \<Rightarrow> (DnsError + bytes) \<times> 'w" where
  "DnsResolver_forward_raw net r query w =
     (case udp_bind net w of
        (None, w) \<Rightarrow> (Inl DnsIo, w)
      | (Some sock, w) \<Rightarrow>
          (case udp_connect net (resolver_server r) sock w of
             (None, w) \<Rightarrow> (Inl DnsIo, w)
           | (Some _, w) \<Rightarrow>
               (case udp_send net query sock w of
                  (None, w) \<Rightarrow> (Inl DnsIo, w)
                | (Some _, w) \<Rightarrow>
                    (case udp_recv net RESOLVE_TIMEOUT sock w of
                       (Inl _, w) \<Rightarrow> (Inl (DnsTimeout ''query''), w)
                     | (Inr None, w) \<Rightarrow> (Inl DnsIo, w)
                     | (Inr (Some datagram), w) \<Rightarrow> (Inr (take 4096 datagram), w)))))"

definition DnsResolver_server_addr :: "DnsResolver \<Rightarrow> SocketAddr" where
  "DnsResolver_server_addr r = resolver_server r"

section \<open>The interceptor\<close>

record DnsInterceptor =
  di_resolver :: DnsResolver
  metrics_dns_queries :: u64
  metrics_dns_failures :: u64

definition DnsInterceptor_new :: "DnsResolver \<Rightarrow> DnsInterceptor" where
  "DnsInterceptor_new r = \<lparr>di_resolver = r, metrics_dns_queries = 0, metrics_dns_failures = 0\<rparr>"

definition build_servfail :: "bytes \<Rightarrow> bytes option" where
  "build_servfail query =
     (if length query < 2 then Some []
      else if 4 \<le> length query then do {
        resp \<leftarrow> set_idx query 2 0x81;
        set_idx resp 3 0x82 }
      else Some query)"

definition DnsInterceptor_handle_query ::
  "('w, 's) udp_ops \<Rightarrow> bytes \<Rightarrow> DnsInterceptor \<Rightarrow> 'w \<Rightarrow> ((DnsError + bytes) \<times> DnsInterceptor \<times> 'w) option" where
  "DnsInterceptor_handle_query net query i w =
     (let i = i\<lparr>metrics_dns_queries := metrics_dns_queries i + 1\<rparr>
      in case DnsResolver_forward_raw net (di_resolver i) query w of
           (Inr resp, w) \<Rightarrow> Some (Inr resp, i, w)
         | (Inl e, w) \<Rightarrow> do {
             let i = i\<lparr>metrics_dns_failures := metrics_dns_failures i + 1\<rparr>;
             resp \<leftarrow> build_servfail query;
             Some (Inr resp, i, w) })"

definition dns_queries_total :: "DnsInterceptor \<Rightarrow> u64" where
  "dns_queries_total i = metrics_dns_queries i"

definition dns_failures_total :: "DnsInterceptor \<Rightarrow> u64" where
  "dns_failures_total i = metrics_dns_failures i"

section \<open>The leak check\<close>

definition build_canary_query :: bytes where
  "build_canary_query =
     [0xDE, 0xAD, 0x01, 0x00, 0x00, 0x01, 0x00, 0x00, 0x00, 0x00, 0x00, 0x00,
      0x03, 0x6F, 0x6E, 0x65, 0x03, 0x6F, 0x6E, 0x65, 0x03, 0x6F, 0x6E, 0x65, 0x03, 0x6F, 0x6E, 0x65,
      0x00, 0x00, 0x01, 0x00, 0x01]"

datatype LeakCheck = LeakCheck (lc_resolver: DnsResolver)

text \<open>\<open>expired\<close> tells whether the outer limit of 8 seconds ran out before the query came back.\<close>

definition LeakCheck_run ::
  "('w, 's) udp_ops \<Rightarrow> bool \<Rightarrow> LeakCheck \<Rightarrow> 'w \<Rightarrow> (DnsError + unit) \<times> 'w" where
  "LeakCheck_run net expired check w =
     (case DnsResolver_forward_raw net (lc_resolver check) build_canary_query w of
        (res, w) \<Rightarrow>
          (if expired then Inl LeakDetected
           else case res of
             Inr resp \<Rightarrow> if resp \<noteq> [] then Inr () else Inl LeakDetected
           | Inl _ \<Rightarrow> Inl LeakDetected, w))"

section \<open>Answers\<close>

lemma build_servfail_eq:
  "build_servfail query =
     Some (if length query < 2 then [] else if length query < 4 then query
           else query[2 := 0x81, 3 := 0x82])"
  by (simp add: build_servfail_def)

lemma forward_raw_bound:
  "DnsResolver_forward_raw net r query w = (Inr resp, w') \<Longrightarrow> length resp \<le> 4096"
  by (auto simp: DnsResolver_forward_raw_def split: prod.splits option.splits sum.splits)

text \<open>What a query is answered with: the resolver's answer, or SERVFAIL.\<close>

definition dns_answer :: "bytes \<Rightarrow> DnsError + bytes \<Rightarrow> bytes" where
  "dns_answer query res =
     (case res of
        Inr resp \<Rightarrow> resp
      | Inl _ \<Rightarrow> if length query < 2 then [] else if length query < 4 then query else query[2 := 0x81, 3 := 0x82])"

lemma handle_query_eq:
  assumes "DnsResolver_forward_raw net (di_resolver i) query w = (res, w')"
  shows "DnsInterceptor_handle_query net query i w =
     Some (Inr (dns_answer query res),
       i\<lparr>metrics_dns_queries := metrics_dns_queries i + 1,
         metrics_dns_failures := metrics_dns_failures i + (if isl res then 1 else 0)\<rparr>, w')"
  using assms by (cases res) (simp_all add: DnsInterceptor_handle_query_def build_servfail_eq dns_answer_def)

lemma dns_answer_length:
  assumes "DnsResolver_forward_raw net r query w = (res, w')"
  shows "length (dns_answer query res) \<le> max 4096 (length query)"
  using forward_raw_bound [of net r query w] assms by (cases res) (auto simp: dns_answer_def)

text \<open>A name in a DNS message as its labels, for messages without compression.\<close>

fun dns_labels :: "nat \<Rightarrow> bytes \<Rightarrow> (bytes list \<times> bytes) option" where
  "dns_labels 0 _ = None"
| "dns_labels (Suc fuel) [] = None"
| "dns_labels (Suc fuel) (n # rest) =
     (if n = 0 then Some ([], rest)
      else if length rest < unat n then None
      else do {
        (ls, rest') \<leftarrow> dns_labels fuel (drop (unat n) rest);
        Some (take (unat n) rest # ls, rest') })"

text \<open>An intercepted DNS query is always answered, and never by another resolver. When the
  configured server answers, its answer is passed on, at most 4096 bytes of it. In every other case
  (no socket, no connection, no answer within five seconds) the client gets SERVFAIL: the query with
  the same identifier, the same counters and question, the response bit set and response code 2.
  The query is counted, and a failure exactly when SERVFAIL is sent.\<close>

lemma dns_always_answered:
  assumes "4 \<le> length query"
  shows "\<exists>resp i' w' res. DnsResolver_forward_raw net (di_resolver i) query w = (res, w') \<and>
     DnsInterceptor_handle_query net query i w = Some (Inr resp, i', w') \<and>
     length resp \<le> max 4096 (length query) \<and>
     dns_queries_total i' = dns_queries_total i + 1 \<and> di_resolver i' = di_resolver i \<and>
     (case res of
        Inr answer \<Rightarrow> resp = answer \<and> dns_failures_total i' = dns_failures_total i
      | Inl _ \<Rightarrow> take 2 resp = take 2 query \<and> drop 4 resp = drop 4 query \<and>
          bit (resp ! 2) 7 \<and> resp ! 3 AND 0x0F = 2 \<and>
          dns_failures_total i' = dns_failures_total i + 1)"
proof -
  obtain res w' where fwd: "DnsResolver_forward_raw net (di_resolver i) query w = (res, w')" by (metis surj_pair)
  have "take 2 (query[2 := 0x81, 3 := 0x82]) = take 2 query"
    and "drop 4 (query[2 := 0x81, 3 := 0x82]) = drop 4 query" by simp_all
  then show ?thesis
    using handle_query_eq [OF fwd] dns_answer_length [OF fwd] fwd assms
    by (cases res)
      (simp_all add: dns_answer_def dns_queries_total_def dns_failures_total_def bit_numeral_word_iff)
qed

lemma canary_names: "dns_labels 5 (drop 12 build_canary_query) =
    Some (replicate 4 [0x6F, 0x6E, 0x65], [0, 1, 0, 1])"
  by code_simp

end
