(* ===== verification/Dns_Packets.thy ===== *)
theory Dns_Packets
  imports Rewrite
begin

text \<open>
  The packet helpers of \<open>gravital-engine/src/runner.rs\<close> that take a DNS query out of an IPv4/UDP
  packet and wrap the answer into a reply packet, with their own copy of the checksum routine.
\<close>

section \<open>The code\<close>

definition udp_dst_port :: "bytes \<Rightarrow> u16 option option" where
  "udp_dst_port p =
     (if length p < 20 then Some None
      else do {
        b0 \<leftarrow> idx p 0; proto \<leftarrow> idx p 9;
        if drop_bit 4 b0 \<noteq> 4 \<or> proto \<noteq> 17 then Some None
        else do {
          let ihl = unat (b0 AND 0x0F) * 4;
          if length p < ihl + 8 then Some None
          else do { a \<leftarrow> idx p (ihl + 2); b \<leftarrow> idx p (ihl + 3); Some (Some (from_be16 a b)) } } })"

definition extract_udp_payload :: "bytes \<Rightarrow> bytes option option" where
  "extract_udp_payload p =
     (if length p < 20 then Some None
      else do {
        b0 \<leftarrow> idx p 0; proto \<leftarrow> idx p 9;
        if drop_bit 4 b0 \<noteq> 4 \<or> proto \<noteq> 17 then Some None
        else do {
          let ihl = unat (b0 AND 0x0F) * 4;
          if length p < ihl + 8 then Some None
          else do {
            a \<leftarrow> idx p (ihl + 4); b \<leftarrow> idx p (ihl + 5);
            let udp_len = unat (from_be16 a b);
            if udp_len < 8 \<or> length p < ihl + udp_len then Some None
            else do { payload \<leftarrow> subslice p (ihl + 8) (ihl + udp_len); Some (Some payload) } } } })"

definition rfc1071 :: "bytes \<Rightarrow> u16" where
  "rfc1071 data =
     (let sum = add_chunks 0 (chunks_exact2 data);
          sum = (case chunks_remainder2 data of
                   [t] \<Rightarrow> sum + push_bit 8 (ucast t)
                 | _ \<Rightarrow> sum)
      in NOT (ucast (fold_carry sum)))"

definition fix_ip4_checksum :: "bytes \<Rightarrow> bytes option" where
  "fix_ip4_checksum pkt = do {
     pkt \<leftarrow> set_idx pkt 10 0;
     pkt \<leftarrow> set_idx pkt 11 0;
     hdr \<leftarrow> subslice pkt 0 20;
     copy_slice pkt 10 12 (to_be16 (rfc1071 hdr)) }"

text \<open>\<open>udp_len as u32\<close> keeps the low 32 bits of \<open>pkt.len() - ihl\<close>, which wraps in \<open>usize\<close>.\<close>

definition fix_udp_checksum :: "bytes \<Rightarrow> bytes option" where
  "fix_udp_checksum pkt = do {
     b0 \<leftarrow> idx pkt 0;
     let ihl = unat (b0 AND 0x0F) * 4;
     let udp_len = (word_of_int (int (length pkt) - int ihl) :: u32);
     pkt \<leftarrow> set_idx pkt (ihl + 6) 0;
     pkt \<leftarrow> set_idx pkt (ihl + 7) 0;
     src \<leftarrow> subslice pkt 12 16;
     let sum = add_chunks 0 (chunks_exact2 src);
     dst \<leftarrow> subslice pkt 16 20;
     let sum = add_chunks sum (chunks_exact2 dst);
     let sum = sum + 17;
     let sum = sum + udp_len;
     seg \<leftarrow> subslice pkt ihl (length pkt);
     let sum = acc_words sum seg;
     let csum = NOT (ucast (fold_carry sum) :: u16);
     copy_slice pkt (ihl + 6) (ihl + 8) (to_be16 csum) }"

definition build_udp_reply :: "bytes \<Rightarrow> bytes \<Rightarrow> bytes option option" where
  "build_udp_reply req dns_resp =
     (if length req < 28 then Some None
      else do {
        b0 \<leftarrow> idx req 0; proto \<leftarrow> idx req 9;
        if drop_bit 4 b0 \<noteq> 4 \<or> proto \<noteq> 17 then Some None
        else do {
          let ihl = unat (b0 AND 0x0F) * 4;
          src_ip \<leftarrow> subslice req 12 16;
          dst_ip \<leftarrow> subslice req 16 20;
          src_port \<leftarrow> subslice req ihl (ihl + 2);
          dst_port \<leftarrow> subslice req (ihl + 2) (ihl + 4);
          let udp_len = (word_of_nat (8 + length dns_resp) :: u16);
          let total = 20 + unat udp_len;
          let out = replicate total 0;
          out \<leftarrow> set_idx out 0 0x45;
          out \<leftarrow> copy_slice out 2 4 (to_be16 (word_of_nat total));
          out \<leftarrow> set_idx out 8 64;
          out \<leftarrow> set_idx out 9 17;
          out \<leftarrow> copy_slice out 12 16 dst_ip;
          out \<leftarrow> copy_slice out 16 20 src_ip;
          out \<leftarrow> copy_slice out 20 22 dst_port;
          out \<leftarrow> copy_slice out 22 24 src_port;
          out \<leftarrow> copy_slice out 24 26 (to_be16 udp_len);
          out \<leftarrow> copy_slice out 28 (length out) dns_resp;
          out \<leftarrow> fix_ip4_checksum out;
          out \<leftarrow> fix_udp_checksum out;
          Some (Some out) } })"

section \<open>The checksum contract\<close>

lemma rfc1071_checksum_eq: "rfc1071 data = checksum data"
  by (simp add: rfc1071_def checksum_def)

interpretation dns_csum: rfc1071_checksum rfc1071
proof
  fix data :: bytes
  assume "length data \<le> 131074"
  then show "unat (rfc1071 data) = 65535 - ones_sum (word_sum data)"
    using rw_csum.cs_spec by (simp add: rfc1071_checksum_eq)
qed

section \<open>The reply before its checksums\<close>

definition reply_frame :: "bytes \<Rightarrow> bytes \<Rightarrow> bytes" where
  "reply_frame req resp =
     [0x45, 0] @ to_be16 (word_of_nat (28 + length resp)) @ [0, 0, 0, 0, 64, 17, 0, 0]
       @ take 4 (drop 16 req) @ take 4 (drop 12 req)
       @ take 2 (drop (ihl_of req + 2) req) @ take 2 (drop (ihl_of req) req)
       @ to_be16 (word_of_nat (8 + length resp)) @ [0, 0] @ resp"

definition udp4 :: "bytes \<Rightarrow> bool" where
  "udp4 p \<longleftrightarrow> 20 \<le> length p \<and> drop_bit 4 (p ! 0) = 4 \<and> p ! 9 = 17 \<and> ihl_of p + 8 \<le> length p"

lemma udp_dst_port_eq:
  "udp_dst_port p =
     Some (if udp4 p then Some (from_be16 (p ! (ihl_of p + 2)) (p ! (ihl_of p + 3))) else None)"
  by (simp add: udp_dst_port_def udp4_def ihl_of_def Let_def)

lemma extract_udp_payload_eq:
  "extract_udp_payload p =
     Some (let n = unat (from_be16 (p ! (ihl_of p + 4)) (p ! (ihl_of p + 5)))
           in if udp4 p \<and> 8 \<le> n \<and> ihl_of p + n \<le> length p
              then Some (take (n - 8) (drop (ihl_of p + 8) p)) else None)"
  by (auto simp: extract_udp_payload_def udp4_def ihl_of_def Let_def)

lemma replicate_28: "replicate (28 + n) (0 :: u8) =
    [0,0,0,0,0,0,0,0,0,0,0,0,0,0,0,0,0,0,0,0,0,0,0,0,0,0,0,0] @ replicate n 0"
  by (simp add: replicate_add numeral_eq_Suc)

lemma replicate_24: "replicate (24 + n) (0 :: u8) =
    [0,0,0,0,0,0,0,0,0,0,0,0,0,0,0,0,0,0,0,0,0,0,0,0] @ replicate n 0"
  by (simp add: replicate_add numeral_eq_Suc)

lemma list4: "length xs = 4 \<Longrightarrow> \<exists>a b c d. xs = [a, b, c, d]"
  by (auto simp: length_Suc_conv numeral_eq_Suc)

lemma list2: "length xs = 2 \<Longrightarrow> \<exists>a b. xs = [a, b]"
  by (auto simp: length_Suc_conv numeral_eq_Suc)

lemma build_udp_reply_frame:
  assumes len: "28 \<le> length req" and v: "drop_bit 4 (req ! 0) = 4" and p: "req ! 9 = 17"
    and ihl: "ihl_of req + 4 \<le> length req" and resp: "length resp \<le> 65527"
  shows "build_udp_reply req resp =
     do { out \<leftarrow> fix_ip4_checksum (reply_frame req resp); out \<leftarrow> fix_udp_checksum out; Some (Some out) }"
proof -
  have n: "unat (word_of_nat (8 + length resp) :: u16) = 8 + length resp"
    by (subst unsigned_of_nat) (use resp in \<open>simp add: take_bit_nat_eq_self\<close>)
  obtain a b c d where src: "take 4 (drop 12 req) = [a, b, c, d]" using list4 [of "take 4 (drop 12 req)"] len by auto
  obtain e f g h where dst: "take 4 (drop 16 req) = [e, f, g, h]" using list4 [of "take 4 (drop 16 req)"] len by auto
  obtain i j where sp: "take 2 (drop (ihl_of req) req) = [i, j]" using list2 [of "take 2 (drop (ihl_of req) req)"] ihl by auto
  obtain k l where dp: "take 2 (drop (ihl_of req + 2) req) = [k, l]" using list2 [of "take 2 (drop (ihl_of req + 2) req)"] ihl by auto
  obtain t0 t1 where t: "to_be16 (word_of_nat (28 + length resp)) = [t0, t1]" by (simp add: to_be16_def)
  obtain u0 u1 where u: "to_be16 (word_of_nat (8 + length resp)) = [u0, u1]" by (simp add: to_be16_def)
  have "subslice req 12 16 = Some [a, b, c, d]" "subslice req 16 20 = Some [e, f, g, h]"
    "subslice req (ihl_of req) (ihl_of req + 2) = Some [i, j]"
    "subslice req (ihl_of req + 2) (ihl_of req + 4) = Some [k, l]"
    using len ihl src dst sp dp by simp_all
  then show ?thesis
    using len v p src dst sp dp t u n replicate_28 [of "length resp"] replicate_24 [of "length resp"]
    by (simp add: build_udp_reply_def reply_frame_def Let_def ihl_of_def [symmetric] copy_slice_def set_idx_def
        del: subslice_in copy_slice_in)
qed

section \<open>The checksums of the reply\<close>

definition udp_pseudo :: "bytes \<Rightarrow> bytes" where
  "udp_pseudo p = take 4 (drop 12 p) @ take 4 (drop 16 p) @ [0, 17] @ to_be16 (word_of_nat (length p - 20))"

lemma length_udp_pseudo: "20 \<le> length p \<Longrightarrow> length (udp_pseudo p) = 12"
  by (simp add: udp_pseudo_def)

lemma udp_pseudo_chunks:
  assumes "28 \<le> length p" and "length p \<le> 65535"
  shows "add_chunks (add_chunks 0 (chunks_exact2 (take 4 (drop 12 p)))) (chunks_exact2 (take 4 (drop 16 p)))
      + 17 + word_of_int (int (length p) - 20) = add_chunks 0 (chunks_exact2 (udp_pseudo p))"
proof -
  define n :: u16 where "n = word_of_nat (length p - 20)"
  obtain a b where ab: "to_be16 n = [a, b]" by (simp add: to_be16_def)
  then have "from_be16 a b = n" using from_be16_to_be16 [of n] by simp
  moreover have "(ucast n :: u32) = word_of_nat (length p - 20)"
  proof (rule word_unat_eq_iff [THEN iffD2])
    have "unat n = length p - 20"
      unfolding n_def by (subst unsigned_of_nat) (use assms in \<open>simp add: take_bit_nat_eq_self\<close>)
    moreover have "unat (word_of_nat (length p - 20) :: u32) = length p - 20"
      by (subst unsigned_of_nat) (use assms in \<open>simp add: take_bit_nat_eq_self\<close>)
    ultimately show "unat (ucast n :: u32) = unat (word_of_nat (length p - 20) :: u32)"
      using assms by (simp add: unsigned_ucast_eq take_bit_nat_eq_self)
  qed
  moreover have "(word_of_int (int (length p) - 20) :: u32) = word_of_nat (length p - 20)"
    using assms by (simp add: of_nat_diff)
  moreover have "(ucast (from_be16 0 17) :: u32) = 17" by (simp add: from_be16_def)
  ultimately show ?thesis
    using assms unfolding udp_pseudo_def n_def [symmetric]
    by (simp add: ab take4_drop add_chunks_def)
qed

definition udp_csum :: "bytes \<Rightarrow> u16" where
  "udp_csum p = checksum (put16 18 0 (udp_pseudo p @ drop 20 p))"

lemma fix_ip4_checksum_eq:
  assumes "20 \<le> length p"
  shows "fix_ip4_checksum p = Some (put16 10 (checksum (take 20 (put16 10 0 p))) p)"
proof -
  have "p[10 := 0, 11 := 0] = put16 10 0 p" using put16_0 [of p 10] by simp
  moreover have "copy_slice (put16 10 0 p) 10 12 (to_be16 w) = Some (put16 10 w p)" for w
    using assms by (subst copy_slice_put16) auto
  ultimately show ?thesis
    using assms unfolding fix_ip4_checksum_def
    by (simp add: rfc1071_checksum_eq del: copy_slice_in)
qed

lemma fix_udp_checksum_eq:
  assumes len: "28 \<le> length p" "length p \<le> 65535" and ihl: "p ! 0 = 0x45"
  shows "fix_udp_checksum p = Some (put16 26 (udp_csum p) p)"
proof -
  let ?q = "put16 26 0 p"
  have z: "p[26 := 0, 27 := 0] = ?q" using put16_0 [of p 26] by simp
  have pseudo: "take 4 (drop 12 ?q) = take 4 (drop 12 p)" "take 4 (drop 16 ?q) = take 4 (drop 16 p)"
    by (simp_all add: drop_put16 take_put16_out)
  have "udp_pseudo p @ drop 20 ?q = put16 18 0 (udp_pseudo p @ drop 20 p)"
    using append_put16 [of 18 "udp_pseudo p" 6] len by (simp add: drop_put16 length_udp_pseudo)
  then have "fold_acc (acc_words (add_chunks 0 (chunks_exact2 (udp_pseudo p))) (drop 20 ?q)) = udp_csum p"
    using len by (simp add: add_chunks_acc_words length_udp_pseudo udp_csum_def checksum_acc)
  then have "NOT (ucast (fold_carry (acc_words
      (add_chunks (add_chunks 0 (chunks_exact2 (take 4 (drop 12 p)))) (chunks_exact2 (take 4 (drop 16 p)))
        + 17 + word_of_int (int (length p) - 20)) (drop 20 ?q))) :: u16) = udp_csum p"
    by (simp only: udp_pseudo_chunks [OF len] fold_acc_def)
  moreover have "copy_slice ?q 26 28 (to_be16 w) = Some (put16 26 w p)" for w
    using len by (subst copy_slice_put16) auto
  ultimately show ?thesis
    using len ihl z pseudo unfolding fix_udp_checksum_def
    by (simp add: Let_def del: copy_slice_in)
qed

section \<open>The finished reply\<close>

lemma take2_drop: "k + 2 \<le> length p \<Longrightarrow> take 2 (drop k p) = [p ! k, p ! (k + 1)]"
  by (rule nth_equalityI) (auto simp: less_Suc_eq numeral_eq_Suc)

lemma reply_frame_bytes:
  assumes "28 \<le> length req" and "ihl_of req + 4 \<le> length req"
  shows "reply_frame req resp =
     [0x45, 0, to_be16 (word_of_nat (28 + length resp)) ! 0, to_be16 (word_of_nat (28 + length resp)) ! 1,
      0, 0, 0, 0, 64, 17, 0, 0, req ! 16, req ! 17, req ! 18, req ! 19, req ! 12, req ! 13, req ! 14, req ! 15,
      req ! (ihl_of req + 2), req ! (ihl_of req + 3), req ! ihl_of req, req ! (ihl_of req + 1),
      to_be16 (word_of_nat (8 + length resp)) ! 0, to_be16 (word_of_nat (8 + length resp)) ! 1, 0, 0] @ resp"
proof -
  obtain t0 t1 where "to_be16 (word_of_nat (28 + length resp)) = [t0, t1]" by (simp add: to_be16_def)
  moreover obtain u0 u1 where "to_be16 (word_of_nat (8 + length resp)) = [u0, u1]" by (simp add: to_be16_def)
  moreover have "take 4 (drop 12 req) = [req ! 12, req ! 13, req ! 14, req ! 15]"
    and "take 4 (drop 16 req) = [req ! 16, req ! 17, req ! 18, req ! 19]"
    using assms(1) by (simp_all add: take4_drop)
  moreover have "take 2 (drop (ihl_of req) req) = [req ! ihl_of req, req ! (ihl_of req + 1)]"
    and "take 2 (drop (ihl_of req + 2) req) = [req ! (ihl_of req + 2), req ! (ihl_of req + 3)]"
    using assms(2) take2_drop [of "ihl_of req" req] take2_drop [of "ihl_of req + 2" req]
    by (simp_all add: numeral_3_eq_3)
  ultimately show ?thesis by (simp add: reply_frame_def)
qed

text \<open>The receiver's test of RFC 768 on a datagram without IP options, with the routines of
  \<open>gravital-proto\<close>.\<close>

definition udp_accepts :: "bytes \<Rightarrow> bool" where
  "udp_accepts p \<longleftrightarrow>
     fold_acc (acc_words
       (pseudo_header_v4 (p ! 12, p ! 13, p ! 14, p ! 15) (p ! 16, p ! 17, p ! 18, p ! 19) 17
          (word_of_nat (length p - 20)))
       (drop 20 p)) = 0"

lemma udp_accepts_checksum:
  assumes "20 \<le> length p"
  shows "udp_accepts p \<longleftrightarrow> checksum (udp_pseudo p @ drop 20 p) = 0"
proof -
  define n :: u16 where "n = word_of_nat (length p - 20)"
  obtain a b where ab: "to_be16 n = [a, b]" by (simp add: to_be16_def)
  then have "from_be16 a b = n" using from_be16_to_be16 [of n] by simp
  then have "pseudo_header_v4 (p ! 12, p ! 13, p ! 14, p ! 15) (p ! 16, p ! 17, p ! 18, p ! 19) 17 n
      = add_chunks 0 (chunks_exact2 (udp_pseudo p))"
    using assms unfolding udp_pseudo_def n_def [symmetric]
    by (simp add: ab take4_drop add_chunks_def pseudo_header_v4_def Let_def)
  then show ?thesis
    unfolding udp_accepts_def n_def [symmetric]
    using assms by (simp add: add_chunks_acc_words length_udp_pseudo checksum_acc)
qed

lemma udp_stored_accepted:
  assumes "28 \<le> length p" and "length p \<le> 65535"
  shows "udp_accepts (put16 26 (udp_csum p) p)"
proof -
  let ?d = "udp_pseudo p @ drop 20 p"
  have "checksum (put16 18 (checksum (put16 18 0 ?d)) ?d) = 0"
    by (rule checksum_store) (use assms in \<open>auto simp: length_udp_pseudo\<close>)
  moreover have "udp_pseudo (put16 26 w p) = udp_pseudo p" for w
    by (simp add: udp_pseudo_def drop_put16 take_put16_out)
  moreover have "udp_pseudo p @ drop 20 (put16 26 w p) = put16 18 w ?d" for w
    using append_put16 [of 18 "udp_pseudo p" 6] assms by (simp add: drop_put16 length_udp_pseudo)
  ultimately show ?thesis using assms by (simp add: udp_accepts_checksum udp_csum_def)
qed

lemma build_udp_reply_eq:
  assumes "udp4 req" and "28 \<le> length req" and "length resp \<le> 65507"
  obtains c d where "build_udp_reply req resp = Some (Some (put16 26 d (put16 10 c (reply_frame req resp))))"
    and "checksum (take 20 (put16 10 c (reply_frame req resp))) = 0"
    and "udp_accepts (put16 26 d (put16 10 c (reply_frame req resp)))"
proof -
  let ?f = "reply_frame req resp"
  have ihl: "ihl_of req + 4 \<le> length req" using assms(1) by (simp add: udp4_def)
  note bytes = reply_frame_bytes [OF assms(2) ihl, of resp]
  have len: "length ?f = 28 + length resp" by (simp add: bytes)
  define c where "c = checksum (take 20 (put16 10 0 ?f))"
  let ?g = "put16 10 c ?f"
  have g0: "?g ! 0 = 0x45" by (simp add: bytes)
  have "fix_ip4_checksum ?f = Some ?g" using fix_ip4_checksum_eq [of ?f] len c_def by simp
  moreover have "fix_udp_checksum ?g = Some (put16 26 (udp_csum ?g) ?g)"
    using fix_udp_checksum_eq [of ?g] len assms(3) g0 by simp
  moreover have "checksum (take 20 ?g) = 0"
    using checksum_store [of "take 20 ?f" 10] len by (simp add: c_def take_put16)
  moreover have "udp_accepts (put16 26 (udp_csum ?g) ?g)"
    using udp_stored_accepted [of ?g] len assms(3) by simp
  moreover have "build_udp_reply req resp =
      do { out \<leftarrow> fix_ip4_checksum ?f; out \<leftarrow> fix_udp_checksum out; Some (Some out) }"
    using build_udp_reply_frame [of req resp] assms ihl by (simp add: udp4_def)
  ultimately show thesis using that [of "udp_csum ?g" c] by simp
qed

lemma valid_ipv4_udp4:
  "valid_ipv4 p \<Longrightarrow> udp4 p \<Longrightarrow> 28 \<le> length p"
  using valid_ipv4_ihl(1) [of p] by (simp add: udp4_def)

text \<open>The reply to an intercepted DNS query. For a well-formed IPv4 packet with a UDP payload and any
  answer that fits into a datagram, a reply is built without a panic: a well-formed IPv4 packet whose
  header checksum and UDP checksum verify, from the address and port the query was sent to, to those
  the query came from, with the answer as its payload.\<close>

definition reply_ok :: "bytes \<Rightarrow> bytes \<Rightarrow> bytes \<Rightarrow> bool" where
  "reply_ok req resp out \<longleftrightarrow> valid_ipv4 out \<and> length out = 28 + length resp \<and>
     Ipv4View_verify_checksum \<lparr>v4_bytes = out\<rparr> = Some (Inr ()) \<and> udp_accepts out \<and>
     extract_udp_payload out = Some (Some resp) \<and>
     Ipv4View_total_length \<lparr>v4_bytes = out\<rparr> = Some (word_of_nat (length out)) \<and>
     Ipv4View_src \<lparr>v4_bytes = out\<rparr> = Ipv4View_dst \<lparr>v4_bytes = req\<rparr> \<and>
     Ipv4View_dst \<lparr>v4_bytes = out\<rparr> = Ipv4View_src \<lparr>v4_bytes = req\<rparr> \<and>
     UdpView_src_port \<lparr>udp_bytes = drop 20 out\<rparr> = UdpView_dst_port \<lparr>udp_bytes = drop (ihl_of req) req\<rparr> \<and>
     UdpView_dst_port \<lparr>udp_bytes = drop 20 out\<rparr> = UdpView_src_port \<lparr>udp_bytes = drop (ihl_of req) req\<rparr>"

lemma build_udp_reply_ok:
  assumes "valid_ipv4 req" and "extract_udp_payload req = Some (Some query)" and "length resp \<le> 65507"
  shows "\<exists>out. build_udp_reply req resp = Some (Some out) \<and> reply_ok req resp out"
proof -
  have u: "udp4 req" using assms(2) by (simp add: extract_udp_payload_eq Let_def split: if_splits)
  have len: "28 \<le> length req" and ihl: "ihl_of req + 8 \<le> length req"
    using valid_ipv4_udp4 [OF assms(1) u] u by (auto simp: udp4_def)
  obtain c d where b: "build_udp_reply req resp = Some (Some (put16 26 d (put16 10 c (reply_frame req resp))))"
    and ck: "checksum (take 20 (put16 10 c (reply_frame req resp))) = 0"
    and acc: "udp_accepts (put16 26 d (put16 10 c (reply_frame req resp)))"
    using build_udp_reply_eq [OF u len assms(3)] .
  let ?f = "reply_frame req resp"
  let ?out = "put16 26 d (put16 10 c ?f)"
  have bytes: "?f ! 0 = 0x45" "?f ! 9 = 17" "?f ! 2 = to_be16 (word_of_nat (28 + length resp)) ! 0"
    "?f ! 3 = to_be16 (word_of_nat (28 + length resp)) ! 1"
    "?f ! 12 = req ! 16" "?f ! 13 = req ! 17" "?f ! 14 = req ! 18" "?f ! 15 = req ! 19"
    "?f ! 16 = req ! 12" "?f ! 17 = req ! 13" "?f ! 18 = req ! 14" "?f ! 19 = req ! 15"
    "?f ! 20 = req ! (ihl_of req + 2)" "?f ! 21 = req ! (ihl_of req + 3)"
    "?f ! 22 = req ! ihl_of req" "?f ! 23 = req ! (ihl_of req + 1)"
    "?f ! 24 = to_be16 (word_of_nat (8 + length resp)) ! 0"
    "?f ! 25 = to_be16 (word_of_nat (8 + length resp)) ! 1"
    "drop 28 ?f = resp" "length ?f = 28 + length resp"
    using reply_frame_bytes [of req resp] len ihl by simp_all
  have "?out \<noteq> []" using bytes(20) by (metis length_put16 list.size(3) add_is_0 zero_neq_numeral)
  then have "hd ?out = ?out ! 0" by (rule hd_conv_nth)
  then have "hd ?out = 0x45" using bytes(1) by simp
  then have valid: "valid_ipv4 ?out" using bytes(20) by (simp add: valid_ipv4_def)
  have i20: "ihl_of ?out = 20" using bytes(1) by (simp add: ihl_of_def)
  have "internet_checksum (take 20 ?out) = 0"
    using ck by (simp add: checksum_acc internet_checksum_acc take_put16_out)
  then have "Ipv4View_verify_checksum \<lparr>v4_bytes = ?out\<rparr> = Some (Inr ())"
    using bytes(1,20) by (simp add: Ipv4View_verify_checksum_def Ipv4View_ihl_def)
  moreover have "unat (word_of_nat (8 + length resp) :: u16) = 8 + length resp"
    by (subst unsigned_of_nat) (use assms(3) in \<open>simp add: take_bit_nat_eq_self\<close>)
  then have "extract_udp_payload ?out = Some (Some resp)"
    using bytes i20 from_be16_to_be16 [of "word_of_nat (8 + length resp)"]
    by (simp add: extract_udp_payload_eq udp4_def drop_put16_out)
  moreover have "Ipv4View_total_length \<lparr>v4_bytes = ?out\<rparr> = Some (word_of_nat (length ?out))"
    using bytes from_be16_to_be16 [of "word_of_nat (28 + length resp)"]
    by (simp add: Ipv4View_total_length_def)
  moreover have "Ipv4View_src \<lparr>v4_bytes = ?out\<rparr> = Ipv4View_dst \<lparr>v4_bytes = req\<rparr>"
    and "Ipv4View_dst \<lparr>v4_bytes = ?out\<rparr> = Ipv4View_src \<lparr>v4_bytes = req\<rparr>"
    using bytes len by (simp_all add: Ipv4View_src_def Ipv4View_dst_def)
  moreover have "UdpView_src_port \<lparr>udp_bytes = drop 20 ?out\<rparr> = UdpView_dst_port \<lparr>udp_bytes = drop (ihl_of req) req\<rparr>"
    and "UdpView_dst_port \<lparr>udp_bytes = drop 20 ?out\<rparr> = UdpView_src_port \<lparr>udp_bytes = drop (ihl_of req) req\<rparr>"
    using bytes ihl by (simp_all add: UdpView_src_port_def UdpView_dst_port_def)
  moreover have "length ?out = 28 + length resp" using bytes(20) by simp
  ultimately show ?thesis using b acc valid unfolding reply_ok_def by blast
qed

end
