(* ===== verification/Io.thy ===== *)
theory Io
  imports GS_Prelude
begin

text \<open>
  Asynchronous code that reads and writes sockets, as functions on a world of type \<open>'w\<close> that return a
  result and the world afterwards; \<open>?\<close> is \<open>bindE\<close>. The sockets belong to tokio: their operations are
  the fields of \<open>tcp_ops\<close>, and \<open>stream_model\<close> states what \<open>AsyncReadExt\<close> and \<open>AsyncWriteExt\<close> document
  for a peer that has sent certain bytes and takes what is written.
\<close>

section \<open>Results that thread a world\<close>

type_synonym ('w, 'e, 'a) io = "'w \<Rightarrow> ('e + 'a) \<times> 'w"

definition retE :: "'a \<Rightarrow> ('w, 'e, 'a) io" where
  "retE x w = (Inr x, w)"

definition failE :: "'e \<Rightarrow> ('w, 'e, 'a) io" where
  "failE e w = (Inl e, w)"

definition bindE :: "('w, 'e, 'a) io \<Rightarrow> ('a \<Rightarrow> ('w, 'e, 'b) io) \<Rightarrow> ('w, 'e, 'b) io" where
  "bindE m f w = (case m w of (Inl e, w) \<Rightarrow> (Inl e, w) | (Inr x, w) \<Rightarrow> f x w)"

definition mapE :: "('e \<Rightarrow> 'f) \<Rightarrow> ('w, 'e, 'a) io \<Rightarrow> ('w, 'f, 'a) io" where
  "mapE g m w = (case m w of (Inl e, w) \<Rightarrow> (Inl (g e), w) | (Inr x, w) \<Rightarrow> (Inr x, w))"

named_theorems io_simps

lemma retE_app [io_simps]: "retE x w = (Inr x, w)"
  by (simp add: retE_def)

lemma failE_app [io_simps]: "failE e w = (Inl e, w)"
  by (simp add: failE_def)

lemma bindE_Inr [io_simps]: "m w = (Inr x, w') \<Longrightarrow> bindE m f w = f x w'"
  by (simp add: bindE_def)

lemma bindE_Inl [io_simps]: "m w = (Inl e, w') \<Longrightarrow> bindE m f w = (Inl e, w')"
  by (simp add: bindE_def)

lemma mapE_Inr [io_simps]: "m w = (Inr x, w') \<Longrightarrow> mapE g m w = (Inr x, w')"
  by (simp add: mapE_def)

lemma mapE_Inl [io_simps]: "m w = (Inl e, w') \<Longrightarrow> mapE g m w = (Inl (g e), w')"
  by (simp add: mapE_def)

section \<open>Sockets\<close>

datatype IoKind = UnexpectedEof | KindConnectionRefused | KindTimedOut | KindUnsupported | KindOther

text \<open>Sockets are numbers. \<open>read_exact\<close> fills a buffer of the given size, \<open>read_some\<close> is \<open>read\<close>
  into a buffer of the given size, \<open>connect_host\<close> is \<open>connect\<close> on a name and a port, \<open>relay_copy\<close> the two
  \<open>tokio::io::copy\<close> tasks between two sockets. The outcome of \<open>shutdown\<close> is never looked at.\<close>

record 'w tcp_ops =
  read_exact :: "nat \<Rightarrow> nat \<Rightarrow> ('w, IoKind, bytes) io"
  read_some :: "nat \<Rightarrow> nat \<Rightarrow> ('w, IoKind, bytes) io"
  write_all :: "nat \<Rightarrow> bytes \<Rightarrow> ('w, IoKind, unit) io"
  tcp_bind :: "SocketAddr \<Rightarrow> ('w, IoKind, nat) io"
  tcp_connect :: "SocketAddr \<Rightarrow> ('w, IoKind, nat) io"
  tcp_local_addr :: "nat \<Rightarrow> ('w, IoKind, SocketAddr) io"
  tcp_shutdown :: "nat \<Rightarrow> 'w \<Rightarrow> 'w"
  lookup_host :: "bytes \<Rightarrow> u16 \<Rightarrow> ('w, IoKind, SocketAddr list) io"
  connect_host :: "bytes \<Rightarrow> u16 \<Rightarrow> ('w, IoKind, nat) io"
  relay_copy :: "nat \<Rightarrow> nat \<Rightarrow> 'w \<Rightarrow> 'w"
  sleep_ms :: "u64 \<Rightarrow> 'w \<Rightarrow> 'w"

definition read_u8 :: "'w tcp_ops \<Rightarrow> nat \<Rightarrow> ('w, IoKind, u8) io" where
  "read_u8 io s = bindE (read_exact io s 1) (\<lambda>b. retE (b ! 0))"

definition read_u16 :: "'w tcp_ops \<Rightarrow> nat \<Rightarrow> ('w, IoKind, u16) io" where
  "read_u16 io s = bindE (read_exact io s 2) (\<lambda>b. retE (from_be16 (b ! 0) (b ! 1)))"

section \<open>What tokio documents\<close>

text \<open>\<open>pend w s\<close> is what the peer of socket \<open>s\<close> has sent and is still unread, after which it has
  closed its side; \<open>sent w s\<close> is what has been written to it.\<close>

definition stream_model ::
  "'w tcp_ops \<Rightarrow> ('w \<Rightarrow> nat \<Rightarrow> bytes) \<Rightarrow> ('w \<Rightarrow> nat \<Rightarrow> bytes) \<Rightarrow> bool" where
  "stream_model io pend sent \<longleftrightarrow>
     (\<forall>s n w. n \<le> length (pend w s) \<longrightarrow>
        (\<exists>w'. read_exact io s n w = (Inr (take n (pend w s)), w') \<and>
              pend w' = (pend w)(s := drop n (pend w s)) \<and> sent w' = sent w)) \<and>
     (\<forall>s n w. length (pend w s) < n \<longrightarrow>
        (\<exists>w'. read_exact io s n w = (Inl UnexpectedEof, w') \<and> sent w' = sent w)) \<and>
     (\<forall>s bs w. \<exists>w'. write_all io s bs w = (Inr (), w') \<and>
        sent w' = (sent w)(s := sent w s @ bs) \<and> pend w' = pend w)"

lemma stream_read:
  assumes "stream_model io pend sent" and "pend w s = bs @ rest" and "length bs = n"
  obtains w' where "read_exact io s n w = (Inr bs, w')" and "pend w' = (pend w)(s := rest)" and "sent w' = sent w"
proof -
  have "n \<le> length (pend w s)" using assms by simp
  then obtain w' where "read_exact io s n w = (Inr (take n (pend w s)), w')"
    "pend w' = (pend w)(s := drop n (pend w s))" "sent w' = sent w"
    using assms(1) unfolding stream_model_def by blast
  with assms show thesis using that by simp
qed

lemma stream_read_short:
  assumes "stream_model io pend sent" and "length (pend w s) < n"
  obtains w' where "read_exact io s n w = (Inl UnexpectedEof, w')" and "sent w' = sent w"
  using assms unfolding stream_model_def by blast

lemma stream_write:
  assumes "stream_model io pend sent"
  obtains w' where "write_all io s bs w = (Inr (), w')" and "sent w' = (sent w)(s := sent w s @ bs)"
    and "pend w' = pend w"
  using assms unfolding stream_model_def by blast

lemma stream_read_u8:
  assumes "stream_model io pend sent" and "pend w s = b # rest"
  obtains w' where "read_u8 io s w = (Inr b, w')" and "pend w' = (pend w)(s := rest)" and "sent w' = sent w"
proof -
  obtain w' where "read_exact io s 1 w = (Inr [b], w')" "pend w' = (pend w)(s := rest)" "sent w' = sent w"
    using stream_read [OF assms(1), of w s "[b]" rest 1] assms(2) by auto
  then show thesis using that by (simp add: read_u8_def io_simps)
qed

lemma stream_read_u16:
  assumes "stream_model io pend sent" and "pend w s = to_be16 v @ rest"
  obtains w' where "read_u16 io s w = (Inr v, w')" and "pend w' = (pend w)(s := rest)" and "sent w' = sent w"
proof -
  obtain w' where "read_exact io s 2 w = (Inr (to_be16 v), w')" "pend w' = (pend w)(s := rest)" "sent w' = sent w"
    using stream_read [OF assms(1), of w s "to_be16 v" rest 2] assms(2) by auto
  then show thesis using that from_be16_to_be16 [of v] by (simp add: read_u16_def io_simps)
qed

text \<open>Opening a connection, asking for its address and resolving a name leave the bytes of all streams
  alone; a relay passes on to each side what the other one has sent.\<close>

definition frame_model ::
  "'w tcp_ops \<Rightarrow> ('w \<Rightarrow> nat \<Rightarrow> bytes) \<Rightarrow> ('w \<Rightarrow> nat \<Rightarrow> bytes) \<Rightarrow> bool" where
  "frame_model io pend sent \<longleftrightarrow>
     (\<forall>a r w w'. tcp_connect io a w = (r, w') \<longrightarrow> pend w' = pend w \<and> sent w' = sent w) \<and>
     (\<forall>s r w w'. tcp_local_addr io s w = (r, w') \<longrightarrow> pend w' = pend w \<and> sent w' = sent w) \<and>
     (\<forall>h p r w w'. lookup_host io h p w = (r, w') \<longrightarrow> pend w' = pend w \<and> sent w' = sent w) \<and>
     (\<forall>h p r w w'. connect_host io h p w = (r, w') \<longrightarrow> pend w' = pend w \<and> sent w' = sent w)"

lemma frame_model_D:
  assumes "frame_model io pend sent"
  shows "tcp_connect io a w = (r, w') \<Longrightarrow> pend w' = pend w \<and> sent w' = sent w"
    and "tcp_local_addr io s w = (r', w') \<Longrightarrow> pend w' = pend w \<and> sent w' = sent w"
    and "lookup_host io h p w = (r'', w') \<Longrightarrow> pend w' = pend w \<and> sent w' = sent w"
    and "connect_host io h p w = (r, w') \<Longrightarrow> pend w' = pend w \<and> sent w' = sent w"
  using assms by (simp_all add: frame_model_def)

definition relay_model ::
  "'w tcp_ops \<Rightarrow> ('w \<Rightarrow> nat \<Rightarrow> bytes) \<Rightarrow> ('w \<Rightarrow> nat \<Rightarrow> bytes) \<Rightarrow> bool" where
  "relay_model io pend sent \<longleftrightarrow>
     (\<forall>a b w. a \<noteq> b \<longrightarrow>
        sent (relay_copy io a b w) = (sent w)(a := sent w a @ pend w b, b := sent w b @ pend w a))"

lemma relay_model_D:
  "relay_model io pend sent \<Longrightarrow> a \<noteq> b \<Longrightarrow>
     sent (relay_copy io a b w) = (sent w)(a := sent w a @ pend w b, b := sent w b @ pend w a)"
  by (simp add: relay_model_def)

text \<open>\<open>read\<close> returns at least one byte of what is there, and nothing only at the end of the stream.\<close>

definition read_model ::
  "'w tcp_ops \<Rightarrow> ('w \<Rightarrow> nat \<Rightarrow> bytes) \<Rightarrow> ('w \<Rightarrow> nat \<Rightarrow> bytes) \<Rightarrow> bool" where
  "read_model io pend sent \<longleftrightarrow>
     (\<forall>s n w. 0 < n \<longrightarrow>
        (\<exists>k w'. read_some io s n w = (Inr (take k (pend w s)), w') \<and> k \<le> n \<and> (pend w s \<noteq> [] \<longrightarrow> 0 < k) \<and>
           pend w' = (pend w)(s := drop k (pend w s)) \<and> sent w' = sent w))"

lemma stream_read_some:
  assumes "read_model io pend sent" and "0 < n"
  obtains k w' where "read_some io s n w = (Inr (take k (pend w s)), w')" and "k \<le> n"
    and "pend w s \<noteq> [] \<longrightarrow> 0 < k" and "pend w' = (pend w)(s := drop k (pend w s))" and "sent w' = sent w"
  using assms unfolding read_model_def by blast

section \<open>A concrete network\<close>

text \<open>Two maps of byte strings, unread and written, and a resolver that knows no names.\<close>

type_synonym demo_io = "(nat \<Rightarrow> bytes) \<times> (nat \<Rightarrow> bytes)"

definition demo_tcp :: "demo_io tcp_ops" where
  "demo_tcp =
     \<lparr>read_exact = \<lambda>s n (p, o'). if n \<le> length (p s) then (Inr (take n (p s)), (p(s := drop n (p s)), o'))
                                 else (Inl UnexpectedEof, (p, o')),
      read_some = \<lambda>s n (p, o'). (Inr (take n (p s)), (p(s := drop n (p s)), o')),
      write_all = \<lambda>s bs (p, o'). (Inr (), (p, o'(s := o' s @ bs))),
      tcp_bind = \<lambda>a. retE 0,
      tcp_connect = \<lambda>a. retE 1,
      tcp_local_addr = \<lambda>s. retE (SocketAddr (V4 (Ipv4Addr 10 0 0 1)) 40000),
      tcp_shutdown = \<lambda>s w. w,
      lookup_host = \<lambda>h p. retE [],
      connect_host = \<lambda>h p. retE 1,
      relay_copy = \<lambda>a b (p, o'). (p(a := [], b := []), o'(a := o' a @ p b, b := o' b @ p a)),
      sleep_ms = \<lambda>ms w. w\<rparr>"

lemma demo_stream_model: "stream_model demo_tcp fst snd"
  by (auto simp: stream_model_def demo_tcp_def)

lemma demo_frame_model: "frame_model demo_tcp fst snd"
  by (auto simp: frame_model_def demo_tcp_def retE_def)

lemma demo_relay_model: "relay_model demo_tcp fst snd"
  by (auto simp: relay_model_def demo_tcp_def)

lemma demo_read_model: "read_model demo_tcp fst snd"
  by (auto simp: read_model_def demo_tcp_def)

end
