(* ===== verification/Tun.thy ===== *)
theory Tun
  imports Io
begin

text \<open>
  The TUN device of \<open>gravital-tun\<close>: \<open>device.rs\<close>, \<open>platform.rs\<close> and \<open>error.rs\<close>. The system calls and tokio's
  \<open>AsyncFd\<close> are the fields of \<open>fd_ops\<close>. A \<open>File\<close> closes its descriptor when it is dropped: every exit
  that drops the file calls \<open>sys_close\<close>. A packet loop waits again when the descriptor was not ready, so
  it is a partial function: \<open>None\<close> means that it never returns.
\<close>

section \<open>System calls\<close>

datatype TunError = TunInvalidFd i32 | TunIo IoKind | TunClosed | PacketTooLarge nat u16

datatype 'a sys_result = SysWouldBlock | SysErr IoKind | SysOk 'a

text \<open>\<open>sys_getfl\<close> and \<open>sys_setfl\<close> are the two \<open>fcntl\<close> calls, \<open>sys_errno\<close> is \<open>last_os_error\<close>. \<open>sys_ioctl\<close>
  passes the interface request. \<open>sys_read\<close> gives what the device delivers; it is cut to the buffer.\<close>

record 'w fd_ops =
  sys_getfl :: "i32 \<Rightarrow> 'w \<Rightarrow> i32 \<times> 'w"
  sys_setfl :: "i32 \<Rightarrow> i32 \<Rightarrow> 'w \<Rightarrow> i32 \<times> 'w"
  sys_errno :: "'w \<Rightarrow> IoKind"
  sys_open_tun :: "'w \<Rightarrow> i32 \<times> 'w"
  sys_ioctl :: "i32 \<Rightarrow> bytes \<Rightarrow> 'w \<Rightarrow> i32 \<times> 'w"
  sys_close :: "i32 \<Rightarrow> 'w \<Rightarrow> 'w"
  async_fd_new :: "i32 \<Rightarrow> ('w, IoKind, unit) io"
  fd_readable :: "i32 \<Rightarrow> ('w, IoKind, unit) io"
  fd_writable :: "i32 \<Rightarrow> ('w, IoKind, unit) io"
  sys_read :: "i32 \<Rightarrow> nat \<Rightarrow> 'w \<Rightarrow> bytes sys_result \<times> 'w"
  sys_write :: "i32 \<Rightarrow> bytes \<Rightarrow> 'w \<Rightarrow> nat sys_result \<times> 'w"

definition O_NONBLOCK :: i32 where
  "O_NONBLOCK = 0x800"

section \<open>The device\<close>

definition BUF_SIZE :: nat where
  "BUF_SIZE = 1600"

record TunDevice =
  tun_fd :: i32
  tun_mtu :: u16

definition TunDevice_from_fd :: "'w fd_ops \<Rightarrow> i32 \<Rightarrow> u16 \<Rightarrow> ('w, TunError, TunDevice) io" where
  "TunDevice_from_fd ops raw_fd mtu w =
     (if sint raw_fd < 0 then (Inl (TunInvalidFd raw_fd), w)
      else
        (case sys_getfl ops raw_fd w of (flags, w) \<Rightarrow>
           if flags = -1 then (Inl (TunIo (sys_errno ops w)), sys_close ops raw_fd w)
           else
             (case sys_setfl ops raw_fd (flags OR O_NONBLOCK) w of (r, w) \<Rightarrow>
                if r = -1 then (Inl (TunIo (sys_errno ops w)), sys_close ops raw_fd w)
                else
                  (case async_fd_new ops raw_fd w of
                     (Inl e, w) \<Rightarrow> (Inl (TunIo e), sys_close ops raw_fd w)
                   | (Inr _, w) \<Rightarrow> (Inr \<lparr>tun_fd = raw_fd, tun_mtu = mtu\<rparr>, w)))))"

record TunReader =
  reader_fd :: i32
  reader_mtu :: u16

record TunWriter =
  writer_fd :: i32
  writer_mtu :: u16

definition TunDevice_split :: "TunDevice \<Rightarrow> TunReader \<times> TunWriter" where
  "TunDevice_split t =
     (\<lparr>reader_fd = tun_fd t, reader_mtu = tun_mtu t\<rparr>, \<lparr>writer_fd = tun_fd t, writer_mtu = tun_mtu t\<rparr>)"

partial_function (option) read_loop :: "'w fd_ops \<Rightarrow> i32 \<Rightarrow> 'w \<Rightarrow> ((TunError + bytes) \<times> 'w) option" where
  "read_loop ops fd w =
     (case fd_readable ops fd w of
        (Inl e, w) \<Rightarrow> Some (Inl (TunIo e), w)
      | (Inr _, w) \<Rightarrow>
          (case sys_read ops fd BUF_SIZE w of
             (SysOk packet, w) \<Rightarrow> Some (Inr (take BUF_SIZE packet), w)
           | (SysErr e, w) \<Rightarrow> Some (Inl (TunIo e), w)
           | (SysWouldBlock, w) \<Rightarrow> read_loop ops fd w))"

definition TunReader_read_packet :: "'w fd_ops \<Rightarrow> TunReader \<Rightarrow> 'w \<Rightarrow> ((TunError + bytes) \<times> 'w) option" where
  "TunReader_read_packet ops r = read_loop ops (reader_fd r)"

partial_function (option) write_loop :: "'w fd_ops \<Rightarrow> i32 \<Rightarrow> bytes \<Rightarrow> 'w \<Rightarrow> ((TunError + unit) \<times> 'w) option" where
  "write_loop ops fd data w =
     (case fd_writable ops fd w of
        (Inl e, w) \<Rightarrow> Some (Inl (TunIo e), w)
      | (Inr _, w) \<Rightarrow>
          (case sys_write ops fd data w of
             (SysOk _, w) \<Rightarrow> Some (Inr (), w)
           | (SysErr e, w) \<Rightarrow> Some (Inl (TunIo e), w)
           | (SysWouldBlock, w) \<Rightarrow> write_loop ops fd data w))"

definition TunWriter_write_packet :: "'w fd_ops \<Rightarrow> TunWriter \<Rightarrow> bytes \<Rightarrow> 'w \<Rightarrow> ((TunError + unit) \<times> 'w) option" where
  "TunWriter_write_packet ops t data w =
     (if unat (writer_mtu t) < length data then Some (Inl (PacketTooLarge (length data) (writer_mtu t)), w)
      else write_loop ops (writer_fd t) data w)"

section \<open>Opening a device by name\<close>

text \<open>The interface request: 16 bytes of name, the flags \<open>IFF_TUN | IFF_NO_PI\<close> in the byte order of the
  machine (little-endian on all Android targets), 22 bytes of padding.\<close>

definition ifreq :: "bytes \<Rightarrow> bytes" where
  "ifreq ifr_name = ifr_name @ [0x01, 0x10] @ replicate 22 0"

definition open_tun :: "'w fd_ops \<Rightarrow> bytes \<Rightarrow> 'w \<Rightarrow> ((TunError + i32) \<times> 'w) option" where
  "open_tun ops name w =
     (case sys_open_tun ops w of (fd, w) \<Rightarrow>
        if sint fd < 0 then Some (Inl (TunIo (sys_errno ops w)), w)
        else if 0 \<in> set name then Some (Inl (TunInvalidFd (-1)), w)
        else do {
          let name_bytes = name @ [0];
          let copy_len = min (length name_bytes) 15;
          src \<leftarrow> subslice name_bytes 0 copy_len;
          ifr_name \<leftarrow> copy_slice (replicate 16 0) 0 copy_len src;
          (case sys_ioctl ops fd (ifreq ifr_name) w of (ret, w) \<Rightarrow>
             if sint ret < 0 then (let w = sys_close ops fd w in Some (Inl (TunIo (sys_errno ops w)), w))
             else Some (Inr fd, w)) })"

text \<open>On other systems there is no such device.\<close>

definition open_tun_unsupported :: "bytes \<Rightarrow> TunError + i32" where
  "open_tun_unsupported name = Inl (TunIo KindUnsupported)"

section \<open>Packets through the device\<close>

text \<open>\<open>k\<close> spurious wake-ups: the descriptor is ready, the call would block, and so on from the next
  world.\<close>

inductive blocked :: "'w fd_ops \<Rightarrow> i32 \<Rightarrow> bytes \<Rightarrow> 'w \<Rightarrow> nat \<Rightarrow> 'w \<Rightarrow> bool" for ops fd data where
  blocked_0: "blocked ops fd data w 0 w"
| blocked_Suc: "fd_writable ops fd w = (Inr (), w1) \<Longrightarrow> sys_write ops fd data w1 = (SysWouldBlock, w2) \<Longrightarrow>
    blocked ops fd data w2 k w' \<Longrightarrow> blocked ops fd data w (Suc k) w'"

lemma write_loop_after_blocking:
  "blocked ops fd data w k w' \<Longrightarrow> write_loop ops fd data w = write_loop ops fd data w'"
proof (induction rule: blocked.induct)
  case (blocked_Suc w w1 w2 k w')
  then show ?case by (subst write_loop.simps) simp
qed simp

text \<open>A packet goes to the TUN device whole or not at all, and writing it ends once the device
  takes it. A packet longer than the MTU is refused before any system call. Any other packet is
  passed to \<open>write\<close> unchanged, after any finite number of times the descriptor turned out not to be
  writable.\<close>

lemma tun_write_packet:
  "(unat (writer_mtu t) < length data \<longrightarrow>
      TunWriter_write_packet ops t data w = Some (Inl (PacketTooLarge (length data) (writer_mtu t)), w)) \<and>
   (\<forall>k w1 w2 w3 n. length data \<le> unat (writer_mtu t) \<and> blocked ops (writer_fd t) data w k w1 \<and>
        fd_writable ops (writer_fd t) w1 = (Inr (), w2) \<and> sys_write ops (writer_fd t) data w2 = (SysOk n, w3) \<longrightarrow>
      TunWriter_write_packet ops t data w = Some (Inr (), w3))"
proof (intro conjI allI impI)
  fix k w1 w2 w3 n
  assume a: "length data \<le> unat (writer_mtu t) \<and> blocked ops (writer_fd t) data w k w1 \<and>
      fd_writable ops (writer_fd t) w1 = (Inr (), w2) \<and> sys_write ops (writer_fd t) data w2 = (SysOk n, w3)"
  then have "write_loop ops (writer_fd t) data w = write_loop ops (writer_fd t) data w1"
    by (elim conjE) (rule write_loop_after_blocking)
  also have "\<dots> = Some (Inr (), w3)" using a by (subst write_loop.simps) simp
  finally show "TunWriter_write_packet ops t data w = Some (Inr (), w3)"
    using a by (simp add: TunWriter_write_packet_def)
qed (simp add: TunWriter_write_packet_def)

text \<open>A device that is busy once: the world counts the calls of \<open>write\<close> and keeps the packets taken.\<close>

definition demo_fd :: "(nat \<times> bytes list) fd_ops" where
  "demo_fd = \<lparr>sys_getfl = \<lambda>fd w. (2, w), sys_setfl = \<lambda>fd fl w. (0, w), sys_errno = \<lambda>w. KindOther,
     sys_open_tun = \<lambda>w. (3, w), sys_ioctl = \<lambda>fd r w. (0, w), sys_close = \<lambda>fd w. w, async_fd_new = \<lambda>fd. retE (),
     fd_readable = \<lambda>fd. retE (), fd_writable = \<lambda>fd. retE (), sys_read = \<lambda>fd n w. (SysOk [], w),
     sys_write = \<lambda>fd data (n, out). if n = 0 then (SysWouldBlock, (1, out)) else (SysOk (length data), (Suc n, out @ [data]))\<rparr>"

text \<open>A packet is delivered whole only up to 1600 bytes, whatever the MTU is.\<close>

lemma read_packet_truncates:
  assumes "fd_readable ops (reader_fd r) w = (Inr (), w1)" and "sys_read ops (reader_fd r) 1600 w1 = (SysOk packet, w2)"
  shows "TunReader_read_packet ops r w = Some (Inr (take 1600 packet), w2)"
  using assms by (simp add: TunReader_read_packet_def read_loop.simps BUF_SIZE_def)

text \<open>A descriptor that cannot be made non-blocking is closed.\<close>

lemma from_fd_closes_on_error:
  assumes "0 \<le> sint fd" and "sys_getfl ops fd w = (-1, w1)"
  shows "TunDevice_from_fd ops fd mtu w = (Inl (TunIo (sys_errno ops w1)), sys_close ops fd w1)"
  using assms by (simp add: TunDevice_from_fd_def)

text \<open>The name in the interface request: at most 15 bytes of it, always ended by a zero byte.\<close>

lemma open_tun_request:
  assumes "sys_open_tun ops w = (fd, w1)" and "0 \<le> sint fd" and "0 \<notin> set name"
  shows "\<exists>ifr_name. length ifr_name = 16 \<and> ifr_name ! 15 = 0 \<and> take (min (length name) 15) ifr_name = take 15 name \<and>
     open_tun ops name w =
       (case sys_ioctl ops fd (ifreq ifr_name) w1 of (ret, w2) \<Rightarrow>
          if sint ret < 0 then Some (Inl (TunIo (sys_errno ops (sys_close ops fd w2))), sys_close ops fd w2)
          else Some (Inr fd, w2))"
proof -
  let ?n = "min (Suc (length name)) 15"
  let ?f = "take ?n (name @ [0]) @ replicate (16 - ?n) 0"
  have "length ?f = 16" and "?f ! 15 = 0" and "take (min (length name) 15) ?f = take 15 name"
    by (auto simp: nth_append min_def)
  moreover have "open_tun ops name w =
      (case sys_ioctl ops fd (ifreq ?f) w1 of (ret, w2) \<Rightarrow>
          if sint ret < 0 then Some (Inl (TunIo (sys_errno ops (sys_close ops fd w2))), sys_close ops fd w2)
          else Some (Inr fd, w2))"
    using assms by (simp add: open_tun_def Let_def split: prod.split)
  ultimately show ?thesis by blast
qed

end
