(* ===== verification/Utf8.thy ===== *)
theory Utf8
  imports GS_Prelude
begin

text \<open>
  Rust strings as their UTF-8 bytes, and \<open>String::from_utf8_lossy\<close> of the standard library, which
  replaces every maximal ill-formed part of a byte string by U+FFFD.
\<close>

section \<open>One code point\<close>

definition between :: "u8 \<Rightarrow> u8 \<Rightarrow> u8 \<Rightarrow> bool" where
  "between lo hi b = (lo \<le> b \<and> b \<le> hi)"

text \<open>The range of the second byte for each lead byte of a sequence of three or four bytes.\<close>

definition second3 :: "u8 \<Rightarrow> u8 \<Rightarrow> bool" where
  "second3 a b =
     (if a = 0xE0 then between 0xA0 0xBF b
      else if a = 0xED then between 0x80 0x9F b
      else between 0x80 0xBF b)"

definition second4 :: "u8 \<Rightarrow> u8 \<Rightarrow> bool" where
  "second4 a b =
     (if a = 0xF0 then between 0x90 0xBF b
      else if a = 0xF4 then between 0x80 0x8F b
      else between 0x80 0xBF b)"

text \<open>Whether the string starts with a well-formed code point, and the length of that code point or
  of the ill-formed part.\<close>

definition utf8_next :: "bytes \<Rightarrow> bool \<times> nat" where
  "utf8_next xs =
     (case xs of
        [] \<Rightarrow> (False, 1)
      | a # ys \<Rightarrow>
          if a < 0x80 then (True, 1)
          else if between 0xC2 0xDF a then
            (case ys of
               b # _ \<Rightarrow> if between 0x80 0xBF b then (True, 2) else (False, 1)
             | [] \<Rightarrow> (False, 1))
          else if between 0xE0 0xEF a then
            (case ys of
               b # zs \<Rightarrow>
                 if second3 a b then
                   (case zs of
                      c # _ \<Rightarrow> if between 0x80 0xBF c then (True, 3) else (False, 2)
                    | [] \<Rightarrow> (False, 2))
                 else (False, 1)
             | [] \<Rightarrow> (False, 1))
          else if between 0xF0 0xF4 a then
            (case ys of
               b # zs \<Rightarrow>
                 if second4 a b then
                   (case zs of
                      c # us \<Rightarrow>
                        if between 0x80 0xBF c then
                          (case us of
                             d # _ \<Rightarrow> if between 0x80 0xBF d then (True, 4) else (False, 3)
                           | [] \<Rightarrow> (False, 3))
                        else (False, 2)
                    | [] \<Rightarrow> (False, 2))
                 else (False, 1)
             | [] \<Rightarrow> (False, 1))
          else (False, 1))"

lemma utf8_next_pos: "0 < snd (utf8_next xs)"
  by (simp add: utf8_next_def split: list.split)

lemma utf8_next_drop: "xs \<noteq> [] \<Longrightarrow> (ok, n) = utf8_next xs \<Longrightarrow> length xs - n < length xs"
  using utf8_next_pos [of xs] by (cases "utf8_next xs") (simp add: length_greater_0_conv)

lemma utf8_next_ok: "utf8_next xs = (True, n) \<Longrightarrow> n \<le> length xs \<and> 0 < n"
  by (simp add: utf8_next_def split: list.splits if_splits)

text \<open>A code point is recognised whatever follows it.\<close>

lemma utf8_next_append: "utf8_next xs = (True, n) \<Longrightarrow> utf8_next (xs @ ys) = (True, n)"
  by (cases xs) (simp_all add: utf8_next_def split: list.split_asm if_split_asm)

lemma utf8_next_take: "utf8_next xs = (True, n) \<Longrightarrow> utf8_next (take n xs) = (True, n)"
  by (auto simp: utf8_next_def split: list.split_asm if_split_asm)

section \<open>Strings\<close>

function utf8_valid :: "bytes \<Rightarrow> bool" where
  "utf8_valid xs =
     (if xs = [] then True
      else case utf8_next xs of (ok, n) \<Rightarrow> ok \<and> utf8_valid (drop n xs))"
  by auto
termination
  by (relation "measure length") (auto dest: utf8_next_drop)

function from_utf8_lossy :: "bytes \<Rightarrow> bytes" where
  "from_utf8_lossy xs =
     (if xs = [] then []
      else case utf8_next xs of (ok, n) \<Rightarrow>
        (if ok then take n xs else [0xEF, 0xBF, 0xBD]) @ from_utf8_lossy (drop n xs))"
  by auto
termination
  by (relation "measure length") (auto dest: utf8_next_drop)

declare utf8_valid.simps [simp del] from_utf8_lossy.simps [simp del]

lemma utf8_valid_Nil [simp]: "utf8_valid []"
  by (simp add: utf8_valid.simps)

lemma from_utf8_lossy_Nil [simp]: "from_utf8_lossy [] = []"
  by (simp add: from_utf8_lossy.simps)

lemma utf8_valid_step: "utf8_next xs = (True, n) \<Longrightarrow> utf8_valid xs \<longleftrightarrow> utf8_valid (drop n xs)"
  using utf8_next_ok [of xs n] by (subst utf8_valid.simps) auto

lemma from_utf8_lossy_valid: "utf8_valid xs \<Longrightarrow> from_utf8_lossy xs = xs"
proof (induction xs rule: from_utf8_lossy.induct)
  case (1 xs)
  show ?case
  proof (cases "xs = []")
    case False
    obtain ok n where n: "utf8_next xs = (ok, n)" by (metis surj_pair)
    have v: "ok" "utf8_valid (drop n xs)"
      using "1.prems" False n by (subst (asm) utf8_valid.simps, simp)+
    then have "from_utf8_lossy (drop n xs) = drop n xs" using "1.IH" [OF False n [symmetric]] by blast
    then show ?thesis using False n v by (subst from_utf8_lossy.simps) simp
  qed simp
qed

text \<open>The result is always a string.\<close>

lemma lossy_valid: "utf8_valid (from_utf8_lossy xs)"
proof (induction xs rule: from_utf8_lossy.induct)
  case (1 xs)
  show ?case
  proof (cases "xs = []")
    case False
    obtain ok n where n: "utf8_next xs = (ok, n)" by (metis surj_pair)
    let ?rest = "from_utf8_lossy (drop n xs)"
    have rest: "utf8_valid ?rest" using "1.IH" [OF False n [symmetric]] .
    show ?thesis
    proof (cases ok)
      case True
      have len: "n \<le> length xs" using utf8_next_ok [of xs n] n True by simp
      have "utf8_next (take n xs) = (True, n)"
        using n True utf8_next_take by simp
      from utf8_next_append [OF this, of ?rest] have "utf8_next (take n xs @ ?rest) = (True, n)" .
      then have "utf8_valid (take n xs @ ?rest)" using rest len by (simp add: utf8_valid_step)
      then show ?thesis using False n True by (subst from_utf8_lossy.simps) simp
    next
      case False
      have "utf8_next ([0xEF, 0xBF, 0xBD] @ ?rest) = (True, 3)"
        by (simp add: utf8_next_def between_def second3_def)
      then have "utf8_valid ([0xEF, 0xBF, 0xBD] @ ?rest)" using rest by (simp add: utf8_valid_step)
      then show ?thesis using \<open>xs \<noteq> []\<close> n False by (subst from_utf8_lossy.simps) simp
    qed
  qed simp
qed

lemma ascii_valid: "\<forall>b \<in> set xs. b < 0x80 \<Longrightarrow> utf8_valid xs"
proof (induction xs)
  case (Cons a xs)
  then have "utf8_next (a # xs) = (True, 1)" by (simp add: utf8_next_def)
  with Cons show ?case by (simp add: utf8_valid_step)
qed simp

end
