(* ===== verification/Socks_Proto.thy ===== *)
theory Socks_Proto
  imports Io Utf8
begin

text \<open>
  The SOCKS5 wire format of \<open>gravital-socks/src/proto.rs\<close> with the errors of \<open>error.rs\<close>: method
  negotiation, requests, replies and the header of relayed datagrams. A Rust \<open>String\<close> is its bytes.
\<close>

section \<open>Types\<close>

datatype SocksError =
    SocksIo IoKind
  | InvalidSocksVersion u8
  | NoAcceptableMethod
  | AuthRejected
  | ErrHostUnreachable
  | ErrConnectionRefused
  | ErrCommandNotSupported u8
  | AddressTypeNotSupported u8
  | Upstream IoKind
  | ServerReply u8
  | PrematureEof
  | SocksTimeout

definition SOCKS_VERSION :: u8 where
  "SOCKS_VERSION = 0x05"

definition METHOD_NO_AUTH :: u8 where
  "METHOD_NO_AUTH = 0x00"

definition METHOD_USERPASS :: u8 where
  "METHOD_USERPASS = 0x02"

definition METHOD_NONE_ACCEPTABLE :: u8 where
  "METHOD_NONE_ACCEPTABLE = 0xFF"

datatype Cmd = Connect | Bind | UdpAssociate

definition Cmd_try_from :: "u8 \<Rightarrow> SocksError + Cmd" where
  "Cmd_try_from v =
     (if v = 0x01 then Inr Connect
      else if v = 0x02 then Inr Bind
      else if v = 0x03 then Inr UdpAssociate
      else Inl (ErrCommandNotSupported v))"

datatype Rep =
    Succeeded | GeneralFailure | NotAllowed | NetUnreachable | HostUnreachable
  | ConnectionRefused | TtlExpired | CommandNotSupported | AddrTypeNotSupported

fun Rep_code :: "Rep \<Rightarrow> u8" where
  "Rep_code Succeeded = 0x00"
| "Rep_code GeneralFailure = 0x01"
| "Rep_code NotAllowed = 0x02"
| "Rep_code NetUnreachable = 0x03"
| "Rep_code HostUnreachable = 0x04"
| "Rep_code ConnectionRefused = 0x05"
| "Rep_code TtlExpired = 0x06"
| "Rep_code CommandNotSupported = 0x07"
| "Rep_code AddrTypeNotSupported = 0x08"

datatype AddrSpec = AddrIpv4 Ipv4Addr | AddrIpv6 Ipv6Addr | Domain bytes

definition to_socket_addr :: "'w tcp_ops \<Rightarrow> AddrSpec \<Rightarrow> u16 \<Rightarrow> ('w, SocksError, SocketAddr) io" where
  "to_socket_addr io a port =
     (case a of
        AddrIpv4 ip \<Rightarrow> retE (SocketAddr (V4 ip) port)
      | AddrIpv6 ip \<Rightarrow> retE (SocketAddr (V6 ip) port)
      | Domain host \<Rightarrow>
          bindE (mapE SocksIo (lookup_host io host port))
            (\<lambda>addrs. case addrs of addr # _ \<Rightarrow> retE addr | [] \<Rightarrow> failE ErrHostUnreachable))"

section \<open>Requests and replies\<close>

definition map_eof :: "IoKind \<Rightarrow> SocksError" where
  "map_eof e = (if e = UnexpectedEof then PrematureEof else SocksIo e)"

record Request =
  req_cmd :: Cmd
  req_addr :: AddrSpec
  req_port :: u16

definition read_address :: "'w tcp_ops \<Rightarrow> nat \<Rightarrow> u8 \<Rightarrow> ('w, SocksError, AddrSpec) io" where
  "read_address io r atyp =
     (if atyp = 0x01 then
        bindE (mapE map_eof (read_exact io r 4)) (\<lambda>ip. retE (AddrIpv4 (Ipv4Addr (ip ! 0) (ip ! 1) (ip ! 2) (ip ! 3))))
      else if atyp = 0x03 then
        bindE (mapE map_eof (read_u8 io r)) (\<lambda>len.
        bindE (mapE map_eof (read_exact io r (unat len))) (\<lambda>domain.
        retE (Domain (from_utf8_lossy domain))))
      else if atyp = 0x04 then
        bindE (mapE map_eof (read_exact io r 16)) (\<lambda>ip. retE (AddrIpv6 (ipv6_from ip)))
      else failE (AddressTypeNotSupported atyp))"

definition read_request :: "'w tcp_ops \<Rightarrow> nat \<Rightarrow> ('w, SocksError, Request) io" where
  "read_request io r =
     bindE (mapE map_eof (read_exact io r 4)) (\<lambda>hdr.
     if hdr ! 0 \<noteq> SOCKS_VERSION then failE (InvalidSocksVersion (hdr ! 0))
     else
       case Cmd_try_from (hdr ! 1) of
         Inl e \<Rightarrow> failE e
       | Inr cmd \<Rightarrow>
           bindE (read_address io r (hdr ! 3)) (\<lambda>addr.
           bindE (mapE map_eof (read_u16 io r)) (\<lambda>port.
           retE \<lparr>req_cmd = cmd, req_addr = addr, req_port = port\<rparr>)))"

definition encode_address :: "AddrSpec \<Rightarrow> u16 \<Rightarrow> bytes \<Rightarrow> bytes" where
  "encode_address addr port buf =
     (let buf = (case addr of
                   AddrIpv4 ip \<Rightarrow> buf @ [0x01] @ ipv4_octets ip
                 | AddrIpv6 ip \<Rightarrow> buf @ [0x04] @ ipv6_octets ip
                 | Domain d \<Rightarrow> buf @ [0x03] @ [word_of_nat (length d)] @ d)
      in buf @ to_be16 port)"

definition reply_bytes :: "Rep \<Rightarrow> SocketAddr \<Rightarrow> bytes" where
  "reply_bytes rep bind_addr =
     (let buf = [SOCKS_VERSION, Rep_code rep, 0x00];
          buf = (case sa_ip bind_addr of
                   V4 ip \<Rightarrow> buf @ [0x01] @ ipv4_octets ip
                 | V6 ip \<Rightarrow> buf @ [0x04] @ ipv6_octets ip)
      in buf @ to_be16 (sa_port bind_addr))"

definition send_reply :: "'w tcp_ops \<Rightarrow> nat \<Rightarrow> Rep \<Rightarrow> SocketAddr \<Rightarrow> ('w, SocksError, unit) io" where
  "send_reply io s rep bind_addr = mapE SocksIo (write_all io s (reply_bytes rep bind_addr))"

definition negotiate_method :: "'w tcp_ops \<Rightarrow> nat \<Rightarrow> bool \<Rightarrow> ('w, SocksError, u8) io" where
  "negotiate_method io s server_auth_enabled =
     bindE (mapE map_eof (read_exact io s 2)) (\<lambda>hdr.
     if hdr ! 0 \<noteq> SOCKS_VERSION then failE (InvalidSocksVersion (hdr ! 0))
     else
       bindE (mapE map_eof (read_exact io s (unat (hdr ! 1)))) (\<lambda>methods.
       let answer = (\<lambda>chosen. bindE (mapE SocksIo (write_all io s [SOCKS_VERSION, chosen])) (\<lambda>_. retE chosen))
       in if METHOD_NO_AUTH \<in> set methods then answer METHOD_NO_AUTH
          else if server_auth_enabled \<and> METHOD_USERPASS \<in> set methods then answer METHOD_USERPASS
          else bindE (mapE SocksIo (write_all io s [SOCKS_VERSION, METHOD_NONE_ACCEPTABLE]))
                 (\<lambda>_. failE NoAcceptableMethod)))"

definition skip_bound_address :: "'w tcp_ops \<Rightarrow> nat \<Rightarrow> u8 \<Rightarrow> ('w, SocksError, unit) io" where
  "skip_bound_address io r atyp =
     (let discard = (\<lambda>addr_len. bindE (mapE map_eof (read_exact io r (addr_len + 2))) (\<lambda>_. retE ()))
      in if atyp = 0x01 then discard 4
         else if atyp = 0x03 then bindE (mapE map_eof (read_u8 io r)) (\<lambda>len. discard (unat len))
         else if atyp = 0x04 then discard 16
         else retE ())"

section \<open>Relayed datagrams\<close>

record UdpHeader =
  uh_frag :: u8
  uh_addr :: AddrSpec
  uh_port :: u16
  payload_offset :: nat

definition udp_port :: "bytes \<Rightarrow> u8 \<Rightarrow> AddrSpec \<Rightarrow> nat \<Rightarrow> (SocksError + UdpHeader) option" where
  "udp_port buf frag addr offset =
     (if length buf < offset + 2 then Some (Inl PrematureEof)
      else do {
        a \<leftarrow> idx buf offset; b \<leftarrow> idx buf (offset + 1);
        Some (Inr \<lparr>uh_frag = frag, uh_addr = addr, uh_port = from_be16 a b, payload_offset = offset + 2\<rparr>) })"

definition parse_udp_datagram :: "bytes \<Rightarrow> (SocksError + UdpHeader) option" where
  "parse_udp_datagram buf =
     (if length buf < 4 then Some (Inl PrematureEof)
      else do {
        frag \<leftarrow> idx buf 2;
        atyp \<leftarrow> idx buf 3;
        let offset = 4;
        if atyp = 0x01 then
          (if length buf < offset + 4 then Some (Inl PrematureEof)
           else do {
             a \<leftarrow> idx buf offset; b \<leftarrow> idx buf (offset + 1);
             c \<leftarrow> idx buf (offset + 2); d \<leftarrow> idx buf (offset + 3);
             udp_port buf frag (AddrIpv4 (Ipv4Addr a b c d)) (offset + 4) })
        else if atyp = 0x03 then
          (if length buf < offset + 1 then Some (Inl PrematureEof)
           else do {
             l \<leftarrow> idx buf offset;
             let len = unat l;
             let offset = offset + 1;
             if length buf < offset + len then Some (Inl PrematureEof)
             else do {
               raw \<leftarrow> subslice buf offset (offset + len);
               udp_port buf frag (Domain (from_utf8_lossy raw)) (offset + len) } })
        else if atyp = 0x04 then
          (if length buf < offset + 16 then Some (Inl PrematureEof)
           else do {
             ip \<leftarrow> subslice buf offset (offset + 16);
             udp_port buf frag (AddrIpv6 (ipv6_from ip)) (offset + 16) })
        else Some (Inl (AddressTypeNotSupported atyp)) })"

section \<open>Reading back what was encoded\<close>

fun addr_atyp :: "AddrSpec \<Rightarrow> u8" where
  "addr_atyp (AddrIpv4 _) = 0x01"
| "addr_atyp (AddrIpv6 _) = 0x04"
| "addr_atyp (Domain _) = 0x03"

fun addr_body :: "AddrSpec \<Rightarrow> bytes" where
  "addr_body (AddrIpv4 ip) = ipv4_octets ip"
| "addr_body (AddrIpv6 ip) = ipv6_octets ip"
| "addr_body (Domain d) = word_of_nat (length d) # d"

text \<open>The addresses the one-byte length field can carry.\<close>

fun addr_ok :: "AddrSpec \<Rightarrow> bool" where
  "addr_ok (Domain d) \<longleftrightarrow> length d \<le> 255 \<and> utf8_valid d"
| "addr_ok _ \<longleftrightarrow> True"

lemma encode_address_eq:
  "encode_address addr port buf = buf @ [addr_atyp addr] @ addr_body addr @ to_be16 port"
  by (cases addr) (simp_all add: encode_address_def Let_def)

lemma unat_len_byte: "n \<le> 255 \<Longrightarrow> unat (word_of_nat n :: u8) = n"
  by (subst unsigned_of_nat) (simp add: take_bit_nat_eq_self)

lemma read_address_encoded:
  assumes m: "stream_model io pend sent" and ok: "addr_ok addr" and p: "pend w s = addr_body addr @ rest"
  obtains w' where "read_address io s (addr_atyp addr) w = (Inr addr, w')"
    and "pend w' = (pend w)(s := rest)" and "sent w' = sent w"
proof (cases addr)
  case (AddrIpv4 ip)
  obtain a b c d where ip: "ip = Ipv4Addr a b c d" by (cases ip)
  obtain w' where "read_exact io s 4 w = (Inr (ipv4_octets ip), w')"
    and w': "pend w' = (pend w)(s := rest)" "sent w' = sent w"
    using stream_read [OF m, of w s "ipv4_octets ip" rest 4] p AddrIpv4 by auto
  then show thesis using that AddrIpv4 ip by (simp add: read_address_def io_simps)
next
  case (AddrIpv6 ip)
  obtain w' where "read_exact io s 16 w = (Inr (ipv6_octets ip), w')"
    and w': "pend w' = (pend w)(s := rest)" "sent w' = sent w"
    using stream_read [OF m, of w s "ipv6_octets ip" rest 16] p AddrIpv6 by auto
  then show thesis using that AddrIpv6 by (simp add: read_address_def io_simps)
next
  case (Domain d)
  have len: "unat (word_of_nat (length d) :: u8) = length d" using ok Domain by (simp add: unat_len_byte)
  obtain w1 where r1: "read_u8 io s w = (Inr (word_of_nat (length d)), w1)"
    and w1: "pend w1 = (pend w)(s := d @ rest)" "sent w1 = sent w"
    using stream_read_u8 [OF m, of w s "word_of_nat (length d)" "d @ rest"] p Domain by auto
  have "pend w1 s = d @ rest" using w1 by simp
  from stream_read [OF m this refl] obtain w' where "read_exact io s (length d) w1 = (Inr d, w')"
    and "pend w' = (pend w1)(s := rest)" "sent w' = sent w1" .
  then show thesis
    using that Domain r1 w1 len ok by (simp add: read_address_def io_simps from_utf8_lossy_valid)
qed

lemma read_request_encoded:
  assumes m: "stream_model io pend sent" and ok: "addr_ok addr" and c: "Cmd_try_from c = Inr cmd"
    and p: "pend w s = encode_address addr port [SOCKS_VERSION, c, rsv] @ rest"
  obtains w' where "read_request io s w = (Inr \<lparr>req_cmd = cmd, req_addr = addr, req_port = port\<rparr>, w')"
    and "pend w' = (pend w)(s := rest)" and "sent w' = sent w"
proof -
  let ?hdr = "[SOCKS_VERSION, c, rsv, addr_atyp addr]"
  obtain w1 where r1: "read_exact io s 4 w = (Inr ?hdr, w1)"
    and w1: "pend w1 = (pend w)(s := addr_body addr @ to_be16 port @ rest)" "sent w1 = sent w"
    using stream_read [OF m, of w s ?hdr "addr_body addr @ to_be16 port @ rest" 4] p
    by (auto simp: encode_address_eq)
  have "pend w1 s = addr_body addr @ to_be16 port @ rest" using w1 by simp
  from read_address_encoded [OF m ok this] obtain w2
    where r2: "read_address io s (addr_atyp addr) w1 = (Inr addr, w2)"
      and w2: "pend w2 = (pend w1)(s := to_be16 port @ rest)" "sent w2 = sent w1" .
  have "pend w2 s = to_be16 port @ rest" using w2 by simp
  from stream_read_u16 [OF m this] obtain w3 where r3: "read_u16 io s w2 = (Inr port, w3)"
      and w3: "pend w3 = (pend w2)(s := rest)" "sent w3 = sent w2" .
  show thesis
    by (rule that [of w3]) (use r1 r2 r3 w1 w2 w3 c in \<open>simp_all add: read_request_def io_simps\<close>)
qed

text \<open>A SOCKS request is read back as it was encoded, and nothing after it is consumed: for every
  command, every IPv4 or IPv6 address, every domain name of at most 255 bytes and every port. The
  reserved byte is ignored. A longer name gets a length byte that wraps around.\<close>

lemma socks_request_roundtrip:
  assumes "stream_model io pend sent" and "addr_ok addr" and "Cmd_try_from c = Inr cmd"
    and "pend w s = encode_address addr port [0x05, c, rsv] @ rest"
  shows "\<exists>w'. read_request io s w = (Inr \<lparr>req_cmd = cmd, req_addr = addr, req_port = port\<rparr>, w') \<and>
     pend w' s = rest \<and> sent w' = sent w"
proof -
  have "pend w s = encode_address addr port [SOCKS_VERSION, c, rsv] @ rest"
    using assms(4) by (simp add: SOCKS_VERSION_def)
  from read_request_encoded [OF assms(1-3) this] show ?thesis by (metis fun_upd_same)
qed

text \<open>\<open>CONNECT\<close> to \<open>host:443\<close>.\<close>

section \<open>Datagram headers\<close>

lemma udp_port_append:
  "length hdr = k \<Longrightarrow> udp_port (hdr @ to_be16 port @ payload) frag addr k =
     Some (Inr \<lparr>uh_frag = frag, uh_addr = addr, uh_port = port, payload_offset = k + 2\<rparr>)"
proof -
  assume k: "length hdr = k"
  obtain a b where ab: "to_be16 port = [a, b]" by (simp add: to_be16_def)
  then have "from_be16 a b = port" using from_be16_to_be16 [of port] by simp
  with k ab show ?thesis by (simp add: udp_port_def nth_append)
qed

lemma udp_port_total: "udp_port buf frag addr k \<noteq> None"
  by (auto simp: udp_port_def)

lemma udp_port_offset: "udp_port buf frag addr k = Some (Inr h) \<Longrightarrow> payload_offset h \<le> length buf"
  by (auto simp: udp_port_def split: if_splits)

lemma parse_udp_total: "parse_udp_datagram buf \<noteq> None"
  using udp_port_total by (auto simp: parse_udp_datagram_def Let_def)

lemma parse_udp_payload:
  assumes "parse_udp_datagram buf = Some (Inr h)"
  shows "subslice buf (payload_offset h) (length buf) = Some (drop (payload_offset h) buf)"
proof -
  have "payload_offset h \<le> length buf"
    using assms by (auto simp: parse_udp_datagram_def Let_def dest: udp_port_offset split: if_splits)
  then show ?thesis by simp
qed

lemma parse_udp_encoded:
  assumes ok: "addr_ok addr"
  obtains h where "parse_udp_datagram (encode_address addr port [0, 0, frag] @ payload) = Some (Inr h)"
    and "uh_frag h = frag" and "uh_addr h = addr" and "uh_port h = port"
    and "drop (payload_offset h) (encode_address addr port [0, 0, frag] @ payload) = payload"
proof -
  let ?h = "[0, 0, frag, addr_atyp addr] @ addr_body addr"
  let ?b = "encode_address addr port [0, 0, frag] @ payload"
  have b: "?b = ?h @ to_be16 port @ payload" by (simp add: encode_address_eq)
  have "parse_udp_datagram ?b = udp_port ?b frag addr (length ?h)"
  proof (cases addr)
    case (AddrIpv4 ip)
    then show ?thesis unfolding b by (cases ip) (simp add: parse_udp_datagram_def Let_def, simp add: numeral_eq_Suc)
  next
    case (AddrIpv6 ip)
    then show ?thesis unfolding b by (simp add: parse_udp_datagram_def Let_def)
  next
    case (Domain d)
    then show ?thesis
      using ok unfolding b
      by (simp add: parse_udp_datagram_def Let_def unat_len_byte from_utf8_lossy_valid, simp add: numeral_eq_Suc)
  qed
  also have "\<dots> = Some (Inr \<lparr>uh_frag = frag, uh_addr = addr, uh_port = port, payload_offset = length ?h + 2\<rparr>)"
    unfolding b by (rule udp_port_append) (rule refl)
  finally show thesis
    by (rule that) (simp_all add: b)
qed

text \<open>The header of a relayed datagram is parsed without a panic, for every datagram; the payload
  offset of an accepted one lies inside the datagram, so taking the payload cannot panic either. A
  header written with the same address encoding is parsed back exactly, with the payload behind it.\<close>

lemma socks_udp_datagram:
  "parse_udp_datagram buf \<noteq> None \<and>
   (\<forall>h. parse_udp_datagram buf = Some (Inr h) \<longrightarrow> subslice buf (payload_offset h) (length buf) \<noteq> None) \<and>
   (\<forall>addr port frag payload. addr_ok addr \<longrightarrow>
      (\<exists>h. parse_udp_datagram (encode_address addr port [0, 0, frag] @ payload) = Some (Inr h) \<and>
         uh_frag h = frag \<and> uh_addr h = addr \<and> uh_port h = port \<and>
         subslice (encode_address addr port [0, 0, frag] @ payload) (payload_offset h)
           (length (encode_address addr port [0, 0, frag] @ payload)) = Some payload))"
proof (intro conjI allI impI)
  fix addr port frag payload assume "addr_ok addr"
  then obtain h where h: "parse_udp_datagram (encode_address addr port [0, 0, frag] @ payload) = Some (Inr h)"
    "uh_frag h = frag" "uh_addr h = addr" "uh_port h = port"
    "drop (payload_offset h) (encode_address addr port [0, 0, frag] @ payload) = payload"
    by (rule parse_udp_encoded)
  then show "\<exists>h. parse_udp_datagram (encode_address addr port [0, 0, frag] @ payload) = Some (Inr h) \<and>
      uh_frag h = frag \<and> uh_addr h = addr \<and> uh_port h = port \<and>
      subslice (encode_address addr port [0, 0, frag] @ payload) (payload_offset h)
        (length (encode_address addr port [0, 0, frag] @ payload)) = Some payload"
    using parse_udp_payload [OF h(1)] by metis
qed (simp_all add: parse_udp_total [simplified] parse_udp_payload)

end
