(* ===== verification/Socks_Client.thy ===== *)
theory Socks_Client
  imports Socks_Proto
begin

text \<open>
  The SOCKS5 client of \<open>gravital-socks/src/client.rs\<close>: \<open>CONNECT\<close> through the proxy and the retry loop
  with exponential back-off. Sockets and \<open>sleep\<close> are the operations \<open>tcp_ops\<close> of tokio.
\<close>

section \<open>Operations\<close>

record SocksClientConfig =
  cc_proxy_addr :: SocketAddr
  max_backoff_ms :: u64

datatype SocksClient = SocksClient (sc_config: SocksClientConfig)

definition SocksClient_new :: "SocksClientConfig \<Rightarrow> SocksClient" where
  "SocksClient_new config = SocksClient config"

text \<open>The last part of \<open>connect\<close>: the reply header and the bound address.\<close>

definition connect_reply :: "'w tcp_ops \<Rightarrow> nat \<Rightarrow> ('w, SocksError, nat) io" where
  "connect_reply io sock =
     bindE (mapE map_eof (read_exact io sock 4)) (\<lambda>hdr.
     if hdr ! 1 \<noteq> 0x00 then failE (ServerReply (hdr ! 1))
     else bindE (skip_bound_address io sock (hdr ! 3)) (\<lambda>_. retE sock))"

definition SocksClient_connect ::
  "'w tcp_ops \<Rightarrow> SocksClient \<Rightarrow> AddrSpec \<Rightarrow> u16 \<Rightarrow> ('w, SocksError, nat) io" where
  "SocksClient_connect io c target port =
     bindE (mapE SocksIo (tcp_connect io (cc_proxy_addr (sc_config c)))) (\<lambda>sock.
     bindE (mapE SocksIo (write_all io sock [0x05, 0x01, METHOD_NO_AUTH])) (\<lambda>_.
     bindE (mapE map_eof (read_exact io sock 2)) (\<lambda>resp.
     if resp ! 0 \<noteq> 0x05 then failE (InvalidSocksVersion (resp ! 0))
     else if resp ! 1 \<noteq> METHOD_NO_AUTH then failE AuthRejected
     else
       let req = encode_address target port [0x05, 0x01, 0x00] in
       bindE (mapE SocksIo (write_all io sock req)) (\<lambda>_.
       connect_reply io sock))))"

definition SocksClient_backoff_delay :: "u32 \<Rightarrow> u64" where
  "SocksClient_backoff_delay attempt =
     (let ms = saturating_mul 250 (saturating_pow 2 (saturating_sub attempt 1)) in min ms 30000)"

text \<open>The body of \<open>for attempt in 1..=max_attempts\<close>, over the attempts still to come. Falling out of
  the loop reaches \<open>unreachable!()\<close>, a panic.\<close>

fun retry_loop ::
  "'w tcp_ops \<Rightarrow> SocksClient \<Rightarrow> AddrSpec \<Rightarrow> u16 \<Rightarrow> u32 \<Rightarrow> u32 list \<Rightarrow> 'w \<Rightarrow> (SocksError + nat) option \<times> 'w" where
  "retry_loop io c target port max_attempts [] w = (None, w)"
| "retry_loop io c target port max_attempts (attempt # attempts) w =
     (case SocksClient_connect io c target port w of
        (Inr stream, w) \<Rightarrow> (Some (Inr stream), w)
      | (Inl e, w) \<Rightarrow>
          if attempt = max_attempts then (Some (Inl e), w)
          else
            let delay = SocksClient_backoff_delay attempt
            in retry_loop io c target port max_attempts attempts (sleep_ms io delay w))"

definition connect_with_retry ::
  "'w tcp_ops \<Rightarrow> SocksClient \<Rightarrow> AddrSpec \<Rightarrow> u16 \<Rightarrow> u32 \<Rightarrow> 'w \<Rightarrow> (SocksError + nat) option \<times> 'w" where
  "connect_with_retry io c target port max_attempts =
     retry_loop io c target port max_attempts (map word_of_nat [1..<Suc (unat max_attempts)])"

section \<open>The handshake as the proxy sees it\<close>

text \<open>A reply \<open>reply_bytes Succeeded local\<close> leaves its two address-dependent parts to
  \<open>skip_bound_address\<close>.\<close>

fun bound_atyp :: "IpAddr \<Rightarrow> u8" where
  "bound_atyp (V4 _) = 0x01"
| "bound_atyp (V6 _) = 0x04"

fun ip_octets :: "IpAddr \<Rightarrow> bytes" where
  "ip_octets (V4 ip) = ipv4_octets ip"
| "ip_octets (V6 ip) = ipv6_octets ip"

lemma reply_bytes_eq:
  "reply_bytes rep a =
     [SOCKS_VERSION, Rep_code rep, 0, bound_atyp (sa_ip a)] @ ip_octets (sa_ip a) @ to_be16 (sa_port a)"
  by (cases "sa_ip a") (simp_all add: reply_bytes_def Let_def)

lemma skip_bound_address_reads:
  assumes m: "stream_model io pend sent" and p: "pend w s = ip_octets ip @ to_be16 port @ rest"
  obtains w' where "skip_bound_address io s (bound_atyp ip) w = (Inr (), w')"
    and "pend w' = (pend w)(s := rest)" and "sent w' = sent w"
proof -
  let ?bs = "ip_octets ip @ to_be16 port"
  have "pend w s = ?bs @ rest" using p by simp
  from stream_read [OF m this refl] obtain w' where r: "read_exact io s (length ?bs) w = (Inr ?bs, w')"
    and w': "pend w' = (pend w)(s := rest)" "sent w' = sent w" .
  have "skip_bound_address io s (bound_atyp ip) w = (Inr (), w')"
    using r by (cases ip) (simp_all add: skip_bound_address_def io_simps)
  then show thesis using that w' by blast
qed

text \<open>What the client writes, and what it needs to read, to get its tunnel.\<close>

definition client_hello :: "AddrSpec \<Rightarrow> u16 \<Rightarrow> bytes" where
  "client_hello target port = [0x05, 0x01, 0x00] @ encode_address target port [0x05, 0x01, 0x00]"

lemma connect_greets:
  assumes m: "stream_model io pend sent"
    and c: "tcp_connect io (cc_proxy_addr (sc_config c)) w = (Inr sock, w1)"
    and p: "pend w1 sock = [0x05, 0x00] @ rest"
  obtains w' where "SocksClient_connect io c target port w = connect_reply io sock w'"
    and "pend w' = (pend w1)(sock := rest)"
    and "sent w' = (sent w1)(sock := sent w1 sock @ client_hello target port)"
proof -
  let ?req = "encode_address target port [0x05, 0x01, 0x00]"
  obtain w2 where r2: "write_all io sock [0x05, 0x01, METHOD_NO_AUTH] w1 = (Inr (), w2)"
    and w2: "sent w2 = (sent w1)(sock := sent w1 sock @ [0x05, 0x01, METHOD_NO_AUTH])" "pend w2 = pend w1"
    by (rule stream_write [OF m])
  have "pend w2 sock = [0x05, 0x00] @ rest" using p w2 by simp
  from stream_read [OF m this, of 2] obtain w3 where r3: "read_exact io sock 2 w2 = (Inr [0x05, 0x00], w3)"
    and w3: "pend w3 = (pend w2)(sock := rest)" "sent w3 = sent w2" by auto
  obtain w4 where r4: "write_all io sock ?req w3 = (Inr (), w4)"
    and w4: "sent w4 = (sent w3)(sock := sent w3 sock @ ?req)" "pend w4 = pend w3"
    by (rule stream_write [OF m])
  show thesis
    by (rule that [of w4])
      (use c r2 r3 r4 w2 w3 w4 in
        \<open>simp_all add: SocksClient_connect_def METHOD_NO_AUTH_def client_hello_def Let_def io_simps\<close>)
qed

lemma reply_header_read:
  assumes m: "stream_model io pend sent" and p: "pend w sock = reply_bytes rep bound @ rest"
  obtains w' where "read_exact io sock 4 w = (Inr [SOCKS_VERSION, Rep_code rep, 0, bound_atyp (sa_ip bound)], w')"
    and "pend w' = (pend w)(sock := ip_octets (sa_ip bound) @ to_be16 (sa_port bound) @ rest)" and "sent w' = sent w"
proof -
  have "pend w sock = [SOCKS_VERSION, Rep_code rep, 0, bound_atyp (sa_ip bound)] @
      ip_octets (sa_ip bound) @ to_be16 (sa_port bound) @ rest"
    using p by (simp add: reply_bytes_eq)
  from stream_read [OF m this, of 4] show thesis using that by auto
qed

lemma connect_completes:
  assumes m: "stream_model io pend sent"
    and c: "tcp_connect io (cc_proxy_addr (sc_config c)) w = (Inr sock, w1)"
    and p: "pend w1 sock = [0x05, 0x00] @ reply_bytes Succeeded bound @ rest"
  obtains w' where "SocksClient_connect io c target port w = (Inr sock, w')"
    and "pend w' = (pend w1)(sock := rest)"
    and "sent w' = (sent w1)(sock := sent w1 sock @ client_hello target port)"
proof -
  obtain w2 where r2: "SocksClient_connect io c target port w = connect_reply io sock w2"
    and w2: "pend w2 = (pend w1)(sock := reply_bytes Succeeded bound @ rest)"
      "sent w2 = (sent w1)(sock := sent w1 sock @ client_hello target port)"
    by (rule connect_greets [OF m c p])
  have "pend w2 sock = reply_bytes Succeeded bound @ rest" using w2 by simp
  from reply_header_read [OF m this] obtain w3
    where r3: "read_exact io sock 4 w2 = (Inr [SOCKS_VERSION, 0, 0, bound_atyp (sa_ip bound)], w3)"
      and w3: "pend w3 = (pend w2)(sock := ip_octets (sa_ip bound) @ to_be16 (sa_port bound) @ rest)" "sent w3 = sent w2"
    by auto
  have "pend w3 sock = ip_octets (sa_ip bound) @ to_be16 (sa_port bound) @ rest" using w3 by simp
  from skip_bound_address_reads [OF m this] obtain w4
    where r4: "skip_bound_address io sock (bound_atyp (sa_ip bound)) w3 = (Inr (), w4)"
      and w4: "pend w4 = (pend w3)(sock := rest)" "sent w4 = sent w3" .
  show thesis
    by (rule that [of w4]) (use r2 r3 r4 w2 w3 w4 in \<open>simp_all add: connect_reply_def io_simps\<close>)
qed

lemma connect_refused:
  assumes m: "stream_model io pend sent"
    and c: "tcp_connect io (cc_proxy_addr (sc_config c)) w = (Inr sock, w1)"
    and p: "pend w1 sock = [0x05, 0x00] @ reply_bytes rep bound @ rest" and rep: "rep \<noteq> Succeeded"
  shows "fst (SocksClient_connect io c target port w) = Inl (ServerReply (Rep_code rep))"
proof -
  obtain w2 where r2: "SocksClient_connect io c target port w = connect_reply io sock w2"
    and w2: "pend w2 = (pend w1)(sock := reply_bytes rep bound @ rest)"
    by (rule connect_greets [OF m c p])
  have "pend w2 sock = reply_bytes rep bound @ rest" using w2 by simp
  from reply_header_read [OF m this] obtain w3
    where "read_exact io sock 4 w2 = (Inr [SOCKS_VERSION, Rep_code rep, 0, bound_atyp (sa_ip bound)], w3)" .
  moreover have "Rep_code rep \<noteq> 0" using rep by (cases rep) simp_all
  ultimately show ?thesis using r2 by (simp add: connect_reply_def io_simps)
qed

lemma connect_closed:
  assumes m: "stream_model io pend sent"
    and c: "tcp_connect io (cc_proxy_addr (sc_config c)) w = (Inr sock, w1)" and p: "pend w1 sock = [0x05, 0x00]"
  shows "fst (SocksClient_connect io c target port w) = Inl PrematureEof"
proof -
  have "pend w1 sock = [0x05, 0x00] @ []" using p by simp
  from connect_greets [OF m c this] obtain w2 where r2: "SocksClient_connect io c target port w = connect_reply io sock w2"
    and w2: "pend w2 = (pend w1)(sock := [])" by blast
  have "length (pend w2 sock) < 4" using w2 by simp
  from stream_read_short [OF m this] obtain w3 where "read_exact io sock 4 w2 = (Inl UnexpectedEof, w3)" .
  then show ?thesis using r2 by (simp add: connect_reply_def map_eof_def io_simps)
qed

section \<open>The retry loop\<close>

text \<open>The world in which attempt \<open>k + 1\<close> starts, when all earlier ones have failed: each failure is
  followed by its delay.\<close>

fun attempt_world :: "'w tcp_ops \<Rightarrow> SocksClient \<Rightarrow> AddrSpec \<Rightarrow> u16 \<Rightarrow> 'w \<Rightarrow> nat \<Rightarrow> 'w" where
  "attempt_world io c target port w 0 = w"
| "attempt_world io c target port w (Suc k) =
     sleep_ms io (word_of_nat (min (250 * 2 ^ k) 30000))
       (snd (SocksClient_connect io c target port (attempt_world io c target port w k)))"

abbreviation attempt_result where
  "attempt_result io c target port w k \<equiv>
     fst (SocksClient_connect io c target port (attempt_world io c target port w k))"

lemma unat_attempt: "k \<le> unat (n :: u32) \<Longrightarrow> unat (word_of_nat k :: u32) = k"
  using unat_u32_less [of n] by (subst unsigned_of_nat) (simp add: take_bit_nat_eq_self)

lemma word_of_unat: "unat x = n \<Longrightarrow> word_of_nat n = x"
  by auto

lemma backoff_of_attempt:
  assumes "Suc k \<le> unat (n :: u32)"
  shows "SocksClient_backoff_delay (word_of_nat (Suc k)) = word_of_nat (min (250 * 2 ^ k) 30000)"
proof -
  have "unat (SocksClient_backoff_delay (word_of_nat (Suc k))) = min (250 * 2 ^ (unat (word_of_nat (Suc k) :: u32) - 1)) 30000"
    unfolding SocksClient_backoff_delay_def Let_def by (rule unat_backoff_ms)
  also have "\<dots> = min (250 * 2 ^ k) 30000" using unat_attempt [OF assms] by simp
  finally show ?thesis by (rule word_of_unat [symmetric])
qed

lemma retry_loop_from:
  assumes "k < unat n"
  shows "\<exists>j\<ge>k. j < unat n \<and> (\<forall>i. k \<le> i \<and> i < j \<longrightarrow> isl (attempt_result io c target port w i)) \<and>
     (isl (attempt_result io c target port w j) \<longrightarrow> Suc j = unat n) \<and>
     retry_loop io c target port n (map word_of_nat [Suc k..<Suc (unat n)]) (attempt_world io c target port w k) =
       (Some (attempt_result io c target port w j),
        snd (SocksClient_connect io c target port (attempt_world io c target port w j)))"
  using assms
proof (induction "unat n - Suc k" arbitrary: k)
  case 0
  then have k: "Suc k = unat n" by simp
  then have "word_of_nat (Suc k) = n" by (intro word_of_unat) simp
  then show ?case using k
    by (intro exI [of _ k]) (auto split: prod.split sum.split)
next
  case (Suc d)
  obtain r w1 where r: "SocksClient_connect io c target port (attempt_world io c target port w k) = (r, w1)"
    by fastforce
  have upt: "map word_of_nat [Suc k..<Suc (unat n)] = (word_of_nat (Suc k) :: u32) # map word_of_nat [Suc (Suc k)..<Suc (unat n)]"
    using Suc.prems by (simp add: upt_conv_Cons del: upt_Suc)
  show ?case
  proof (cases r)
    case (Inr s)
    then show ?thesis using r upt Suc.prems by (intro exI [of _ k]) auto
  next
    case (Inl e)
    have ne: "(word_of_nat (Suc k) :: u32) \<noteq> n"
      using unat_attempt [of "Suc k" n] Suc.hyps(2) Suc.prems by auto
    have w: "attempt_world io c target port w (Suc k) = sleep_ms io (SocksClient_backoff_delay (word_of_nat (Suc k))) w1"
      using backoff_of_attempt [of k n] Suc.prems r by simp
    have "Suc k < unat n" and "d = unat n - Suc (Suc k)" using Suc.hyps(2) by simp_all
    from Suc.hyps(1) [OF this(2,1)] obtain j where j: "Suc k \<le> j" "j < unat n"
      "\<forall>i. Suc k \<le> i \<and> i < j \<longrightarrow> isl (attempt_result io c target port w i)"
      "isl (attempt_result io c target port w j) \<longrightarrow> Suc j = unat n"
      "retry_loop io c target port n (map word_of_nat [Suc (Suc k)..<Suc (unat n)]) (attempt_world io c target port w (Suc k)) =
         (Some (attempt_result io c target port w j),
          snd (SocksClient_connect io c target port (attempt_world io c target port w j)))"
      by blast
    moreover have "isl (attempt_result io c target port w i)" if "k \<le> i \<and> i < j" for i
      using j(3) that r Inl by (cases "i = k") auto
    ultimately show ?thesis
      using r Inl ne w upt by (intro exI [of _ j]) (simp add: Let_def del: upt_Suc attempt_world.simps)
  qed
qed

lemma connect_with_retry_result:
  assumes "0 < unat n"
  shows "\<exists>j < unat n. (\<forall>i<j. isl (attempt_result io c target port w i)) \<and>
     (isl (attempt_result io c target port w j) \<longrightarrow> Suc j = unat n) \<and>
     connect_with_retry io c target port n w =
       (Some (attempt_result io c target port w j),
        snd (SocksClient_connect io c target port (attempt_world io c target port w j)))"
  using retry_loop_from [OF assms, of io c target port w]
  by (auto simp: connect_with_retry_def simp del: upt_Suc)

text \<open>C33: connecting with retries ends after at most \<open>max_attempts\<close> attempts and connects as soon as
  the proxy lets it: if attempt \<open>k + 1\<close> is within the limit and is the first that succeeds, its
  stream is returned; if all fail, the error of the last one is. Between attempts \<open>i\<close> and \<open>i + 1\<close> the
  client sleeps \<open>min (250 * 2 ^ (i - 1)) 30000\<close> ms, and there is no sleep after the last. A limit of 0
  panics at \<open>unreachable!()\<close>.\<close>

theorem retry_connects_eventually:
  "(\<forall>k stream. k < unat max_attempts \<and> (\<forall>i<k. isl (attempt_result io c target port w i)) \<and>
      attempt_result io c target port w k = Inr stream \<longrightarrow>
      connect_with_retry io c target port max_attempts w =
        (Some (Inr stream), snd (SocksClient_connect io c target port (attempt_world io c target port w k)))) \<and>
   (\<forall>k. Suc k = unat max_attempts \<and> (\<forall>i\<le>k. isl (attempt_result io c target port w i)) \<longrightarrow>
      connect_with_retry io c target port max_attempts w =
        (Some (attempt_result io c target port w k),
         snd (SocksClient_connect io c target port (attempt_world io c target port w k)))) \<and>
   (max_attempts = 0 \<longrightarrow> connect_with_retry io c target port max_attempts w = (None, w))"
proof (intro conjI allI impI)
  assume "max_attempts = 0"
  then show "connect_with_retry io c target port max_attempts w = (None, w)"
    by (simp add: connect_with_retry_def)
next
  fix k stream
  assume k: "k < unat max_attempts \<and> (\<forall>i<k. isl (attempt_result io c target port w i)) \<and>
      attempt_result io c target port w k = Inr stream"
  from connect_with_retry_result [of max_attempts io c target port w] k obtain j where j: "j < unat max_attempts"
    "\<forall>i<j. isl (attempt_result io c target port w i)"
    "isl (attempt_result io c target port w j) \<longrightarrow> Suc j = unat max_attempts"
    "connect_with_retry io c target port max_attempts w = (Some (attempt_result io c target port w j),
        snd (SocksClient_connect io c target port (attempt_world io c target port w j)))"
    by auto
  have "\<not> j < k" using k j(3) by (auto simp: less_Suc_eq)
  moreover have "\<not> k < j" using k j(2) by force
  ultimately show "connect_with_retry io c target port max_attempts w =
      (Some (Inr stream), snd (SocksClient_connect io c target port (attempt_world io c target port w k)))"
    using j(4) k by (simp add: linorder_neq_iff)
next
  fix k assume k: "Suc k = unat max_attempts \<and> (\<forall>i\<le>k. isl (attempt_result io c target port w i))"
  from connect_with_retry_result [of max_attempts io c target port w] k obtain j where j: "j < unat max_attempts"
    "isl (attempt_result io c target port w j) \<longrightarrow> Suc j = unat max_attempts"
    "connect_with_retry io c target port max_attempts w = (Some (attempt_result io c target port w j),
        snd (SocksClient_connect io c target port (attempt_world io c target port w j)))"
    by auto
  have "j = k" using k j(1,2) by auto
  then show "connect_with_retry io c target port max_attempts w = (Some (attempt_result io c target port w k),
      snd (SocksClient_connect io c target port (attempt_world io c target port w k)))"
    using j(3) by simp
qed

text \<open>A proxy that refuses the first connection and takes the second: the world counts the attempts
  and adds up the sleep.\<close>

definition flaky :: "(nat \<times> u64) tcp_ops" where
  "flaky = \<lparr>read_exact = \<lambda>s n w. (Inr (if n = 2 then [5, 0] else if n = 4 then [5, 0, 0, 1] else replicate n 0), w),
     read_some = \<lambda>s n w. (Inr [], w), write_all = \<lambda>s bs w. (Inr (), w),
     tcp_bind = \<lambda>a w. (Inr 0, w), tcp_connect = \<lambda>a (n, d). (if n = 0 then Inl KindConnectionRefused else Inr 7, (Suc n, d)),
     tcp_local_addr = \<lambda>s w. (Inl KindOther, w), tcp_shutdown = \<lambda>s w. w, lookup_host = \<lambda>h p w. (Inr [], w),
     connect_host = \<lambda>h p w. (Inl KindOther, w), relay_copy = \<lambda>a b w. w, sleep_ms = \<lambda>ms (n, d). (n, d + ms)\<rparr>"

theorem retry_connects_eventually_witness:
  "connect_with_retry flaky (SocksClient \<lparr>cc_proxy_addr = SocketAddr (V4 (Ipv4Addr 10 0 0 1)) 1080, max_backoff_ms = 30000\<rparr>)
     (AddrIpv4 (Ipv4Addr 1 2 3 4)) 80 5 (0, 0) = (Some (Inr 7), (2, 250))"
proof -
  let ?c = "SocksClient \<lparr>cc_proxy_addr = SocketAddr (V4 (Ipv4Addr 10 0 0 1)) 1080, max_backoff_ms = 30000\<rparr>"
  let ?a = "AddrIpv4 (Ipv4Addr 1 2 3 4)"
  note defs = SocksClient_connect_def connect_reply_def flaky_def bindE_def mapE_def failE_def retE_def Let_def METHOD_NO_AUTH_def
    skip_bound_address_def
  have 0: "SocksClient_connect flaky ?c ?a 80 (0, 0) = (Inl (SocksIo KindConnectionRefused), (1, 0))"
    by (simp add: defs)
  have 1: "SocksClient_connect flaky ?c ?a 80 (1, 250) = (Inr 7, (2, 250))"
    by (simp add: defs)
  have w1: "attempt_world flaky ?c ?a 80 (0, 0) 1 = (1, 250)"
    using 0 by (simp add: flaky_def)
  have "1 < unat (5 :: u32) \<and> (\<forall>i<1. isl (attempt_result flaky ?c ?a 80 (0, 0) i)) \<and>
      attempt_result flaky ?c ?a 80 (0, 0) 1 = Inr 7"
    using 0 1 w1 by simp
  then have "connect_with_retry flaky ?c ?a 80 5 (0, 0) =
      (Some (Inr 7), snd (SocksClient_connect flaky ?c ?a 80 (attempt_world flaky ?c ?a 80 (0, 0) 1)))"
    using retry_connects_eventually [of 5 flaky ?c ?a 80 "(0, 0)"] by blast
  then show ?thesis using w1 1 by simp
qed

end
