(* ===== verification/Accept_Loop.thy ===== *)
theory Accept_Loop
  imports Io
begin

text \<open>
  The \<open>select!\<close> loop both proxy servers run: it takes the next connection or the next change of the
  shutdown flag, whichever comes first. What the loop observes is a list of events; each server's own
  loop is a function on it, and the locale \<open>accept_loop\<close> holds what follows for every such loop.
\<close>

datatype loop_event =
    Accepted nat SocketAddr
  | AcceptFailed IoKind
  | ShutdownChanged bool

fun accepted :: "loop_event list \<Rightarrow> (nat \<times> SocketAddr) list" where
  "accepted [] = []"
| "accepted (Accepted s peer # evs) = (s, peer) # accepted evs"
| "accepted (_ # evs) = accepted evs"

lemma accepted_append: "accepted (xs @ ys) = accepted xs @ accepted ys"
  by (induction xs rule: accepted.induct) auto

locale accept_loop =
  fixes loop :: "loop_event list \<Rightarrow> 'r option \<times> 't list"
    and task :: "nat \<Rightarrow> SocketAddr \<Rightarrow> 't"
    and result :: 'r
  assumes loop_nil: "loop [] = (None, [])"
    and loop_accepted: "loop (Accepted s peer # evs) = apsnd (Cons (task s peer)) (loop evs)"
    and loop_failed: "loop (AcceptFailed e # evs) = loop evs"
    and loop_go_on: "loop (ShutdownChanged False # evs) = loop evs"
    and loop_stop: "loop (ShutdownChanged True # evs) = (Some result, [])"
begin

lemma loop_characterised:
  "loop evs = (if ShutdownChanged True \<in> set evs then Some result else None,
     map (\<lambda>(s, peer). task s peer) (accepted (takeWhile (\<lambda>e. e \<noteq> ShutdownChanged True) evs)))"
proof (induction evs)
  case Nil
  then show ?case by (simp add: loop_nil)
next
  case (Cons e evs)
  then show ?case
  proof (cases e)
    case (ShutdownChanged v)
    then show ?thesis using Cons by (cases v) (simp_all add: loop_go_on loop_stop)
  qed (simp_all add: loop_accepted loop_failed Cons.IH)
qed

lemma loop_runs_without_shutdown:
  assumes "ShutdownChanged True \<notin> set evs"
  shows "loop evs = (None, map (\<lambda>(s, peer). task s peer) (accepted evs))"
proof -
  have "takeWhile (\<lambda>e. e \<noteq> ShutdownChanged True) evs = evs" using assms by (auto simp: takeWhile_eq_all_conv)
  then show ?thesis using assms by (simp only: loop_characterised if_False)
qed

lemma loop_stops:
  assumes "ShutdownChanged True \<notin> set evs"
  shows "loop (evs @ ShutdownChanged True # later) =
    (Some result, map (\<lambda>(s, peer). task s peer) (accepted evs))"
proof -
  have "takeWhile (\<lambda>e. e \<noteq> ShutdownChanged True) (evs @ ShutdownChanged True # later) = evs"
    using assms by (auto simp: takeWhile_append takeWhile_eq_all_conv)
  then show ?thesis by (simp add: loop_characterised)
qed

end

end
