(* ===== verification/Socks_Server.thy ===== *)
theory Socks_Server
  imports Socks_Client Accept_Loop
begin

text \<open>
  The SOCKS5 server of \<open>gravital-socks/src/server.rs\<close>: the accept loop, the handling of one connection
  with its three commands, the UDP relay and the TCP relay; and the client of \<open>client.rs\<close> talking to it.
  The UDP sockets of the relay belong to tokio: their operations are the fields of \<open>udp_sock_ops\<close>.
\<close>

section \<open>Configuration and the accept loop\<close>

record SocksServerConfig =
  srv_bind_addr :: SocketAddr
  srv_auth_enabled :: bool
  handshake_timeout_secs :: u64

definition SocksServerConfig_default :: SocksServerConfig where
  "SocksServerConfig_default =
     \<lparr>srv_bind_addr = SocketAddr (V4 (Ipv4Addr 0 0 0 0)) 1080, srv_auth_enabled = False,
      handshake_timeout_secs = 30\<rparr>"

datatype SocksServer = SocksServer (srv_config: SocksServerConfig)

definition SocksServer_new :: "SocksServerConfig \<Rightarrow> SocksServer" where
  "SocksServer_new config = SocksServer config"

text \<open>A spawned task is the socket, the peer and the configuration it handles. The result is \<open>None\<close>
  while the loop runs.\<close>

type_synonym socks_task = "nat \<times> SocketAddr \<times> SocksServerConfig"

fun socks_loop :: "SocksServerConfig \<Rightarrow> loop_event list \<Rightarrow> (SocksError + unit) option \<times> socks_task list" where
  "socks_loop cfg [] = (None, [])"
| "socks_loop cfg (Accepted stream peer # evs) =
     (case socks_loop cfg evs of (r, tasks) \<Rightarrow> (r, (stream, peer, cfg) # tasks))"
| "socks_loop cfg (AcceptFailed e # evs) = socks_loop cfg evs"
| "socks_loop cfg (ShutdownChanged v # evs) = (if v then (Some (Inr ()), []) else socks_loop cfg evs)"

definition SocksServer_run ::
  "'w tcp_ops \<Rightarrow> SocksServer \<Rightarrow> loop_event list \<Rightarrow> 'w \<Rightarrow> (SocksError + unit) option \<times> socks_task list \<times> 'w" where
  "SocksServer_run io s evs w =
     (case tcp_bind io (srv_bind_addr (srv_config s)) w of
        (Inl e, w) \<Rightarrow> (Some (Inl (SocksIo e)), [], w)
      | (Inr listener, w) \<Rightarrow> (case socks_loop (srv_config s) evs of (r, tasks) \<Rightarrow> (r, tasks, w)))"

interpretation socks_accept: accept_loop "socks_loop cfg" "\<lambda>s peer. (s, peer, cfg)" "Inr ()" for cfg
  by unfold_locales (auto split: prod.splits)

section \<open>One connection\<close>

definition zero_addr :: SocketAddr where
  "zero_addr = SocketAddr (V4 (Ipv4Addr 0 0 0 0)) 0"

definition relay_bidirectional :: "'w tcp_ops \<Rightarrow> nat \<Rightarrow> nat \<Rightarrow> ('w, SocksError, unit) io" where
  "relay_bidirectional io a b w = (Inr (), relay_copy io a b w)"

definition connect_rep :: "IoKind \<Rightarrow> Rep" where
  "connect_rep e =
     (case e of KindConnectionRefused \<Rightarrow> ConnectionRefused | KindTimedOut \<Rightarrow> TtlExpired | _ \<Rightarrow> HostUnreachable)"

definition handle_connect :: "'w tcp_ops \<Rightarrow> nat \<Rightarrow> Request \<Rightarrow> ('w, SocksError, unit) io" where
  "handle_connect io client req =
     bindE (to_socket_addr io (req_addr req) (req_port req)) (\<lambda>target w.
       case tcp_connect io target w of
         (Inl e, w) \<Rightarrow>
           bindE (send_reply io client (connect_rep e) zero_addr) (\<lambda>_. failE (Upstream e)) w
       | (Inr upstream, w) \<Rightarrow>
           bindE (mapE SocksIo (tcp_local_addr io upstream)) (\<lambda>local.
           bindE (send_reply io client Succeeded local) (\<lambda>_.
           relay_bidirectional io client upstream)) w)"

section \<open>The UDP relay\<close>

record 'w udp_sock_ops =
  us_bind :: "SocketAddr \<Rightarrow> ('w, IoKind, nat) io"
  us_local_addr :: "nat \<Rightarrow> ('w, IoKind, SocketAddr) io"
  us_send_to :: "nat \<Rightarrow> bytes \<Rightarrow> SocketAddr \<Rightarrow> ('w, IoKind, nat) io"

text \<open>What the \<open>select!\<close> of \<open>relay_udp\<close> observes, in order: the outcome of a receive into the buffer
  of 65535 bytes, or the stop notification. The relay is pending while there are no more events.\<close>

datatype RelayEvent = Received "IoKind + bytes \<times> SocketAddr" | StopNotified

datatype RelayEnd = RelayPending | RelayPanic | RelayReturned "SocksError + unit"

fun relay_udp ::
  "'w tcp_ops \<Rightarrow> 'w udp_sock_ops \<Rightarrow> (SocketAddr \<Rightarrow> SocketAddr option) \<Rightarrow> RelayEvent list \<Rightarrow> 'w \<Rightarrow>
     RelayEnd \<times> (SocketAddr \<Rightarrow> SocketAddr option) \<times> 'w" where
  "relay_udp io us assocs [] w = (RelayPending, assocs, w)"
| "relay_udp io us assocs (StopNotified # evs) w = (RelayReturned (Inr ()), assocs, w)"
| "relay_udp io us assocs (Received (Inl e) # evs) w = (RelayReturned (Inl (SocksIo e)), assocs, w)"
| "relay_udp io us assocs (Received (Inr (datagram, peer)) # evs) w =
     (let buf = take 65535 datagram
      in case parse_udp_datagram buf of
           None \<Rightarrow> (RelayPanic, assocs, w)
         | Some (Inl e) \<Rightarrow> (RelayReturned (Inl e), assocs, w)
         | Some (Inr hdr) \<Rightarrow>
             if uh_frag hdr \<noteq> 0 then relay_udp io us assocs evs w
             else
               (case to_socket_addr io (uh_addr hdr) (uh_port hdr) w of
                  (Inl e, w) \<Rightarrow> (RelayReturned (Inl e), assocs, w)
                | (Inr target, w) \<Rightarrow>
                    (case subslice buf (payload_offset hdr) (length buf) of
                       None \<Rightarrow> (RelayPanic, assocs, w)
                     | Some payload \<Rightarrow>
                         (case us_bind us zero_addr w of
                            (Inl _, w) \<Rightarrow> relay_udp io us (assocs(target \<mapsto> peer)) evs w
                          | (Inr out_sock, w) \<Rightarrow>
                              relay_udp io us (assocs(target \<mapsto> peer)) evs
                                (snd (us_send_to us out_sock payload target w))))))"

text \<open>\<open>received\<close> is what the relay task receives before it sees the notification that follows the end of
  the control connection. Its result is dropped.\<close>

definition handle_udp_associate ::
  "'w tcp_ops \<Rightarrow> 'w udp_sock_ops \<Rightarrow> (IoKind + bytes \<times> SocketAddr) list \<Rightarrow> nat \<Rightarrow> ('w, SocksError, unit) io" where
  "handle_udp_associate io us received client_tcp =
     bindE (mapE SocksIo (us_bind us zero_addr)) (\<lambda>udp.
     bindE (mapE SocksIo (us_local_addr us udp)) (\<lambda>local.
     bindE (send_reply io client_tcp Succeeded local) (\<lambda>_ w.
       case relay_udp io us Map.empty (map Received received @ [StopNotified]) w of
         (_, _, w) \<Rightarrow> (case read_some io client_tcp 1 w of (_, w) \<Rightarrow> (Inr (), w)))))"

text \<open>The method negotiated does not change what follows.\<close>

definition handle_connection ::
  "'w tcp_ops \<Rightarrow> 'w udp_sock_ops \<Rightarrow> (IoKind + bytes \<times> SocketAddr) list \<Rightarrow> nat \<Rightarrow> SocksServerConfig \<Rightarrow>
     ('w, SocksError, unit) io" where
  "handle_connection io us received sock cfg =
     bindE (negotiate_method io sock (srv_auth_enabled cfg)) (\<lambda>method.
     bindE (read_request io sock) (\<lambda>req.
     case req_cmd req of
       Connect \<Rightarrow> handle_connect io sock req
     | UdpAssociate \<Rightarrow> handle_udp_associate io us received sock
     | Bind \<Rightarrow> bindE (send_reply io sock CommandNotSupported zero_addr) (\<lambda>_. retE ())))"

section \<open>Client and server\<close>

lemma negotiate_no_auth:
  assumes m: "stream_model io pend sent" and p: "pend w s = [0x05, 0x01, 0x00] @ rest"
  obtains w' where "negotiate_method io s auth w = (Inr METHOD_NO_AUTH, w')"
    and "pend w' = (pend w)(s := rest)" and "sent w' = (sent w)(s := sent w s @ [0x05, 0x00])"
proof -
  have "pend w s = [0x05, 0x01] @ 0x00 # rest" using p by simp
  from stream_read [OF m this, of 2] obtain w1 where r1: "read_exact io s 2 w = (Inr [0x05, 0x01], w1)"
    and w1: "pend w1 = (pend w)(s := 0x00 # rest)" "sent w1 = sent w" by auto
  have "pend w1 s = [0x00] @ rest" using w1 by simp
  from stream_read [OF m this, of 1] obtain w2 where r2: "read_exact io s 1 w1 = (Inr [0x00], w2)"
    and w2: "pend w2 = (pend w1)(s := rest)" "sent w2 = sent w1" by auto
  obtain w3 where r3: "write_all io s [0x05, 0x00] w2 = (Inr (), w3)"
    and w3: "sent w3 = (sent w2)(s := sent w2 s @ [0x05, 0x00])" "pend w3 = pend w2"
    by (rule stream_write [OF m])
  show thesis
    by (rule that [of w3])
      (use r1 r2 r3 w1 w2 w3 in \<open>simp_all add: negotiate_method_def SOCKS_VERSION_def METHOD_NO_AUTH_def Let_def io_simps\<close>)
qed

lemma send_reply_writes:
  assumes "stream_model io pend sent"
  obtains w' where "send_reply io s rep a w = (Inr (), w')"
    and "sent w' = (sent w)(s := sent w s @ reply_bytes rep a)" and "pend w' = pend w"
proof -
  obtain w' where "write_all io s (reply_bytes rep a) w = (Inr (), w')"
    "sent w' = (sent w)(s := sent w s @ reply_bytes rep a)" "pend w' = pend w"
    by (rule stream_write [OF assms])
  then show thesis using that by (simp add: send_reply_def io_simps)
qed

lemma hello_served:
  assumes m: "stream_model io pend sent" and ok: "addr_ok target"
    and p: "pend w s = client_hello target port @ data"
  obtains w' where "handle_connection io us received s cfg w =
      handle_connect io s \<lparr>req_cmd = Connect, req_addr = target, req_port = port\<rparr> w'"
    and "pend w' = (pend w)(s := data)" and "sent w' = (sent w)(s := sent w s @ [0x05, 0x00])"
proof -
  let ?req = "encode_address target port [0x05, 0x01, 0x00]"
  have "pend w s = [0x05, 0x01, 0x00] @ ?req @ data" using p by (simp add: client_hello_def)
  from negotiate_no_auth [OF m this] obtain w1 where r1: "negotiate_method io s (srv_auth_enabled cfg) w = (Inr METHOD_NO_AUTH, w1)"
    and w1: "pend w1 = (pend w)(s := ?req @ data)" "sent w1 = (sent w)(s := sent w s @ [0x05, 0x00])" by blast
  have "pend w1 s = encode_address target port [SOCKS_VERSION, 0x01, 0x00] @ data"
    using w1 by (simp add: SOCKS_VERSION_def)
  moreover have "Cmd_try_from 0x01 = Inr Connect" by (simp add: Cmd_try_from_def)
  ultimately obtain w2 where r2: "read_request io s w1 = (Inr \<lparr>req_cmd = Connect, req_addr = target, req_port = port\<rparr>, w2)"
    and w2: "pend w2 = (pend w1)(s := data)" "sent w2 = sent w1"
    using read_request_encoded [OF m ok] by blast
  show thesis
    by (rule that [of w2]) (use r1 r2 w1 w2 in \<open>simp_all add: handle_connection_def io_simps\<close>)
qed

text \<open>The network of the server reaches the target: the name resolves, the connection opens.\<close>

definition reaches :: "'w tcp_ops \<Rightarrow> AddrSpec \<Rightarrow> u16 \<Rightarrow> SocketAddr \<Rightarrow> nat \<Rightarrow> SocketAddr \<Rightarrow> bool" where
  "reaches io target port dst up local \<longleftrightarrow>
     (\<forall>w. fst (to_socket_addr io target port w) = Inr dst \<and> fst (tcp_connect io dst w) = Inr up \<and>
          fst (tcp_local_addr io up w) = Inr local)"

lemma to_socket_addr_frame:
  assumes "frame_model io pend sent" and "to_socket_addr io a port w = (r, w')"
  shows "pend w' = pend w \<and> sent w' = sent w"
proof (cases a)
  case (Domain h)
  obtain q w1 where q: "lookup_host io h port w = (q, w1)" by fastforce
  then have "w' = w1"
    using assms(2) Domain by (auto simp: to_socket_addr_def bindE_def mapE_def retE_def failE_def split: sum.splits list.splits)
  then show ?thesis using frame_model_D(3) [OF assms(1) q] by simp
qed (use assms(2) in \<open>auto simp: to_socket_addr_def retE_def\<close>)

lemma handle_connect_relays:
  assumes m: "stream_model io pend sent" and f: "frame_model io pend sent" and rm: "relay_model io pend sent"
    and n: "reaches io (req_addr req) (req_port req) dst up local" and ne: "s \<noteq> up"
  obtains w' where "handle_connect io s req w = (Inr (), w')"
    and "sent w' = (sent w)(s := sent w s @ reply_bytes Succeeded local @ pend w up, up := sent w up @ pend w s)"
proof -
  obtain w1 where r1: "to_socket_addr io (req_addr req) (req_port req) w = (Inr dst, w1)"
    using n by (metis reaches_def prod.collapse)
  obtain w2 where r2: "tcp_connect io dst w1 = (Inr up, w2)" using n by (metis reaches_def prod.collapse)
  obtain w3 where r3: "tcp_local_addr io up w2 = (Inr local, w3)" using n by (metis reaches_def prod.collapse)
  have w1: "pend w1 = pend w" "sent w1 = sent w" using to_socket_addr_frame [OF f r1] by simp_all
  have w2: "pend w2 = pend w1" "sent w2 = sent w1" using frame_model_D(1) [OF f r2] by simp_all
  have w3: "pend w3 = pend w2" "sent w3 = sent w2" using frame_model_D(2) [OF f r3] by simp_all
  obtain w4 where r4: "send_reply io s Succeeded local w3 = (Inr (), w4)"
    and w4: "sent w4 = (sent w3)(s := sent w3 s @ reply_bytes Succeeded local)" "pend w4 = pend w3"
    by (rule send_reply_writes [OF m])
  have w5: "sent (relay_copy io s up w4) = (sent w4)(s := sent w4 s @ pend w4 up, up := sent w4 up @ pend w4 s)"
    by (rule relay_model_D [OF rm ne])
  show thesis
    by (rule that [of "relay_copy io s up w4"])
      (use r1 r2 r3 r4 w1 w2 w3 w4 w5 ne in
        \<open>simp_all add: handle_connect_def relay_bidirectional_def io_simps fun_upd_twist\<close>)
qed

lemma hello_relayed:
  assumes "stream_model ios pends sents" and "frame_model ios pends sents" and "relay_model ios pends sents"
    and "reaches ios target port dst up local" and "s \<noteq> up" and "addr_ok target"
    and "pends ws s = client_hello target port @ data"
  obtains ws' where "handle_connection ios us received s cfg ws = (Inr (), ws')"
    and "sents ws' s = sents ws s @ [0x05, 0x00] @ reply_bytes Succeeded local @ pends ws up"
    and "sents ws' up = sents ws up @ data"
proof -
  let ?req = "\<lparr>req_cmd = Connect, req_addr = target, req_port = port\<rparr>"
  obtain w1 where r1: "handle_connection ios us received s cfg ws = handle_connect ios s ?req w1"
    and w1: "pends w1 = (pends ws)(s := data)" "sents w1 = (sents ws)(s := sents ws s @ [0x05, 0x00])"
    by (rule hello_served [OF assms(1,6,7)])
  have n: "reaches ios (req_addr ?req) (req_port ?req) dst up local" using assms(4) by simp
  obtain ws' where r2: "handle_connect ios s ?req w1 = (Inr (), ws')"
    and ws': "sents ws' = (sents w1)(s := sents w1 s @ reply_bytes Succeeded local @ pends w1 up, up := sents w1 up @ pends w1 s)"
    by (rule handle_connect_relays [OF assms(1-3) n assms(5)])
  show thesis by (rule that [of ws']) (use r1 r2 w1 ws' assms(5) in simp_all)
qed

text \<open>C8: the client and the server of the crate understand each other. Given the bytes the client
  writes for a target, the server connects to that target, answers, and relays; given the bytes the
  server answers, the client returns its stream. Behind the handshake both sides are transparent:
  the upstream server is sent exactly what the client sent after its request, and the stream the
  client gets holds exactly what the upstream server sent. This holds for every address the length
  byte can carry and for every configuration: a client that offers no authentication is served even
  when \<open>auth_enabled\<close> is set.\<close>

theorem socks_tunnel_established:
  assumes "stream_model ios pends sents" and "frame_model ios pends sents" and "relay_model ios pends sents"
    and "reaches ios target port dst up local" and "s \<noteq> up" and "addr_ok target"
    and "pends ws s = client_hello target port @ data"
    and "stream_model ioc pendc sentc" and "tcp_connect ioc (cc_proxy_addr (sc_config c)) wc = (Inr sock, wc1)"
    and "pendc wc1 sock = [0x05, 0x00] @ reply_bytes Succeeded local @ pends ws up"
  shows "\<exists>ws' wc'. handle_connection ios us received s cfg ws = (Inr (), ws') \<and>
     sents ws' s = sents ws s @ [0x05, 0x00] @ reply_bytes Succeeded local @ pends ws up \<and>
     sents ws' up = sents ws up @ data \<and>
     SocksClient_connect ioc c target port wc = (Inr sock, wc') \<and>
     sentc wc' sock = sentc wc1 sock @ client_hello target port \<and> pendc wc' sock = pends ws up"
proof -
  obtain ws' where rs: "handle_connection ios us received s cfg ws = (Inr (), ws')"
    and ws': "sents ws' s = sents ws s @ [0x05, 0x00] @ reply_bytes Succeeded local @ pends ws up"
      "sents ws' up = sents ws up @ data"
    by (rule hello_relayed [OF assms(1-7)])
  obtain wc' where rc: "SocksClient_connect ioc c target port wc = (Inr sock, wc')"
    and wc': "pendc wc' = (pendc wc1)(sock := pends ws up)"
      "sentc wc' = (sentc wc1)(sock := sentc wc1 sock @ client_hello target port)"
    by (rule connect_completes [OF assms(8,9,10)])
  show ?thesis using rs rc ws' wc' by auto
qed

text \<open>Both ends on the concrete network, for \<open>example.org:80\<close> as the address 93.184.216.34.\<close>

theorem socks_tunnel_established_witness:
  "\<exists>ws'. handle_connection demo_tcp
       \<lparr>us_bind = \<lambda>_. failE KindOther, us_local_addr = \<lambda>_. failE KindOther, us_send_to = \<lambda>_ _ _. failE KindOther\<rparr>
       [] 0 SocksServerConfig_default
       (\<lambda>s. if s = 0 then client_hello (AddrIpv4 (Ipv4Addr 93 184 216 34)) 80 @ [71, 69, 84] else [79, 75], \<lambda>_. [])
       = (Inr (), ws') \<and> snd ws' 1 = [71, 69, 84]"
proof -
  let ?t = "AddrIpv4 (Ipv4Addr 93 184 216 34)" and ?l = "SocketAddr (V4 (Ipv4Addr 10 0 0 1)) 40000"
  let ?ws = "(\<lambda>s. if s = (0::nat) then client_hello (AddrIpv4 (Ipv4Addr 93 184 216 34)) 80 @ [71, 69, 84] else [79, 75], \<lambda>_::nat. [] :: bytes)"
  let ?wc = "(\<lambda>s::nat. [0x05, 0x00] @ reply_bytes Succeeded ?l @ [79, 75], \<lambda>_::nat. [] :: bytes)"
  have n: "reaches demo_tcp ?t 80 (SocketAddr (V4 (Ipv4Addr 93 184 216 34)) 80) 1 ?l"
    by (simp add: reaches_def to_socket_addr_def demo_tcp_def retE_def)
  have c: "tcp_connect demo_tcp (cc_proxy_addr (sc_config (SocksClient \<lparr>cc_proxy_addr = ?l, max_backoff_ms = 30000\<rparr>))) ?wc = (Inr 1, ?wc)"
    by (simp add: demo_tcp_def retE_def)
  show ?thesis
    using socks_tunnel_established [OF demo_stream_model demo_frame_model demo_relay_model n _ _ _ demo_stream_model c,
        where ws = ?ws and s = 0 and data = "[71, 69, 84]" and cfg = SocksServerConfig_default and received = "[]"
          and us = "\<lparr>us_bind = \<lambda>_. failE KindOther, us_local_addr = \<lambda>_. failE KindOther, us_send_to = \<lambda>_ _ _. failE KindOther\<rparr>"]
    by auto
qed

text \<open>C32: a target that cannot be reached is reported to the client. When the connection to the target
  fails, the server answers with the code for the failure (5 refused, 6 timed out, 4 for everything
  else), relays nothing, and the client's \<open>connect\<close> returns that code as its error. When the name of
  the target does not resolve the server sends no reply at all, and the client sees only the stream
  end.\<close>

theorem socks_failure_reported:
  assumes "stream_model ios pends sents" and "frame_model ios pends sents" and "addr_ok target"
    and "pends ws s = client_hello target port @ data"
    and "stream_model ioc pendc sentc" and "tcp_connect ioc (cc_proxy_addr (sc_config c)) wc = (Inr sock, wc1)"
  shows "(\<forall>dst e. (\<forall>w. fst (to_socket_addr ios target port w) = Inr dst \<and> fst (tcp_connect ios dst w) = Inl e) \<and>
        pendc wc1 sock = [0x05, 0x00] @ reply_bytes (connect_rep e) zero_addr \<longrightarrow>
      (\<exists>ws'. handle_connection ios us received s cfg ws = (Inl (Upstream e), ws') \<and>
         sents ws' = (sents ws)(s := sents ws s @ [0x05, 0x00] @ reply_bytes (connect_rep e) zero_addr)) \<and>
      fst (SocksClient_connect ioc c target port wc) =
        Inl (ServerReply (case e of KindConnectionRefused \<Rightarrow> 5 | KindTimedOut \<Rightarrow> 6 | _ \<Rightarrow> 4))) \<and>
     (\<forall>err. (\<forall>w. fst (to_socket_addr ios target port w) = Inl err) \<and> pendc wc1 sock = [0x05, 0x00] \<longrightarrow>
      (\<exists>ws'. handle_connection ios us received s cfg ws = (Inl err, ws') \<and>
         sents ws' = (sents ws)(s := sents ws s @ [0x05, 0x00])) \<and>
      fst (SocksClient_connect ioc c target port wc) = Inl PrematureEof)"
proof -
  let ?req = "\<lparr>req_cmd = Connect, req_addr = target, req_port = port\<rparr>"
  obtain w1 where r1: "handle_connection ios us received s cfg ws = handle_connect ios s ?req w1"
    and w1: "pends w1 = (pends ws)(s := data)" "sents w1 = (sents ws)(s := sents ws s @ [0x05, 0x00])"
    by (rule hello_served [OF assms(1,3,4)])
  have refused: "\<exists>ws'. handle_connect ios s ?req w1 = (Inl (Upstream e), ws') \<and>
      sents ws' = (sents w1)(s := sents w1 s @ reply_bytes (connect_rep e) zero_addr)"
    if n: "\<forall>w. fst (to_socket_addr ios target port w) = Inr dst \<and> fst (tcp_connect ios dst w) = Inl e" for dst e
  proof -
    obtain w2 where r2: "to_socket_addr ios target port w1 = (Inr dst, w2)" using n by (metis prod.collapse)
    obtain w3 where r3: "tcp_connect ios dst w2 = (Inl e, w3)" using n by (metis prod.collapse)
    have "sents w3 = sents w1"
      using to_socket_addr_frame [OF assms(2) r2] frame_model_D(1) [OF assms(2) r3] by simp
    moreover obtain w4 where "send_reply ios s (connect_rep e) zero_addr w3 = (Inr (), w4)"
      "sents w4 = (sents w3)(s := sents w3 s @ reply_bytes (connect_rep e) zero_addr)"
      using send_reply_writes [OF assms(1)] by metis
    ultimately show ?thesis using r2 r3 by (simp add: handle_connect_def io_simps)
  qed
  have unresolved: "\<exists>ws'. handle_connect ios s ?req w1 = (Inl err, ws') \<and> sents ws' = sents w1"
    if n: "\<forall>w. fst (to_socket_addr ios target port w) = Inl err" for err
  proof -
    obtain w2 where r2: "to_socket_addr ios target port w1 = (Inl err, w2)" using n by (metis prod.collapse)
    then show ?thesis using to_socket_addr_frame [OF assms(2) r2] by (simp add: handle_connect_def io_simps)
  qed
  have code: "Rep_code (connect_rep e) = (case e of KindConnectionRefused \<Rightarrow> 5 | KindTimedOut \<Rightarrow> 6 | _ \<Rightarrow> 4)"
    and ns: "connect_rep e \<noteq> Succeeded" for e
    by (cases e; simp add: connect_rep_def)+
  show ?thesis
    using refused unresolved r1 w1 code
      connect_refused [OF assms(5,6), of _ zero_addr "[]", simplified] connect_closed [OF assms(5,6)] ns
    by auto
qed

text \<open>A server whose network refuses, and one without a resolver.\<close>

theorem socks_failure_reported_witness:
  "\<exists>ws'. handle_connection (demo_tcp\<lparr>tcp_connect := \<lambda>a. failE KindConnectionRefused\<rparr>)
       \<lparr>us_bind = \<lambda>_. failE KindOther, us_local_addr = \<lambda>_. failE KindOther, us_send_to = \<lambda>_ _ _. failE KindOther\<rparr>
       [] 0 SocksServerConfig_default (\<lambda>s. client_hello (AddrIpv4 (Ipv4Addr 1 2 3 4)) 80, \<lambda>_. [])
       = (Inl (Upstream KindConnectionRefused), ws')"
proof -
  let ?io = "demo_tcp\<lparr>tcp_connect := \<lambda>a. failE KindConnectionRefused\<rparr>"
  let ?wc = "(\<lambda>s::nat. [0x05, 0x00] @ reply_bytes (connect_rep KindConnectionRefused) zero_addr, \<lambda>_::nat. [] :: bytes)"
  have s: "stream_model ?io fst snd" and f: "frame_model ?io fst snd"
    using demo_stream_model demo_frame_model by (auto simp: stream_model_def frame_model_def failE_def)
  have c: "tcp_connect demo_tcp (cc_proxy_addr (sc_config (SocksClient \<lparr>cc_proxy_addr = zero_addr, max_backoff_ms = 30000\<rparr>))) ?wc = (Inr 1, ?wc)"
    by (simp add: demo_tcp_def retE_def)
  have n: "\<forall>w. fst (to_socket_addr ?io (AddrIpv4 (Ipv4Addr 1 2 3 4)) 80 w) = Inr (SocketAddr (V4 (Ipv4Addr 1 2 3 4)) 80) \<and>
      fst (tcp_connect ?io (SocketAddr (V4 (Ipv4Addr 1 2 3 4)) 80) w) = Inl KindConnectionRefused"
    by (simp add: to_socket_addr_def retE_def failE_def)
  have p: "fst (\<lambda>s::nat. client_hello (AddrIpv4 (Ipv4Addr 1 2 3 4)) 80, \<lambda>_::nat. [] :: bytes) 0 =
      client_hello (AddrIpv4 (Ipv4Addr 1 2 3 4)) 80 @ []"
    by simp
  have "addr_ok (AddrIpv4 (Ipv4Addr 1 2 3 4))" by simp
  from socks_failure_reported [OF s f this p demo_stream_model c] n show ?thesis by (metis fst_conv)
qed

section \<open>What the UDP relay forwards\<close>

text \<open>A network on which sockets can be bound and datagrams leave; \<open>out\<close> lists those that have left.\<close>

definition outbox_model :: "'w udp_sock_ops \<Rightarrow> ('w \<Rightarrow> (SocketAddr \<times> bytes) list) \<Rightarrow> bool" where
  "outbox_model us out \<longleftrightarrow>
     (\<forall>a w. \<exists>k w'. us_bind us a w = (Inr k, w') \<and> out w' = out w) \<and>
     (\<forall>k payload a w. out (snd (us_send_to us k payload a w)) = out w @ [(a, payload)])"

fun ip_spec :: "IpAddr \<Rightarrow> AddrSpec" where
  "ip_spec (V4 ip) = AddrIpv4 ip"
| "ip_spec (V6 ip) = AddrIpv6 ip"

lemma ip_spec_ok [simp]: "addr_ok (ip_spec ip)"
  by (cases ip) simp_all

lemma to_socket_addr_ip_spec [simp]: "to_socket_addr io (ip_spec ip) port w = (Inr (SocketAddr ip port), w)"
  by (cases ip) (simp_all add: to_socket_addr_def retE_def)

text \<open>A datagram of the application: its sender, its target, the fragment number and the payload.\<close>

type_synonym app_datagram = "SocketAddr \<times> SocketAddr \<times> u8 \<times> bytes"

fun wire :: "app_datagram \<Rightarrow> bytes" where
  "wire (peer, target, frag, payload) =
     encode_address (ip_spec (sa_ip target)) (sa_port target) [0, 0, frag] @ payload"

fun wire_event :: "app_datagram \<Rightarrow> RelayEvent" where
  "wire_event (peer, target, frag, payload) = Received (Inr (wire (peer, target, frag, payload), peer))"

fun forwarded :: "app_datagram list \<Rightarrow> (SocketAddr \<times> bytes) list" where
  "forwarded [] = []"
| "forwarded ((peer, target, frag, payload) # ds) =
     (if frag = 0 then (target, payload) # forwarded ds else forwarded ds)"

lemma relay_udp_never_panics: "fst (relay_udp io us assocs evs w) \<noteq> RelayPanic"
proof (induction evs arbitrary: assocs w)
  case Nil
  then show ?case by simp
next
  case (Cons e evs)
  consider "e = StopNotified" | k where "e = Received (Inl k)" | buf peer where "e = Received (Inr (buf, peer))"
    by (metis RelayEvent.exhaust sumE surj_pair)
  then show ?case
  proof cases
    case 3
    obtain r where r: "parse_udp_datagram (take 65535 buf) = Some r" using parse_udp_total by blast
    show ?thesis
    proof (cases r)
      case (Inr hdr)
      with r have "subslice (take 65535 buf) (payload_offset hdr) (length (take 65535 buf)) =
          Some (drop (payload_offset hdr) (take 65535 buf))"
        by (simp only: parse_udp_payload)
      then show ?thesis using Cons.IH 3 r Inr by (auto simp: Let_def split: prod.split sum.split)
    qed (simp add: 3 r)
  qed simp_all
qed

lemma relay_udp_forwards_one:
  assumes o: "outbox_model us out" and l: "length (wire (peer, target, frag, payload)) \<le> 65535"
  shows "\<exists>assocs' w'. relay_udp io us assocs (wire_event (peer, target, frag, payload) # evs) w =
      relay_udp io us assocs' evs w' \<and> out w' = out w @ forwarded [(peer, target, frag, payload)]"
proof -
  let ?b = "wire (peer, target, frag, payload)"
  obtain h where h: "parse_udp_datagram ?b = Some (Inr h)" "uh_frag h = frag"
    "uh_addr h = ip_spec (sa_ip target)" "uh_port h = sa_port target" "drop (payload_offset h) ?b = payload"
    using parse_udp_encoded [of "ip_spec (sa_ip target)" "sa_port target" frag payload] by auto
  have p: "subslice ?b (payload_offset h) (length ?b) = Some payload"
    using parse_udp_payload [OF h(1)] h(5) by simp
  obtain k w1 where b: "us_bind us zero_addr w = (Inr k, w1)" "out w1 = out w"
    using o unfolding outbox_model_def by blast
  have s: "out (snd (us_send_to us k payload target w1)) = out w @ [(target, payload)]"
    using o b(2) unfolding outbox_model_def by simp
  have t: "take 65535 ?b = ?b" using l by simp
  show ?thesis
  proof (cases "frag = 0")
    case True
    then show ?thesis
      using h p b s t by (intro exI [of _ "assocs(target \<mapsto> peer)"] exI [of _ "snd (us_send_to us k payload target w1)"])
        (simp add: Let_def del: wire.simps)
  next
    case False
    then show ?thesis
      using h t by (intro exI [of _ assocs] exI [of _ w]) (simp add: Let_def del: wire.simps)
  qed
qed

lemma relay_udp_forwards:
  assumes o: "outbox_model us out" and "\<forall>d\<in>set ds. length (wire d) \<le> 65535"
  shows "\<exists>assocs' w'. relay_udp io us assocs (map wire_event ds @ evs) w = relay_udp io us assocs' evs w' \<and>
     out w' = out w @ forwarded ds"
  using assms(2)
proof (induction ds arbitrary: assocs w)
  case Nil
  then show ?case by auto
next
  case (Cons d ds)
  obtain peer target frag payload where d: "d = (peer, target, frag, payload)" by (cases d)
  have "length (wire (peer, target, frag, payload)) \<le> 65535" using Cons.prems d by simp
  from relay_udp_forwards_one [OF o this] obtain a1 w1
    where 1: "relay_udp io us assocs (wire_event d # map wire_event ds @ evs) w = relay_udp io us a1 (map wire_event ds @ evs) w1"
      "out w1 = out w @ forwarded [d]"
    unfolding d by blast
  from Cons.IH [of a1 w1] Cons.prems obtain a2 w2
    where "relay_udp io us a1 (map wire_event ds @ evs) w1 = relay_udp io us a2 evs w2" "out w2 = out w1 @ forwarded ds"
    by auto
  moreover have "forwarded (d # ds) = forwarded [d] @ forwarded ds" by (simp add: d)
  ultimately show ?case using 1 by auto
qed

text \<open>The UDP relay never panics, whatever it receives. The datagrams an application wraps for IP
  targets are forwarded in order, each payload unchanged to its target, with fragments skipped, until
  the stop notification. But the first datagram that does not parse ends the relay for the whole
  association: nothing received after it is forwarded.\<close>

lemma udp_relay_correct:
  assumes "outbox_model us out" and "\<forall>d\<in>set ds. length (wire d) \<le> 65535"
    and "parse_udp_datagram (take 65535 bad) = Some (Inl e)"
  shows "fst (relay_udp io us assocs evs w) \<noteq> RelayPanic \<and>
     (\<exists>assocs' w'. relay_udp io us assocs (map wire_event ds @ [StopNotified]) w = (RelayReturned (Inr ()), assocs', w') \<and>
        out w' = out w @ forwarded ds) \<and>
     (\<exists>assocs' w'. relay_udp io us assocs (map wire_event ds @ Received (Inr (bad, peer)) # evs) w =
          (RelayReturned (Inl e), assocs', w') \<and> out w' = out w @ forwarded ds)"
proof (intro conjI)
  show "fst (relay_udp io us assocs evs w) \<noteq> RelayPanic" by (rule relay_udp_never_panics)
  show "\<exists>assocs' w'. relay_udp io us assocs (map wire_event ds @ [StopNotified]) w = (RelayReturned (Inr ()), assocs', w') \<and>
        out w' = out w @ forwarded ds"
    using relay_udp_forwards [OF assms(1,2), of io assocs "[StopNotified]" w] by auto
  show "\<exists>assocs' w'. relay_udp io us assocs (map wire_event ds @ Received (Inr (bad, peer)) # evs) w =
          (RelayReturned (Inl e), assocs', w') \<and> out w' = out w @ forwarded ds"
    using relay_udp_forwards [OF assms(1,2), of io assocs "Received (Inr (bad, peer)) # evs" w] assms(3)
    by (auto simp: Let_def)
qed

end
