(* ===== verification/Engine_Data.thy ===== *)
theory Engine_Data
  imports Userspace_Stack Dns Dns_Packets Tun Socks_Server
begin

text \<open>
  The data plane of the engine in client mode: \<open>run_client_loop\<close> and \<open>relay_connection\<close> of
  \<open>gravital-engine/src/runner.rs\<close> with the counters of \<open>metrics.rs\<close>. The tasks share the stack, the DNS
  interceptor and the counters, which are the record \<open>client_loop\<close>; each task is a function on it:
  what happens to one packet read from the TUN device, one answer to a DNS query, one tick of the poll
  task, one relayed connection.
\<close>

section \<open>Counters\<close>

record EngineMetrics =
  m_bytes_in :: u64
  m_bytes_out :: u64
  m_packets_in :: u64
  m_packets_out :: u64
  m_active_tcp_sessions :: u32
  m_active_udp_assocs :: u32
  m_dns_queries :: u64
  m_dns_leaks_detected :: u32
  m_reconnects :: u32
  m_last_rtt_ms :: u32
  m_drops_buffer_full :: u64
  m_drops_parse_error :: u64
  m_socks_handshake_failures :: u64

definition EngineMetrics_new :: EngineMetrics where
  "EngineMetrics_new =
     \<lparr>m_bytes_in = 0, m_bytes_out = 0, m_packets_in = 0, m_packets_out = 0, m_active_tcp_sessions = 0,
      m_active_udp_assocs = 0, m_dns_queries = 0, m_dns_leaks_detected = 0, m_reconnects = 0,
      m_last_rtt_ms = 0, m_drops_buffer_full = 0, m_drops_parse_error = 0, m_socks_handshake_failures = 0\<rparr>"

record MetricsSnapshot =
  ms_bytes_in :: u64
  ms_bytes_out :: u64
  ms_packets_in :: u64
  ms_packets_out :: u64
  ms_active_tcp_sessions :: u32
  ms_active_udp_assocs :: u32
  ms_dns_queries :: u64
  ms_dns_leaks_detected :: u32
  ms_reconnects :: u32
  ms_last_rtt_ms :: u32
  ms_drops_buffer_full :: u64
  ms_drops_parse_error :: u64
  ms_socks_handshake_failures :: u64

definition EngineMetrics_snapshot :: "EngineMetrics \<Rightarrow> MetricsSnapshot" where
  "EngineMetrics_snapshot m =
     \<lparr>ms_bytes_in = m_bytes_in m, ms_bytes_out = m_bytes_out m, ms_packets_in = m_packets_in m,
      ms_packets_out = m_packets_out m, ms_active_tcp_sessions = m_active_tcp_sessions m,
      ms_active_udp_assocs = m_active_udp_assocs m, ms_dns_queries = m_dns_queries m,
      ms_dns_leaks_detected = m_dns_leaks_detected m, ms_reconnects = m_reconnects m,
      ms_last_rtt_ms = m_last_rtt_ms m, ms_drops_buffer_full = m_drops_buffer_full m,
      ms_drops_parse_error = m_drops_parse_error m, ms_socks_handshake_failures = m_socks_handshake_failures m\<rparr>"

definition count_in :: "nat \<Rightarrow> EngineMetrics \<Rightarrow> EngineMetrics" where
  "count_in len m = m\<lparr>m_packets_in := m_packets_in m + 1, m_bytes_in := m_bytes_in m + word_of_nat len\<rparr>"

definition count_out :: "nat \<Rightarrow> EngineMetrics \<Rightarrow> EngineMetrics" where
  "count_out len m = m\<lparr>m_packets_out := m_packets_out m + 1, m_bytes_out := m_bytes_out m + word_of_nat len\<rparr>"

definition count_drop :: "EngineMetrics \<Rightarrow> EngineMetrics" where
  "count_drop m = m\<lparr>m_drops_parse_error := m_drops_parse_error m + 1\<rparr>"

section \<open>Packets from the TUN device\<close>

record 'n client_loop =
  cl_stack :: "'n Inner"
  cl_dns :: DnsInterceptor
  cl_metrics :: EngineMetrics

text \<open>What the read task does with one packet: the new state and, for a DNS query, the packet and the
  query of the task it spawns. \<open>None\<close> is a panic.\<close>

definition tun_packet :: "bytes \<Rightarrow> 'n client_loop \<Rightarrow> ('n client_loop \<times> (bytes \<times> bytes) option) option" where
  "tun_packet pkt s = do {
     let s = s\<lparr>cl_metrics := count_in (length pkt) (cl_metrics s)\<rparr>;
     let dropped = s\<lparr>cl_metrics := count_drop (cl_metrics s)\<rparr>;
     r \<leftarrow> IpView_parse pkt;
     (case r of
        Inl _ \<Rightarrow> Some (dropped, None)
      | Inr ip \<Rightarrow> do {
          protocol \<leftarrow> IpView_protocol ip;
          (case protocol of
             Tcp \<Rightarrow> Some (s\<lparr>cl_stack := UserspaceStack_feed_inbound pkt (cl_stack s)\<rparr>, None)
           | Udp \<Rightarrow> do {
               port \<leftarrow> udp_dst_port pkt;
               if port = Some 53 then do {
                 payload \<leftarrow> extract_udp_payload pkt;
                 Some (s, map_option (\<lambda>query. (pkt, query)) payload) }
               else Some (dropped, None) }
           | _ \<Rightarrow> Some (dropped, None)) }) }"

text \<open>The task spawned for a query. \<open>None\<close> is a panic, or a device that never takes the reply.\<close>

definition dns_task ::
  "'w fd_ops \<Rightarrow> ('w, 's) udp_ops \<Rightarrow> TunWriter \<Rightarrow> bytes \<times> bytes \<Rightarrow> 'n client_loop \<Rightarrow> 'w \<Rightarrow> ('n client_loop \<times> 'w) option" where
  "dns_task fd net writer job s w = do {
     let (pkt, query) = job;
     (r, dns, w) \<leftarrow> DnsInterceptor_handle_query net query (cl_dns s) w;
     let s = s\<lparr>cl_dns := dns\<rparr>;
     (case r of
        Inl _ \<Rightarrow> Some (s, w)
      | Inr resp \<Rightarrow> do {
          reply \<leftarrow> build_udp_reply pkt resp;
          (case reply of
             None \<Rightarrow> Some (s, w)
           | Some reply \<Rightarrow> do {
               let s = s\<lparr>cl_metrics := count_out (length reply) (cl_metrics s)\<rparr>;
               (_, w) \<leftarrow> TunWriter_write_packet fd writer reply w;
               Some (s, w) }) }) }"

section \<open>The poll task\<close>

function drain_outbound_all ::
  "'w fd_ops \<Rightarrow> TunWriter \<Rightarrow> 'n client_loop \<Rightarrow> 'w \<Rightarrow> ('n client_loop \<times> 'w) option" where
  "drain_outbound_all fd writer s w =
     (case UserspaceStack_drain_outbound (cl_stack s) of
        (None, st) \<Rightarrow> Some (s\<lparr>cl_stack := st\<rparr>, w)
      | (Some pkt, st) \<Rightarrow> do {
          let s = s\<lparr>cl_stack := st, cl_metrics := count_out (length pkt) (cl_metrics s)\<rparr>;
          (_, w) \<leftarrow> TunWriter_write_packet fd writer pkt w;
          drain_outbound_all fd writer s w })"
  by pat_completeness auto

termination
  by (relation "measure (\<lambda>(fd, writer, s, w). length (in_tun_tx (cl_stack s)))")
    (auto simp: UserspaceStack_drain_outbound_def split: list.splits)

declare drain_outbound_all.simps [simp del]

function accept_all :: "'n Inner \<Rightarrow> VirtualConnection list \<times> 'n Inner" where
  "accept_all st =
     (case UserspaceStack_accept st of
        (None, st) \<Rightarrow> ([], st)
      | (Some conn, st) \<Rightarrow> apfst (Cons conn) (accept_all st))"
  by pat_completeness auto

termination
  by (relation "measure (\<lambda>st. length (in_pending st))") (auto simp: UserspaceStack_accept_def split: list.splits)

declare accept_all.simps [simp del]

lemma accept_all_eq: "accept_all st = (in_pending st, st\<lparr>in_pending := []\<rparr>)"
proof (induction st rule: accept_all.induct)
  case (1 st)
  then show ?case
    by (cases "in_pending st") (auto simp: accept_all.simps [of st] UserspaceStack_accept_def)
qed

text \<open>One tick: drive the stack, write what it sends, and spawn a relay for each new connection.\<close>

definition poll_tick ::
  "'n net_ops \<Rightarrow> 'w fd_ops \<Rightarrow> TunWriter \<Rightarrow> int \<Rightarrow> 'n client_loop \<Rightarrow> 'w \<Rightarrow> ('n client_loop \<times> VirtualConnection list \<times> 'w) option" where
  "poll_tick ops fd writer ts s w = do {
     (_, st) \<leftarrow> UserspaceStack_poll ops ts (cl_stack s);
     (s, w) \<leftarrow> drain_outbound_all fd writer (s\<lparr>cl_stack := st\<rparr>) w;
     let (conns, st) = accept_all (cl_stack s);
     Some (s\<lparr>cl_stack := st\<rparr>, conns, w) }"

section \<open>One relayed connection\<close>

definition relay_target :: "SocketAddr \<Rightarrow> AddrSpec \<times> u16" where
  "relay_target remote =
     (case sa_ip remote of
        V4 ip \<Rightarrow> (AddrIpv4 ip, sa_port remote)
      | V6 ip \<Rightarrow> (AddrIpv6 ip, sa_port remote))"

text \<open>The application side: the chunks that come out of the channel before it closes.\<close>

fun app_to_up :: "'w tcp_ops \<Rightarrow> nat \<Rightarrow> bytes list \<Rightarrow> 'w \<Rightarrow> 'w" where
  "app_to_up io up [] w = tcp_shutdown io up w"
| "app_to_up io up (data # chunks) w =
     (case write_all io up data w of
        (Inl _, w) \<Rightarrow> tcp_shutdown io up w
      | (Inr _, w) \<Rightarrow> app_to_up io up chunks w)"

text \<open>The upstream side: each \<open>read\<close> with its result, and whether the channel to the stack still took the
  chunk. The result is what the stack was given.\<close>

fun up_to_app :: "((IoKind + bytes) \<times> bool) list \<Rightarrow> bytes list" where
  "up_to_app [] = []"
| "up_to_app ((Inl _, ok) # rs) = []"
| "up_to_app ((Inr bs, ok) # rs) =
     (let chunk = take 16384 bs
      in if chunk = [] then [] else if ok then chunk # up_to_app rs else [])"

text \<open>The two directions use different halves of the connection: running one after the other gives
  the result of every interleaving.\<close>

definition relay_connection ::
  "'w tcp_ops \<Rightarrow> SocksClient \<Rightarrow> VirtualConnection \<Rightarrow> bytes list \<Rightarrow> ((IoKind + bytes) \<times> bool) list \<Rightarrow> 'w \<Rightarrow> bytes list \<times> 'w" where
  "relay_connection io socks conn chunks reads w =
     (case SocksClient_connect io socks (fst (relay_target (vc_remote conn))) (snd (relay_target (vc_remote conn))) w of
        (Inl e, w) \<Rightarrow> ([], w)
      | (Inr upstream, w) \<Rightarrow> (up_to_app reads, app_to_up io upstream chunks w))"

section \<open>Which packets go where\<close>

definition is_tcp_packet :: "bytes \<Rightarrow> bool" where
  "is_tcp_packet pkt \<longleftrightarrow> valid_ipv4 pkt \<and> pkt ! 9 = 6 \<or> valid_ipv6 pkt \<and> pkt ! 6 = 6"

definition is_dns_packet :: "bytes \<Rightarrow> bool" where
  "is_dns_packet pkt \<longleftrightarrow> valid_ipv4 pkt \<and> udp_dst_port pkt = Some (Some 53)"

lemma not_both_versions: "valid_ipv4 p \<Longrightarrow> \<not> valid_ipv6 p"
  by (auto simp: valid_ipv4_def valid_ipv6_def)

lemma packet_protocol:
  "IpView_parse pkt = Some (Inr ip) \<Longrightarrow>
     valid_ipv4 pkt \<and> IpView_protocol ip = Some (IpProtocol_from (pkt ! 9)) \<or>
     valid_ipv6 pkt \<and> IpView_protocol ip = Some (IpProtocol_from (pkt ! 6))"
proof (cases ip)
  case (IpV4 v)
  assume "IpView_parse pkt = Some (Inr ip)"
  then have "valid_ipv4 pkt" and "v = \<lparr>v4_bytes = pkt\<rparr>" using IpV4 IpView_parse_V4 by simp_all
  then show ?thesis using IpV4 by (simp add: Ipv4View_protocol_def valid_ipv4_def)
next
  case (IpV6 v)
  assume "IpView_parse pkt = Some (Inr ip)"
  then have "valid_ipv6 pkt" and "v = \<lparr>v6_bytes = pkt\<rparr>" using IpV6 IpView_parse_V6 by simp_all
  then show ?thesis using IpV6 by (simp add: Ipv6View_protocol_def valid_ipv6_def)
qed

lemma udp_dst_port_version:
  assumes "udp_dst_port pkt = Some (Some p)"
  shows "pkt ! 9 = 17 \<and> \<not> valid_ipv6 pkt"
proof -
  have u: "udp4 pkt" using assms by (simp add: udp_dst_port_eq split: if_splits)
  then have "pkt \<noteq> []" by (auto simp: udp4_def)
  then have "hd pkt = pkt ! 0" by (rule hd_conv_nth)
  with u show ?thesis by (auto simp: udp4_def valid_ipv6_def hi_nibble_4)
qed

lemma tun_packet_eq:
  assumes "IpView_parse pkt = Some (Inr ip)" and "IpView_protocol ip = Some protocol"
  shows "tun_packet pkt s =
     (let s = s\<lparr>cl_metrics := count_in (length pkt) (cl_metrics s)\<rparr>;
          dropped = s\<lparr>cl_metrics := count_drop (cl_metrics s)\<rparr>
      in Some (case protocol of
           Tcp \<Rightarrow> (s\<lparr>cl_stack := UserspaceStack_feed_inbound pkt (cl_stack s)\<rparr>, None)
         | Udp \<Rightarrow> if udp_dst_port pkt = Some (Some 53) then (s, map_option (Pair pkt) (the (extract_udp_payload pkt)))
                  else (dropped, None)
         | _ \<Rightarrow> (dropped, None)))"
  using assms udp_dst_port_eq [of pkt] extract_udp_payload_eq [of pkt]
  by (cases protocol) (simp_all add: tun_packet_def Let_def)

lemma protocol_is_tcp: "IpProtocol_from b = Tcp \<longleftrightarrow> b = 6"
  by (simp add: IpProtocol_from_def)

lemma protocol_is_udp: "IpProtocol_from b = Udp \<longleftrightarrow> b = 17"
  by (simp add: IpProtocol_from_def)


section \<open>Queries and their answers\<close>

text \<open>C19: a DNS query that an application sends into the tunnel is answered by the engine, end to
  end. The packet is taken out of the packet flow and its payload goes to the configured resolver. The
  answer, or SERVFAIL if there is none, is wrapped into an IPv4 packet that the application accepts:
  well-formed, with both checksums right, from the server it asked to the port it asked from, with
  the answer as its payload. If that packet is within the MTU it is written to the TUN device. If it
  is longer it is not written, although it is counted as sent.\<close>

theorem dns_query_answered:
  assumes "is_dns_packet pkt" and "extract_udp_payload pkt = Some (Some query)" and "length pkt \<le> 1600"
    and "DnsResolver_forward_raw net (di_resolver (cl_dns s)) query w = (res, w1)"
  shows "\<exists>s1 reply s2. tun_packet pkt s = Some (s1, Some (pkt, query)) \<and> cl_stack s1 = cl_stack s \<and>
     build_udp_reply pkt (dns_answer query res) = Some (Some reply) \<and>
     reply_ok pkt (dns_answer query res) reply \<and>
     cl_stack s2 = cl_stack s \<and> di_resolver (cl_dns s2) = di_resolver (cl_dns s) \<and>
     m_packets_out (cl_metrics s2) = m_packets_out (cl_metrics s) + 1 \<and>
     dns_failures_total (cl_dns s2) = dns_failures_total (cl_dns s) + (if isl res then 1 else 0) \<and>
     (if length reply \<le> unat (writer_mtu t)
      then \<forall>e w2. write_loop fd (writer_fd t) reply w1 = Some (e, w2) \<longrightarrow>
             dns_task fd net t (pkt, query) s1 w = Some (s2, w2)
      else dns_task fd net t (pkt, query) s1 w = Some (s2, w1))"
proof -
  obtain s1 where t: "tun_packet pkt s = Some (s1, Some (pkt, query))" and st: "cl_stack s1 = cl_stack s"
    and d: "cl_dns s1 = cl_dns s" and m: "m_packets_out (cl_metrics s1) = m_packets_out (cl_metrics s)"
  proof -
    have v: "valid_ipv4 pkt" using assms(1) by (simp add: is_dns_packet_def)
    have "pkt ! 9 = 17" using assms(1) udp_dst_port_version by (auto simp: is_dns_packet_def)
    then have "tun_packet pkt s = Some (s\<lparr>cl_metrics := count_in (length pkt) (cl_metrics s)\<rparr>, Some (pkt, query))"
      using assms(1,2) v IpView_parse_V4 [of pkt "\<lparr>v4_bytes = pkt\<rparr>"]
      by (simp add: tun_packet_def is_dns_packet_def Ipv4View_protocol_def IpProtocol_from_def valid_ipv4_def)
    then show thesis using that by (simp add: count_in_def)
  qed
  have "length query \<le> length pkt"
    using assms(2) by (auto simp: extract_udp_payload_eq Let_def split: if_splits)
  then have len: "length (dns_answer query res) \<le> 65507"
    using dns_answer_length [OF assms(4)] assms(3) by simp
  have "valid_ipv4 pkt" using assms(1) by (simp add: is_dns_packet_def)
  from build_udp_reply_ok [OF this assms(2) len] obtain reply
    where b: "build_udp_reply pkt (dns_answer query res) = Some (Some reply)"
      and ok: "reply_ok pkt (dns_answer query res) reply" by blast
  have h: "DnsInterceptor_handle_query net query (cl_dns s1) w =
      Some (Inr (dns_answer query res),
        (cl_dns s)\<lparr>metrics_dns_queries := metrics_dns_queries (cl_dns s) + 1,
          metrics_dns_failures := metrics_dns_failures (cl_dns s) + (if isl res then 1 else 0)\<rparr>, w1)"
    unfolding d by (rule handle_query_eq [OF assms(4)])
  let ?s2 = "s1\<lparr>cl_dns := (cl_dns s)\<lparr>metrics_dns_queries := metrics_dns_queries (cl_dns s) + 1,
          metrics_dns_failures := metrics_dns_failures (cl_dns s) + (if isl res then 1 else 0)\<rparr>,
        cl_metrics := count_out (length reply) (cl_metrics s1)\<rparr>"
  have "dns_task fd net t (pkt, query) s1 w =
      (do { (_, w) \<leftarrow> TunWriter_write_packet fd t reply w1; Some (?s2, w) })"
    using h b by (simp add: dns_task_def)
  then have "if length reply \<le> unat (writer_mtu t)
      then \<forall>e w2. write_loop fd (writer_fd t) reply w1 = Some (e, w2) \<longrightarrow>
             dns_task fd net t (pkt, query) s1 w = Some (?s2, w2)
      else dns_task fd net t (pkt, query) s1 w = Some (?s2, w1)"
    by (simp add: TunWriter_write_packet_def)
  then show ?thesis
    using t st m b ok by (intro exI [of _ s1] exI [of _ reply] exI [of _ ?s2])
      (simp add: count_out_def dns_failures_total_def)
qed

text \<open>A query of four bytes from 10.42.0.2:40000 to 1.1.1.1:53, with no network to resolve it.\<close>

definition demo_query :: bytes where
  "demo_query =
     [0x45, 0, 0, 32, 0, 0, 0, 0, 64, 17, 0, 0, 10, 42, 0, 2, 1, 1, 1, 1,
      0x9C, 0x40, 0, 53, 0, 12, 0, 0, 0xAB, 0xCD, 1, 0]"

definition demo_loop :: "unit client_loop" where
  "demo_loop = \<lparr>cl_stack = Inner_new () 1280, cl_dns = DnsInterceptor_new DnsResolver_with_default,
     cl_metrics = EngineMetrics_new\<rparr>"

definition no_udp :: "('w, unit) udp_ops" where
  "no_udp = \<lparr>udp_bind = \<lambda>w. (None, w), udp_connect = \<lambda>_ _ w. (None, w), udp_send = \<lambda>_ _ w. (None, w),
     udp_recv = \<lambda>_ _ w. (Inl (), w)\<rparr>"

theorem dns_query_answered_witness:
  "\<exists>s1 reply s2. tun_packet demo_query demo_loop = Some (s1, Some (demo_query, [0xAB, 0xCD, 1, 0])) \<and>
     extract_udp_payload reply = Some (Some [0xAB, 0xCD, 0x81, 0x82]) \<and>
     dns_task demo_fd no_udp \<lparr>writer_fd = 3, writer_mtu = 1280\<rparr> (demo_query, [0xAB, 0xCD, 1, 0]) s1 (1, []) =
       Some (s2, (2, [reply]))"
proof -
  let ?q = "[0xAB, 0xCD, 1, 0] :: bytes" and ?t = "\<lparr>writer_fd = 3, writer_mtu = 1280\<rparr>"
  have d: "is_dns_packet demo_query"
    by (simp add: is_dns_packet_def demo_query_def valid_ipv4_def udp_dst_port_def from_be16_def Let_def)
  have e: "extract_udp_payload demo_query = Some (Some ?q)"
    by (simp add: extract_udp_payload_def demo_query_def from_be16_def Let_def)
  have l: "length demo_query \<le> 1600" by (simp add: demo_query_def)
  have f: "DnsResolver_forward_raw no_udp (di_resolver (cl_dns demo_loop)) ?q (1, []) = (Inl DnsIo, (1, []))"
    by (simp add: DnsResolver_forward_raw_def no_udp_def)
  from dns_query_answered [OF d e l, OF f, of ?t demo_fd] obtain s1 reply s2
    where t: "tun_packet demo_query demo_loop = Some (s1, Some (demo_query, ?q))"
      and ok: "reply_ok demo_query (dns_answer ?q (Inl DnsIo)) reply"
      and r: "if length reply \<le> unat (writer_mtu ?t)
        then \<forall>e w2. write_loop demo_fd (writer_fd ?t) reply (1, []) = Some (e, w2) \<longrightarrow>
               dns_task demo_fd no_udp ?t (demo_query, ?q) s1 (1, []) = Some (s2, w2)
        else dns_task demo_fd no_udp ?t (demo_query, ?q) s1 (1, []) = Some (s2, (1, []))"
    by (elim exE conjE)
  have a: "dns_answer ?q (Inl DnsIo) = [0xAB, 0xCD, 0x81, 0x82]" by (simp add: dns_answer_def)
  have "length reply = 32" and p: "extract_udp_payload reply = Some (Some [0xAB, 0xCD, 0x81, 0x82])"
    using ok unfolding a reply_ok_def by simp_all
  moreover have "write_loop demo_fd 3 reply (1, []) = Some (Inr (), (2, [reply]))"
    by (simp add: write_loop.simps demo_fd_def retE_def)
  ultimately have "dns_task demo_fd no_udp ?t (demo_query, ?q) s1 (1, []) = Some (s2, (2, [reply]))"
    using r by simp
  with t p show ?thesis by blast
qed

section \<open>Relayed connections\<close>

lemma app_to_up_sends:
  assumes m: "stream_model io pend sent" and q: "\<forall>w. sent (tcp_shutdown io up w) = sent w"
  shows "sent (app_to_up io up chunks w) = (sent w)(up := sent w up @ concat chunks)"
proof (induction chunks arbitrary: w)
  case Nil
  then show ?case using q by simp
next
  case (Cons data chunks)
  obtain w1 where "write_all io up data w = (Inr (), w1)" and "sent w1 = (sent w)(up := sent w up @ data)"
    by (rule stream_write [OF m])
  then show ?case using Cons.IH [of w1] by (simp add: fun_eq_iff)
qed

lemma up_to_app_delivers:
  "\<forall>bs\<in>set blocks. bs \<noteq> [] \<and> length bs \<le> 16384 \<Longrightarrow> up_to_app (map (\<lambda>bs. (Inr bs, True)) blocks) = blocks"
  by (induction blocks) (simp_all add: Let_def)

lemma relay_target_eq: "relay_target a = (ip_spec (sa_ip a), sa_port a)"
  by (cases "sa_ip a") (simp_all add: relay_target_def)

lemma relay_sends:
  assumes "stream_model io pend sent" and "\<forall>up w. sent (tcp_shutdown io up w) = sent w"
    and "tcp_connect io (cc_proxy_addr (sc_config socks)) w = (Inr up, w1)"
    and "pend w1 up = [0x05, 0x00] @ reply_bytes Succeeded bound @ rest"
  obtains w' where "relay_connection io socks conn chunks reads w = (up_to_app reads, w')"
    and "sent w' up = sent w1 up @
      client_hello (ip_spec (sa_ip (vc_remote conn))) (sa_port (vc_remote conn)) @ concat chunks"
proof -
  let ?hello = "client_hello (ip_spec (sa_ip (vc_remote conn))) (sa_port (vc_remote conn))"
  obtain w2 where c: "SocksClient_connect io socks (ip_spec (sa_ip (vc_remote conn))) (sa_port (vc_remote conn)) w = (Inr up, w2)"
    and w2: "sent w2 = (sent w1)(up := sent w1 up @ ?hello)"
    by (rule connect_completes [OF assms(1,3,4)])
  have "sent (app_to_up io up chunks w2) up = sent w1 up @ ?hello @ concat chunks"
    using app_to_up_sends [OF assms(1), of up chunks w2] assms(2) w2 by simp
  then show thesis using that c by (simp add: relay_connection_def relay_target_eq)
qed



end
