(* ===== verification/Client_Loop.thy ===== *)
theory Client_Loop
  imports Stack_Poll Engine_Data
begin

text \<open>
  The client's main loop as a whole: \<open>run_client_loop\<close> of \<open>gravital-engine/src/runner.rs\<close>, with the read
  task, the poll task, the DNS tasks the one spawns and the relays the other spawns, on one shared state.
  Each turn of a task is a function on that state; \<open>client_step\<close> takes the turns in any order.
\<close>

section \<open>The tasks on their shared state\<close>

text \<open>Next to what the tasks share: the world of the descriptor and the sockets, whether the read task
  still runs, the DNS tasks that have not finished, and the connections handed to a relay.\<close>

record ('n, 'w) client_sys =
  cs_loop :: "'n client_loop"
  cs_world :: 'w
  cs_reading :: bool
  cs_jobs :: "(bytes \<times> bytes) list"
  cs_relays :: "VirtualConnection list"

text \<open>One turn of the read task: an error of the device ends it, a packet may spawn a DNS task.\<close>

definition read_turn :: "'w fd_ops \<Rightarrow> TunReader \<Rightarrow> ('n, 'w) client_sys \<Rightarrow> ('n, 'w) client_sys option" where
  "read_turn fd reader s = do {
     (r, w) \<leftarrow> TunReader_read_packet fd reader (cs_world s);
     let s = s\<lparr>cs_world := w\<rparr>;
     (case r of
        Inl _ \<Rightarrow> Some (s\<lparr>cs_reading := False\<rparr>)
      | Inr pkt \<Rightarrow> do {
          (l, job) \<leftarrow> tun_packet pkt (cs_loop s);
          Some (s\<lparr>cs_loop := l, cs_jobs := cs_jobs s @ (case job of None \<Rightarrow> [] | Some j \<Rightarrow> [j])\<rparr>) }) }"

definition remove_nth :: "nat \<Rightarrow> 'a list \<Rightarrow> 'a list" where
  "remove_nth i xs = take i xs @ drop (Suc i) xs"

text \<open>The DNS task at position \<open>i\<close> runs and ends.\<close>

definition dns_turn ::
  "'w fd_ops \<Rightarrow> ('w, 's) udp_ops \<Rightarrow> TunWriter \<Rightarrow> nat \<Rightarrow> ('n, 'w) client_sys \<Rightarrow> ('n, 'w) client_sys option" where
  "dns_turn fd net writer i s = do {
     (l, w) \<leftarrow> dns_task fd net writer (cs_jobs s ! i) (cs_loop s) (cs_world s);
     Some (s\<lparr>cs_loop := l, cs_world := w, cs_jobs := remove_nth i (cs_jobs s)\<rparr>) }"

text \<open>One tick of the poll task at the time \<open>ts\<close>. The task has no exit.\<close>

definition poll_turn ::
  "'n net_ops \<Rightarrow> 'w fd_ops \<Rightarrow> TunWriter \<Rightarrow> int \<Rightarrow> ('n, 'w) client_sys \<Rightarrow> ('n, 'w) client_sys option" where
  "poll_turn ops fd writer ts s = do {
     (l, conns, w) \<leftarrow> poll_tick ops fd writer ts (cs_loop s) (cs_world s);
     Some (s\<lparr>cs_loop := l, cs_world := w, cs_relays := cs_relays s @ conns\<rparr>) }"

definition client_sys_start :: "'n client_loop \<Rightarrow> 'w \<Rightarrow> ('n, 'w) client_sys" where
  "client_sys_start l w = \<lparr>cs_loop = l, cs_world = w, cs_reading = True, cs_jobs = [], cs_relays = []\<rparr>"

text \<open>The turns in any order. The relays act on the stack through their channels only: they change the
  network part of its state and no socket of it. The network outside may change at any time.\<close>

inductive client_step ::
  "'n net_ops \<Rightarrow> 'w fd_ops \<Rightarrow> ('w, 's) udp_ops \<Rightarrow> TunReader \<Rightarrow> TunWriter \<Rightarrow> ('n \<Rightarrow> nat set) \<Rightarrow>
     ('n, 'w) client_sys \<Rightarrow> ('n, 'w) client_sys \<Rightarrow> bool" for ops fd net reader writer live where
  step_read: "cs_reading s \<Longrightarrow> read_turn fd reader s = Some s' \<Longrightarrow> client_step ops fd net reader writer live s s'"
| step_dns: "i < length (cs_jobs s) \<Longrightarrow> dns_turn fd net writer i s = Some s' \<Longrightarrow>
    client_step ops fd net reader writer live s s'"
| step_poll: "poll_turn ops fd writer ts s = Some s' \<Longrightarrow> client_step ops fd net reader writer live s s'"
| step_relay: "live n = live (in_net (cl_stack (cs_loop s))) \<Longrightarrow>
    client_step ops fd net reader writer live s
      (s\<lparr>cs_loop := (cs_loop s)\<lparr>cl_stack := (cl_stack (cs_loop s))\<lparr>in_net := n\<rparr>\<rparr>\<rparr>)"
| step_world: "client_step ops fd net reader writer live s (s\<lparr>cs_world := w\<rparr>)"

section \<open>No turn panics\<close>

text \<open>The device takes or refuses each packet; it does not report that it is ready for ever without.\<close>

definition write_returns :: "'w fd_ops \<Rightarrow> bool" where
  "write_returns fd \<longleftrightarrow> (\<forall>f data w. write_loop fd f data w \<noteq> None)"

text \<open>A DNS job holds a packet the reader may have produced and the query in it.\<close>

definition job_ok :: "bytes \<times> bytes \<Rightarrow> bool" where
  "job_ok j \<longleftrightarrow> is_dns_packet (fst j) \<and> extract_udp_payload (fst j) = Some (Some (snd j)) \<and> length (fst j) \<le> 1600"

definition client_ok :: "('n \<Rightarrow> nat set) \<Rightarrow> ('n, 'w) client_sys \<Rightarrow> bool" where
  "client_ok live s \<longleftrightarrow> poll_ok live (cl_stack (cs_loop s)) \<and> (\<forall>j \<in> set (cs_jobs s). job_ok j)"

lemma write_packet_returns:
  "write_returns fd \<Longrightarrow> \<exists>r w'. TunWriter_write_packet fd t data w = Some (r, w')"
  by (simp add: write_returns_def TunWriter_write_packet_def)

lemma read_loop_bound: "read_loop fd f w = Some (Inr pkt, w') \<Longrightarrow> length pkt \<le> 1600"
  by (drule read_loop.raw_induct [where P = "\<lambda>fd f w r. \<forall>pkt. fst r = Inr pkt \<longrightarrow> length pkt \<le> 1600", rotated])
    (auto simp: BUF_SIZE_def split: prod.splits sum.splits sys_result.splits)

lemma tun_packet_runs:
  assumes "length pkt \<le> 1600"
  shows "\<exists>l' job. tun_packet pkt l = Some (l', job) \<and>
     (cl_stack l' = cl_stack l \<or> cl_stack l' = UserspaceStack_feed_inbound pkt (cl_stack l)) \<and>
     (\<forall>j. job = Some j \<longrightarrow> job_ok j)"
proof -
  obtain r where r: "IpView_parse pkt = Some r" using IpView_parse_not_None by blast
  show ?thesis
  proof (cases r)
    case (Inl e)
    then show ?thesis using r by (simp add: tun_packet_def)
  next
    case (Inr ip)
    with r have ip: "IpView_parse pkt = Some (Inr ip)" by simp
    from packet_protocol [OF ip] obtain protocol where pr: "IpView_protocol ip = Some protocol" by auto
    have dns: "is_dns_packet pkt" if "udp_dst_port pkt = Some (Some 53)"
      using packet_protocol [OF ip] udp_dst_port_version [OF that] that by (auto simp: is_dns_packet_def)
    obtain q where "extract_udp_payload pkt = Some q" by (simp add: extract_udp_payload_eq)
    then show ?thesis
      unfolding tun_packet_eq [OF ip pr] using assms dns
      by (cases protocol) (auto simp: Let_def job_ok_def)
  qed
qed

lemma feed_inbound_ok: "poll_ok live s \<Longrightarrow> poll_ok live (UserspaceStack_feed_inbound pkt s)"
  by (simp add: poll_ok_def stack_inv_def UserspaceStack_feed_inbound_def)

lemma drain_outbound_all_runs:
  assumes "write_returns fd"
  shows "\<exists>s' w'. drain_outbound_all fd writer s w = Some (s', w') \<and>
     cl_stack s' = (cl_stack s)\<lparr>in_tun_tx := []\<rparr>"
proof (induction "in_tun_tx (cl_stack s)" arbitrary: s w)
  case Nil
  then show ?case by (simp add: drain_outbound_all.simps [of _ _ s] UserspaceStack_drain_outbound_def)
next
  case (Cons pkt pkts)
  obtain r w1 where "TunWriter_write_packet fd writer pkt w = Some (r, w1)"
    using write_packet_returns [OF assms] by blast
  then show ?case
    using Cons(1) [of "s\<lparr>cl_stack := (cl_stack s)\<lparr>in_tun_tx := pkts\<rparr>, cl_metrics := count_out (length pkt) (cl_metrics s)\<rparr>" w1]
      Cons(2) by (simp add: drain_outbound_all.simps [of _ _ s] UserspaceStack_drain_outbound_def Cons(2) [symmetric] Let_def)
qed

lemma poll_turn_runs:
  assumes "net_model ops live queue" and "write_returns fd" and "client_ok live s"
  shows "\<exists>s'. poll_turn ops fd writer ts s = Some s' \<and> client_ok live s' \<and> cs_reading s' = cs_reading s"
proof -
  have ok: "poll_ok live (cl_stack (cs_loop s))" using assms(3) by (simp add: client_ok_def)
  from poll_cycle [OF assms(1) ok] obtain b st where p: "UserspaceStack_poll ops ts (cl_stack (cs_loop s)) = Some (b, st)"
    and st: "poll_ok live st" by blast
  from drain_outbound_all_runs [OF assms(2), of writer "(cs_loop s)\<lparr>cl_stack := st\<rparr>" "cs_world s"]
  obtain l w where d: "drain_outbound_all fd writer ((cs_loop s)\<lparr>cl_stack := st\<rparr>) (cs_world s) = Some (l, w)"
    and l: "cl_stack l = st\<lparr>in_tun_tx := []\<rparr>" by auto
  show ?thesis
    using p d l st assms(3) by (simp add: poll_turn_def poll_tick_def accept_all_eq client_ok_def poll_ok_def stack_inv_def)
qed

lemma dns_turn_runs:
  assumes "write_returns fd" and "client_ok live s" and "i < length (cs_jobs s)"
  shows "\<exists>s'. dns_turn fd net writer i s = Some s' \<and> client_ok live s' \<and> cs_reading s' = cs_reading s"
proof -
  obtain pkt query where j: "cs_jobs s ! i = (pkt, query)" by (cases "cs_jobs s ! i")
  have "job_ok (pkt, query)" using assms(2,3) j nth_mem [OF assms(3)] by (auto simp: client_ok_def)
  then have v: "valid_ipv4 pkt" and q: "extract_udp_payload pkt = Some (Some query)" and len: "length pkt \<le> 1600"
    by (simp_all add: job_ok_def is_dns_packet_def)
  obtain res w1 where f: "DnsResolver_forward_raw net (di_resolver (cl_dns (cs_loop s))) query (cs_world s) = (res, w1)"
    by fastforce
  have "length query \<le> length pkt" using q by (auto simp: extract_udp_payload_eq Let_def split: if_splits)
  then have "length (dns_answer query res) \<le> 65507" using dns_answer_length [OF f] len by simp
  from build_udp_reply_ok [OF v q this] obtain reply
    where b: "build_udp_reply pkt (dns_answer query res) = Some (Some reply)" by blast
  obtain r w2 where "TunWriter_write_packet fd writer reply w1 = Some (r, w2)"
    using write_packet_returns [OF assms(1)] by blast
  moreover have "set (remove_nth i (cs_jobs s)) \<subseteq> set (cs_jobs s)"
    by (auto simp: remove_nth_def dest: in_set_takeD in_set_dropD)
  ultimately show ?thesis
    using j b handle_query_eq [OF f] assms(2) by (auto simp: dns_turn_def dns_task_def client_ok_def)
qed

lemma read_turn_runs:
  assumes "client_ok live s" and "TunReader_read_packet fd reader (cs_world s) = Some (r, w)"
  shows "\<exists>s'. read_turn fd reader s = Some s' \<and> client_ok live s'"
proof (cases r)
  case (Inl e)
  then show ?thesis using assms by (simp add: read_turn_def client_ok_def)
next
  case (Inr pkt)
  have "length pkt \<le> 1600"
    using read_loop_bound [of fd "reader_fd reader" "cs_world s"] assms(2) Inr
    by (simp add: TunReader_read_packet_def)
  from tun_packet_runs [OF this, of "cs_loop s"] obtain l job where "tun_packet pkt (cs_loop s) = Some (l, job)"
    and "cl_stack l = cl_stack (cs_loop s) \<or> cl_stack l = UserspaceStack_feed_inbound pkt (cl_stack (cs_loop s))"
    and "\<forall>j. job = Some j \<longrightarrow> job_ok j" by blast
  then show ?thesis
    using assms Inr feed_inbound_ok [of live "cl_stack (cs_loop s)" pkt]
    by (auto simp: read_turn_def client_ok_def split: option.splits)
qed

lemma client_step_keeps:
  assumes "net_model ops live queue" and "write_returns fd"
  shows "client_step ops fd net reader writer live s s' \<Longrightarrow> client_ok live s \<Longrightarrow>
     client_ok live s' \<and> (cs_reading s' \<longrightarrow> cs_reading s)"
proof (induction rule: client_step.induct)
  case (step_read s s')
  then obtain r w where "TunReader_read_packet fd reader (cs_world s) = Some (r, w)"
    by (auto simp: read_turn_def bind_eq_Some_conv)
  from read_turn_runs [OF step_read(3) this] step_read show ?case by auto
next
  case (step_dns i s s')
  then show ?case using dns_turn_runs [OF assms(2) step_dns(3,1), of net writer] by auto
next
  case (step_poll ts s s')
  then show ?case using poll_turn_runs [OF assms step_poll(2), of writer ts] by auto
qed (auto simp: client_ok_def poll_ok_def stack_inv_def)

lemma client_steps_keep:
  assumes "net_model ops live queue" and "write_returns fd"
  shows "(client_step ops fd net reader writer live)\<^sup>*\<^sup>* s s' \<Longrightarrow> client_ok live s \<Longrightarrow>
     client_ok live s' \<and> (cs_reading s' \<longrightarrow> cs_reading s)"
  by (induction rule: rtranclp_induct) (use client_step_keeps [OF assms] in blast)+

text \<open>C5: the client's main loop cannot crash and cannot be over. Take the read task, the poll task, the
  DNS tasks and the relays in any order, for any packets the device delivers, any answers of the resolver
  and any behaviour of the network: in each state they reach the next tick of the poll task returns, each
  waiting DNS task returns, and so does the read task once the device has given a packet or an error. So
  no index, slice, \<open>unwrap\<close> or arithmetic on packet data panics a task. This is just as true when the
  read task has ended with an error of the device: the poll task goes on without a reader, nothing starts
  the reader again, and \<open>join!\<close>, which waits for both, never returns.\<close>

theorem client_loop_never_stops:
  assumes "net_model ops live queue" and "write_returns fd" and "poll_ok live (cl_stack l)"
    and "(client_step ops fd net reader writer live)\<^sup>*\<^sup>* (client_sys_start l w) s"
  shows "poll_turn ops fd writer ts s \<noteq> None \<and>
     (\<forall>i < length (cs_jobs s). dns_turn fd net writer i s \<noteq> None) \<and>
     (TunReader_read_packet fd reader (cs_world s) \<noteq> None \<longrightarrow> read_turn fd reader s \<noteq> None) \<and>
     (\<not> cs_reading s \<longrightarrow> (\<forall>s'. (client_step ops fd net reader writer live)\<^sup>*\<^sup>* s s' \<longrightarrow>
        \<not> cs_reading s' \<and> poll_turn ops fd writer ts s' \<noteq> None))"
proof -
  have "client_ok live (client_sys_start l w)" using assms(3) by (simp add: client_ok_def client_sys_start_def)
  then have ok: "client_ok live s" using client_steps_keep [OF assms(1,2,4)] by blast
  have "\<not> cs_reading s' \<and> poll_turn ops fd writer ts s' \<noteq> None"
    if "\<not> cs_reading s" and "(client_step ops fd net reader writer live)\<^sup>*\<^sup>* s s'" for s'
    using client_steps_keep [OF assms(1,2) that(2) ok] that(1) poll_turn_runs [OF assms(1,2), of s' writer ts] by auto
  moreover have "read_turn fd reader s \<noteq> None" if "TunReader_read_packet fd reader (cs_world s) \<noteq> None"
    using that read_turn_runs [OF ok, of fd reader] by fastforce
  moreover have "\<forall>i < length (cs_jobs s). dns_turn fd net writer i s \<noteq> None"
    using dns_turn_runs [OF assms(2) ok, of _ net writer] by blast
  ultimately show ?thesis using poll_turn_runs [OF assms(1,2) ok, of writer ts] by auto
qed

text \<open>A device that delivers one query and then fails, and takes every packet.\<close>

definition demo_dev :: "(nat \<times> bytes list) fd_ops" where
  "demo_dev = demo_fd\<lparr>
     sys_read := \<lambda>fd n (k, out). if k = 0 then (SysOk demo_query, (1, out)) else (SysErr KindOther, (k, out)),
     sys_write := \<lambda>fd data (k, out). (SysOk (length data), (k, out @ [data]))\<rparr>"

definition demo_start :: "(demo_net, nat \<times> bytes list) client_sys" where
  "demo_start = client_sys_start \<lparr>cl_stack = Inner_new demo0 1280,
     cl_dns = DnsInterceptor_new DnsResolver_with_default, cl_metrics = EngineMetrics_new\<rparr> (0, [])"

theorem client_loop_never_stops_witness:
  "\<exists>s1 s2. read_turn demo_dev \<lparr>reader_fd = 3, reader_mtu = 1280\<rparr> demo_start = Some s1 \<and>
     cs_jobs s1 = [(demo_query, [0xAB, 0xCD, 1, 0])] \<and>
     read_turn demo_dev \<lparr>reader_fd = 3, reader_mtu = 1280\<rparr> s1 = Some s2 \<and> \<not> cs_reading s2 \<and>
     poll_turn demo_ops demo_dev \<lparr>writer_fd = 3, writer_mtu = 1280\<rparr> 7 s2 \<noteq> None \<and>
     dns_turn demo_dev no_udp \<lparr>writer_fd = 3, writer_mtu = 1280\<rparr> 0 s2 \<noteq> None"
proof -
  let ?r = "\<lparr>reader_fd = 3, reader_mtu = 1280\<rparr>" and ?t = "\<lparr>writer_fd = 3, writer_mtu = 1280\<rparr>"
  let ?live = "\<lambda>w. set (dn_socks w)"
  have wr: "write_returns demo_dev"
    unfolding write_returns_def by (subst write_loop.simps) (simp add: demo_dev_def demo_fd_def retE_def split_beta)
  have l: "poll_ok ?live (Inner_new demo0 1280)"
    using Inner_new_inv [of demo0 1280] by (simp add: poll_ok_def Inner_new_def demo0_def TunVirtualDevice_new_def)
  have e: "extract_udp_payload demo_query = Some (Some [0xAB, 0xCD, 1, 0])"
    by (simp add: extract_udp_payload_def demo_query_def from_be16_def Let_def)
  have q: "tun_packet demo_query m = Some (m\<lparr>cl_metrics := count_in (length demo_query) (cl_metrics m)\<rparr>,
      Some (demo_query, [0xAB, 0xCD, 1, 0]))" for m :: "demo_net client_loop"
  proof -
    have ip: "IpView_parse demo_query = Some (Inr (IpV4 \<lparr>v4_bytes = demo_query\<rparr>))"
      by (simp add: IpView_parse_V4 valid_ipv4_def demo_query_def)
    have pr: "IpView_protocol (IpV4 \<lparr>v4_bytes = demo_query\<rparr>) = Some Udp"
      by (simp add: Ipv4View_protocol_def IpProtocol_from_def demo_query_def)
    have "udp_dst_port demo_query = Some (Some 53)"
      by (simp add: udp_dst_port_def demo_query_def from_be16_def Let_def)
    then show ?thesis using tun_packet_eq [OF ip pr, of m] e by (simp add: Let_def)
  qed
  have len: "take 1600 demo_query = demo_query" by (rule take_all) (simp add: demo_query_def)
  have rd0: "TunReader_read_packet demo_dev ?r (0, []) = Some (Inr demo_query, (1, []))"
    unfolding TunReader_read_packet_def
    by (subst read_loop.simps) (simp add: demo_dev_def demo_fd_def retE_def BUF_SIZE_def len)
  have rd1: "TunReader_read_packet demo_dev ?r (1, []) = Some (Inl (TunIo KindOther), (1, []))"
    unfolding TunReader_read_packet_def by (subst read_loop.simps) (simp add: demo_dev_def demo_fd_def retE_def)
  obtain s1 where s1: "read_turn demo_dev ?r demo_start = Some s1" "cs_jobs s1 = [(demo_query, [0xAB, 0xCD, 1, 0])]"
      "cs_reading s1" "cs_world s1 = (1, [])"
    using rd0 q by (simp add: read_turn_def demo_start_def client_sys_start_def)
  obtain s2 where s2: "read_turn demo_dev ?r s1 = Some s2" "cs_jobs s2 = cs_jobs s1" "\<not> cs_reading s2"
    using s1(4) rd1 by (simp add: read_turn_def)
  have "client_step demo_ops demo_dev no_udp ?r ?t ?live demo_start s1"
    using s1(1) by (intro step_read) (simp_all add: demo_start_def client_sys_start_def)
  moreover have "client_step demo_ops demo_dev no_udp ?r ?t ?live s1 s2" using s1(3) s2(1) by (rule step_read)
  ultimately have "(client_step demo_ops demo_dev no_udp ?r ?t ?live)\<^sup>*\<^sup>* demo_start s2"
    by (rule converse_rtranclp_into_rtranclp [OF _ r_into_rtranclp])
  note t = client_loop_never_stops [OF demo_net_model wr _ this [unfolded demo_start_def], of 7]
  show ?thesis using t [simplified] l s1 s2 by (intro exI [of _ s1] exI [of _ s2] conjI) simp_all
qed

section \<open>The fuzz targets\<close>

text \<open>The targets of \<open>engine/fuzz/fuzz_targets\<close>; \<open>None\<close> is the panic they look for.\<close>

definition fuzz_proto_parse :: "bytes \<Rightarrow> unit option" where
  "fuzz_proto_parse data = do { _ \<leftarrow> IpView_parse data; Some () }"

definition fuzz_socks_proto :: "bytes \<Rightarrow> unit option" where
  "fuzz_socks_proto data = do { _ \<leftarrow> IpView_parse data; Some () }"

function drain_all :: "'n Inner \<Rightarrow> 'n Inner" where
  "drain_all s = (case UserspaceStack_drain_outbound s of (None, s) \<Rightarrow> s | (Some _, s) \<Rightarrow> drain_all s)"
  by pat_completeness auto

termination
  by (relation "measure (\<lambda>s. length (in_tun_tx s))") (auto simp: UserspaceStack_drain_outbound_def split: list.splits)

declare drain_all.simps [simp del]

definition fuzz_stack_inbound :: "'n net_ops \<Rightarrow> 'n \<Rightarrow> int \<Rightarrow> bytes \<Rightarrow> unit option" where
  "fuzz_stack_inbound ops net0 ts data =
     (case UserspaceStack_new net0 1280 of
        Inl _ \<Rightarrow> Some ()
      | Inr stack \<Rightarrow> do {
          (_, stack) \<leftarrow> UserspaceStack_poll ops ts (UserspaceStack_feed_inbound data stack);
          let (_, stack) = UserspaceStack_accept (drain_all stack);
          Some () })"

text \<open>What the targets test on samples holds for every input: the parser and the stack take any bytes
  without a panic, on a network without sockets and with the documented behaviour of smoltcp.\<close>

lemma fuzz_targets_pass:
  assumes "net_model ops live queue" and "live net0 = {}"
  shows "fuzz_proto_parse data = Some () \<and> fuzz_socks_proto data = Some () \<and> fuzz_stack_inbound ops net0 ts data = Some ()"
proof -
  have "poll_ok live (Inner_new net0 1280)"
    using Inner_new_inv [of net0 1280] assms(2) by (simp add: poll_ok_def Inner_new_def TunVirtualDevice_new_def)
  from poll_cycle [OF assms(1) feed_inbound_ok [OF this]] obtain b s
    where "UserspaceStack_poll ops ts (UserspaceStack_feed_inbound data (Inner_new net0 1280)) = Some (b, s)" by blast
  moreover obtain r where "IpView_parse data = Some r" using IpView_parse_not_None by blast
  ultimately show ?thesis
    by (simp add: fuzz_proto_parse_def fuzz_socks_proto_def fuzz_stack_inbound_def UserspaceStack_new_def split_beta)
qed

end
