(* ===== verification/Nat_Refinement.thy ===== *)
theory Nat_Refinement
  imports Nat_Table
begin

text \<open>
  The NAT table of \<open>gravital-stack/src/nat.rs\<close> against its abstract specification: a set of bindings
  from connections to ports that never share a port. The specification leaves open which free port a
  new connection gets; the two hash maps and the cursor of the code are one way to choose. The code
  refines it for every sequence of calls.
\<close>

section \<open>The calls of the table\<close>

datatype nat_op =
    OpInsert SocketAddr SocketAddr
  | OpForward SocketAddr SocketAddr
  | OpReverse u16
  | OpRemove u16

datatype nat_out = OutPort "u16 option" | OutFlow "flow option" | OutUnit

fun nat_exec :: "nat_op \<Rightarrow> NatTable \<Rightarrow> (nat_out \<times> NatTable) option" where
  "nat_exec (OpInsert src dst) t = do { (r, t') \<leftarrow> NatTable_insert src dst t; Some (OutPort r, t') }"
| "nat_exec (OpForward src dst) t = Some (OutPort (NatTable_lookup_forward t src dst), t)"
| "nat_exec (OpReverse p) t = Some (OutFlow (NatTable_lookup_reverse t p), t)"
| "nat_exec (OpRemove p) t = Some (OutUnit, NatTable_remove_by_vport p t)"

fun nat_run :: "nat_op list \<Rightarrow> NatTable \<Rightarrow> (nat_out list \<times> NatTable) option" where
  "nat_run [] t = Some ([], t)"
| "nat_run (c # cs) t = do { (r, t') \<leftarrow> nat_exec c t; (rs, t'') \<leftarrow> nat_run cs t'; Some (r # rs, t'') }"

section \<open>The specification\<close>

type_synonym bindings = "flow \<rightharpoonup> u16"

inductive binding_step :: "bindings \<Rightarrow> nat_op \<Rightarrow> nat_out \<Rightarrow> bindings \<Rightarrow> bool" where
  known: "B (src, dst) = Some p \<Longrightarrow> binding_step B (OpInsert src dst) (OutPort (Some p)) B"
| fresh: "B (src, dst) = None \<Longrightarrow> p \<notin> ran B \<Longrightarrow> port_ok p \<Longrightarrow>
     binding_step B (OpInsert src dst) (OutPort (Some p)) (B((src, dst) \<mapsto> p))"
| exhausted: "B (src, dst) = None \<Longrightarrow> ran B = {p. port_ok p} \<Longrightarrow>
     binding_step B (OpInsert src dst) (OutPort None) B"
| forward: "binding_step B (OpForward src dst) (OutPort (B (src, dst))) B"
| backward: "(\<And>k. r = Some k \<longleftrightarrow> B k = Some p) \<Longrightarrow> binding_step B (OpReverse p) (OutFlow r) B"
| release: "binding_step B (OpRemove p) OutUnit (\<lambda>k. if B k = Some p then None else B k)"

inductive binding_run :: "bindings \<Rightarrow> nat_op list \<Rightarrow> nat_out list \<Rightarrow> bindings \<Rightarrow> bool" where
  run_done: "binding_run B [] [] B"
| run_step: "binding_step B c r B' \<Longrightarrow> binding_run B' cs rs B'' \<Longrightarrow> binding_run B (c # cs) (r # rs) B''"

text \<open>What the specification promises of its own: bindings never share a port and stay in the range.\<close>

definition binding_ok :: "bindings \<Rightarrow> bool" where
  "binding_ok B \<longleftrightarrow> inj_on B (dom B) \<and> ran B \<subseteq> {p. port_ok p}"

lemma binding_step_ok: "binding_step B c r B' \<Longrightarrow> binding_ok B \<Longrightarrow> binding_ok B'"
proof (induction rule: binding_step.induct)
  case (fresh B src dst p)
  then show ?case by (fastforce simp: binding_ok_def inj_on_def ran_def dom_def)
next
  case (release B p)
  then show ?case by (fastforce simp: binding_ok_def inj_on_def ran_def dom_def split: if_splits)
qed

lemma binding_run_ok: "binding_run B cs rs B' \<Longrightarrow> binding_ok B \<Longrightarrow> binding_ok B'"
  by (induction rule: binding_run.induct) (auto dest: binding_step_ok)

section \<open>The simulation\<close>

lemma ran_forward:
  assumes "NatTable_inv t"
  shows "ran (nat_forward t) = dom (nat_reverse t)"
  using NatTable_invD(1) [OF assms] by (auto simp: ran_def dom_def)

lemma insert_simulates:
  assumes inv: "NatTable_inv t"
  shows "\<exists>r t'. NatTable_insert src dst t = Some (r, t') \<and> NatTable_inv t' \<and>
     binding_step (nat_forward t) (OpInsert src dst) (OutPort r) (nat_forward t')"
proof (cases "nat_forward t (src, dst)")
  case (Some p)
  then show ?thesis using inv known [where B = "nat_forward t", OF Some] by (simp add: NatTable_insert_def)
next
  case None
  from inv None show ?thesis
  proof (cases rule: insert_cases)
    case (granted vp n)
    have "vp \<notin> ran (nat_forward t)" using granted(2) by (simp add: ran_forward [OF inv] domIff)
    from fresh [where B = "nat_forward t", OF None this granted(3)] show ?thesis
      using granted(1) grant_inv [OF inv None granted(2,3,4)] by (simp add: grant_def)
  next
    case full
    have "ran (nat_forward t) = {p. port_ok p}"
      using full(2) NatTable_invD(2) [OF inv] by (auto simp: ran_forward [OF inv])
    from exhausted [where B = "nat_forward t", OF None this] show ?thesis using full(1) inv by simp
  qed
qed

lemma remove_simulates:
  assumes inv: "NatTable_inv t"
  shows "nat_forward (NatTable_remove_by_vport p t) = (\<lambda>k. if nat_forward t k = Some p then None else nat_forward t k)"
proof (rule ext)
  fix k
  show "nat_forward (NatTable_remove_by_vport p t) k = (if nat_forward t k = Some p then None else nat_forward t k)"
    using NatTable_invD(1) [OF inv, of k p]
    by (cases "nat_reverse t p") (auto simp: NatTable_remove_by_vport_def)
qed

lemma exec_simulates:
  assumes inv: "NatTable_inv t"
  shows "\<exists>r t'. nat_exec c t = Some (r, t') \<and> NatTable_inv t' \<and> binding_step (nat_forward t) c r (nat_forward t')"
proof (cases c)
  case (OpInsert src dst)
  then show ?thesis using insert_simulates [OF inv, of src dst] by auto
next
  case (OpForward src dst)
  then show ?thesis using inv by (auto simp: NatTable_lookup_forward_def intro: forward)
next
  case (OpReverse p)
  then show ?thesis
    using inv by (auto simp: NatTable_lookup_reverse_def NatTable_invD(1) [OF inv] intro!: backward)
next
  case (OpRemove p)
  then show ?thesis using remove_inv [OF inv] release [of "nat_forward t" p] by (simp add: remove_simulates [OF inv])
qed

lemma run_simulates:
  "NatTable_inv t \<Longrightarrow> \<exists>rs t'. nat_run cs t = Some (rs, t') \<and> binding_run (nat_forward t) cs rs (nat_forward t')"
proof (induction cs arbitrary: t)
  case Nil
  then show ?case by (auto intro: run_done)
next
  case (Cons c cs)
  obtain r t1 where c: "nat_exec c t = Some (r, t1)" "NatTable_inv t1" "binding_step (nat_forward t) c r (nat_forward t1)"
    using exec_simulates [OF Cons.prems] by blast
  obtain rs t2 where "nat_run cs t1 = Some (rs, t2)" "binding_run (nat_forward t1) cs rs (nat_forward t2)"
    using Cons.IH [OF c(2)] by blast
  with c show ?case by (auto intro: run_step)
qed

text \<open>C4: the NAT table refines its specification. Every sequence of insertions, lookups in both
  directions and removals on a new table returns, and its answers are answers the abstract bindings
  allow for the same calls: a known connection keeps its port, a new one gets a free port of the range,
  an insertion is refused only when the whole range is bound, a reverse lookup finds exactly the
  connection bound to the port, and a removal drops exactly that one. No two connections ever share a
  port.\<close>

theorem NatTable_refines_bindings:
  "\<exists>rs t. nat_run cs NatTable_new = Some (rs, t) \<and> binding_run Map.empty cs rs (nat_forward t) \<and>
     inj_on (nat_forward t) (dom (nat_forward t)) \<and> ran (nat_forward t) \<subseteq> {p. port_ok p}"
proof -
  have e: "nat_forward NatTable_new = Map.empty" by (simp add: NatTable_new_def)
  obtain rs t where r: "nat_run cs NatTable_new = Some (rs, t)" "binding_run Map.empty cs rs (nat_forward t)"
    using run_simulates [OF NatTable_new_inv, of cs] unfolding e by blast
  have "binding_ok (nat_forward t)" by (rule binding_run_ok [OF r(2)]) (simp add: binding_ok_def)
  with r show ?thesis by (auto simp: binding_ok_def)
qed

end
