(* ===== verification/Udpgw.thy ===== *)
theory Udpgw
  imports Packet_Views
begin

text \<open>
  The UDP gateway of \<open>gravital-udpgw\<close>: the frame codec of \<open>frame.rs\<close> and the table of associations of
  \<open>mux.rs\<close>. \<open>from_bits_truncate\<close> belongs to the bitflags crate and is the parameter \<open>trunc\<close>.
\<close>

section \<open>Frames\<close>

datatype UdpGwError = UdpGwIo | FrameTooLarge nat | UdpGwInvalidVersion u8 | Truncated | UdpGwClosed

definition VERSION :: u8 where
  "VERSION = 1"

text \<open>The bits \<open>IPV6\<close> and \<open>KEEPALIVE\<close>.\<close>

definition UdpGwFlags_all :: u8 where
  "UdpGwFlags_all = 0x01 OR 0x02"

record UdpGwFrame =
  client_id :: u32
  fr_flags :: u8
  remote_addr :: SocketAddr
  fr_payload :: bytes

definition UdpGwFrame_encode :: "UdpGwFrame \<Rightarrow> bytes" where
  "UdpGwFrame_encode f =
     (let buf = [VERSION];
          buf = buf @ [fr_flags f];
          buf = buf @ to_be32 (client_id f);
          buf = (case sa_ip (remote_addr f) of
                   V4 ip \<Rightarrow> buf @ [0x01] @ ipv4_octets ip
                 | V6 ip \<Rightarrow> buf @ [0x04] @ ipv6_octets ip);
          buf = buf @ to_be16 (sa_port (remote_addr f));
          buf = buf @ to_be16 (word_of_nat (length (fr_payload f)))
      in buf @ fr_payload f)"

text \<open>The tail of \<open>decode\<close> after the address: port, length and payload, from \<open>offset\<close> on.\<close>

definition decode_tail :: "bytes \<Rightarrow> u8 \<Rightarrow> u32 \<Rightarrow> IpAddr \<Rightarrow> nat \<Rightarrow> (UdpGwError + UdpGwFrame) option" where
  "decode_tail data flags cid ip offset =
     (if length data < offset + 4 then Some (Inl Truncated)
      else do {
        p0 \<leftarrow> idx data offset; p1 \<leftarrow> idx data (offset + 1);
        let port = from_be16 p0 p1;
        l0 \<leftarrow> idx data (offset + 2); l1 \<leftarrow> idx data (offset + 3);
        let payload_len = unat (from_be16 l0 l1);
        let offset = offset + 4;
        if length data < offset + payload_len then Some (Inl Truncated)
        else do {
          payload \<leftarrow> subslice data offset (offset + payload_len);
          Some (Inr \<lparr>client_id = cid, fr_flags = flags, remote_addr = SocketAddr ip port,
                     fr_payload = payload\<rparr>) } })"

definition UdpGwFrame_decode :: "(u8 \<Rightarrow> u8 \<Rightarrow> u8) \<Rightarrow> bytes \<Rightarrow> (UdpGwError + UdpGwFrame) option" where
  "UdpGwFrame_decode trunc data =
     (if data = [] then Some (Inl Truncated)
      else do {
        ver \<leftarrow> idx data 0;
        if ver \<noteq> VERSION then Some (Inl (UdpGwInvalidVersion ver))
        else if length data < 8 then Some (Inl Truncated)
        else do {
          raw \<leftarrow> idx data 1;
          let flags = trunc UdpGwFlags_all raw;
          c0 \<leftarrow> idx data 2; c1 \<leftarrow> idx data 3; c2 \<leftarrow> idx data 4; c3 \<leftarrow> idx data 5;
          let cid = from_be32 c0 c1 c2 c3;
          addr_type \<leftarrow> idx data 6;
          let offset = 7;
          if addr_type = 0x01 then
            (if length data < offset + 4 then Some (Inl Truncated)
             else do {
               a \<leftarrow> idx data offset; b \<leftarrow> idx data (offset + 1);
               c \<leftarrow> idx data (offset + 2); d \<leftarrow> idx data (offset + 3);
               decode_tail data flags cid (V4 (Ipv4Addr a b c d)) (offset + 4) })
          else if addr_type = 0x04 then
            (if length data < offset + 16 then Some (Inl Truncated)
             else do {
               b \<leftarrow> subslice data offset (offset + 16);
               decode_tail data flags cid (V6 (ipv6_from b)) (offset + 16) })
          else Some (Inl Truncated) } })"

section \<open>Associations\<close>

record UdpGwMux =
  next_id :: u32
  associations :: "u32 \<rightharpoonup> SocketAddr"

definition UdpGwMux_new :: UdpGwMux where
  "UdpGwMux_new = \<lparr>next_id = 1, associations = Map.empty\<rparr>"

definition UdpGwMux_allocate_id :: "SocketAddr \<Rightarrow> UdpGwMux \<Rightarrow> u32 \<times> UdpGwMux" where
  "UdpGwMux_allocate_id client_addr m =
     (let i = next_id m
      in (i, m\<lparr>next_id := i + 1, associations := (associations m)(i \<mapsto> client_addr)\<rparr>))"

definition UdpGwMux_lookup :: "UdpGwMux \<Rightarrow> u32 \<Rightarrow> SocketAddr option" where
  "UdpGwMux_lookup m i = associations m i"

definition UdpGwMux_release :: "u32 \<Rightarrow> UdpGwMux \<Rightarrow> UdpGwMux" where
  "UdpGwMux_release i m = m\<lparr>associations := (associations m)(i := None)\<rparr>"

definition UdpGwMux_active_count :: "UdpGwMux \<Rightarrow> nat" where
  "UdpGwMux_active_count m = card (dom (associations m))"

section \<open>The codec\<close>

lemma decode_tail_total: "decode_tail data flags cid ip k \<noteq> None"
  by (auto simp: decode_tail_def Let_def)

lemma decode_tail_append:
  assumes k: "length hdr = k" and n: "length payload < 65536"
  shows "decode_tail (hdr @ to_be16 port @ to_be16 (word_of_nat (length payload)) @ payload @ rest) flags cid ip k =
     Some (Inr \<lparr>client_id = cid, fr_flags = flags, remote_addr = SocketAddr ip port, fr_payload = payload\<rparr>)"
proof -
  let ?n = "word_of_nat (length payload) :: u16"
  obtain p0 p1 where p: "to_be16 port = [p0, p1]" by (simp add: to_be16_def)
  obtain l0 l1 where l: "to_be16 ?n = [l0, l1]" by (simp add: to_be16_def)
  have "from_be16 p0 p1 = port" using from_be16_to_be16 [of port] p by simp
  moreover have "from_be16 l0 l1 = ?n" using from_be16_to_be16 [of ?n] l by simp
  moreover have "unat ?n = length payload"
    by (subst unsigned_of_nat) (use n in \<open>simp add: take_bit_nat_eq_self\<close>)
  ultimately show ?thesis
    using k unfolding p l
    by (simp add: decode_tail_def Let_def nth_append)
qed

lemma frame_bytes_v4:
  assumes "bitflags_truncate trunc"
  shows "UdpGwFrame_decode trunc ([VERSION, flags] @ to_be32 cid @ [0x01] @ ipv4_octets ip @ rest) =
     decode_tail ([VERSION, flags] @ to_be32 cid @ [0x01] @ ipv4_octets ip @ rest)
       (flags AND UdpGwFlags_all) cid (V4 ip) 11"
proof -
  obtain c0 c1 c2 c3 where c: "to_be32 cid = [c0, c1, c2, c3]" by (simp add: to_be32_def)
  have "from_be32 c0 c1 c2 c3 = cid" using from_be32_to_be32 [of cid] c by simp
  then show ?thesis
    using assms decode_tail_def
    by (cases ip) (auto simp: UdpGwFrame_decode_def c bitflags_truncate_def Let_def)
qed

lemma frame_bytes_v6:
  assumes "bitflags_truncate trunc"
  shows "UdpGwFrame_decode trunc ([VERSION, flags] @ to_be32 cid @ [0x04] @ ipv6_octets ip @ rest) =
     decode_tail ([VERSION, flags] @ to_be32 cid @ [0x04] @ ipv6_octets ip @ rest)
       (flags AND UdpGwFlags_all) cid (V6 ip) 23"
proof -
  obtain c0 c1 c2 c3 where c: "to_be32 cid = [c0, c1, c2, c3]" by (simp add: to_be32_def)
  have "from_be32 c0 c1 c2 c3 = cid" using from_be32_to_be32 [of cid] c by simp
  then show ?thesis
    using assms by (simp add: UdpGwFrame_decode_def c bitflags_truncate_def Let_def)
qed

lemma split_at: "n \<le> length xs \<Longrightarrow> \<exists>ys zs. xs = ys @ zs \<and> length ys = n"
  by (rule exI [of _ "take n xs"], rule exI [of _ "drop n xs"]) simp

lemma decode_tail_Inr:
  assumes "decode_tail (hdr @ xs) flags cid ip k = Some (Inr f)" and "length hdr = k"
  shows "\<exists>port payload rest. xs = to_be16 port @ to_be16 (word_of_nat (length payload)) @ payload @ rest \<and>
     length payload < 65536 \<and>
     f = \<lparr>client_id = cid, fr_flags = flags, remote_addr = SocketAddr ip port, fr_payload = payload\<rparr>"
proof -
  have "4 \<le> length xs" using assms by (auto simp: decode_tail_def split: if_splits)
  then obtain ys zs where xs: "xs = ys @ zs" and "length ys = 4" using split_at by blast
  then obtain p0 p1 l0 l1 where ys: "ys = [p0, p1, l0, l1]" by (auto simp: length_Suc_conv numeral_eq_Suc)
  let ?n = "unat (from_be16 l0 l1)"
  have nth: "(hdr @ xs) ! k = p0" "(hdr @ xs) ! Suc k = p1" "(hdr @ xs) ! (k + 2) = l0" "(hdr @ xs) ! (k + 3) = l1"
    using assms(2) xs ys by (auto simp: nth_append)
  have "?n \<le> length zs" and f: "f = \<lparr>client_id = cid, fr_flags = flags,
      remote_addr = SocketAddr ip (from_be16 p0 p1), fr_payload = take ?n zs\<rparr>"
    using assms nth xs ys by (auto simp: decode_tail_def Let_def split: if_splits)
  moreover have "?n < 65536" by (rule unat_u16_less)
  moreover have "to_be16 (word_of_nat (length (take ?n zs))) = [l0, l1]"
    using \<open>?n \<le> length zs\<close> by (simp add: to_be16_from_be16 min_def)
  ultimately show ?thesis
    using xs ys by (intro exI [of _ "from_be16 p0 p1"] exI [of _ "take ?n zs"] exI [of _ "drop ?n zs"])
      (simp add: to_be16_from_be16)
qed

text \<open>A frame whose payload has fewer than 65536 bytes is decoded back exactly, wherever it stands
  in a buffer that continues after it. A longer payload is cut without an error: the length field
  keeps only its low 16 bits.\<close>

lemma udpgw_roundtrip:
  assumes "bitflags_truncate trunc" and "fr_flags f AND UdpGwFlags_all = fr_flags f"
  shows "(length (fr_payload f) < 65536 \<longrightarrow>
       UdpGwFrame_decode trunc (UdpGwFrame_encode f @ rest) = Some (Inr f)) \<and>
     (65536 \<le> length (fr_payload f) \<longrightarrow>
       UdpGwFrame_decode trunc (UdpGwFrame_encode f) =
         Some (Inr (f\<lparr>fr_payload := take (length (fr_payload f) mod 65536) (fr_payload f)\<rparr>)))"
proof (intro conjI impI)
  obtain cid flags ip port payload where f: "f = \<lparr>client_id = cid, fr_flags = flags,
      remote_addr = SocketAddr ip port, fr_payload = payload\<rparr>"
    by (cases f; cases "remote_addr f") auto
  have flags: "flags AND UdpGwFlags_all = flags" using assms(2) f by simp
  have dec: "UdpGwFrame_decode trunc (UdpGwFrame_encode \<lparr>client_id = cid, fr_flags = flags,
        remote_addr = SocketAddr ip port, fr_payload = xs\<rparr> @ rest) =
      Some (Inr \<lparr>client_id = cid, fr_flags = flags, remote_addr = SocketAddr ip port, fr_payload = ys\<rparr>)"
    if len: "length ys < 65536" and cut: "xs @ rest = ys @ rest'"
      and same: "(word_of_nat (length xs) :: u16) = word_of_nat (length ys)" for xs ys rest rest'
  proof (cases ip)
    case (V4 a)
    let ?h = "[VERSION, flags] @ to_be32 cid @ [0x01] @ ipv4_octets a"
    have "length ?h = 11" by simp
    from decode_tail_append [OF this len, of port rest' flags cid "V4 a"] V4 flags cut same
      frame_bytes_v4 [OF assms(1), of flags cid a "to_be16 port @ to_be16 (word_of_nat (length xs)) @ xs @ rest"]
    show ?thesis by (simp add: UdpGwFrame_encode_def Let_def)
  next
    case (V6 a)
    let ?h = "[VERSION, flags] @ to_be32 cid @ [0x04] @ ipv6_octets a"
    have "length ?h = 23" by simp
    from decode_tail_append [OF this len, of port rest' flags cid "V6 a"] V6 flags cut same
      frame_bytes_v6 [OF assms(1), of flags cid a "to_be16 port @ to_be16 (word_of_nat (length xs)) @ xs @ rest"]
    show ?thesis by (simp add: UdpGwFrame_encode_def Let_def)
  qed
  show "UdpGwFrame_decode trunc (UdpGwFrame_encode f @ rest) = Some (Inr f)"
    if "length (fr_payload f) < 65536"
    using dec [of payload payload rest rest] that f by simp
  assume "65536 \<le> length (fr_payload f)"
  let ?k = "length payload mod 65536"
  have "(word_of_nat (length payload) :: u16) = word_of_nat ?k"
    by (simp add: word_unat_eq_iff unsigned_of_nat take_bit_nat_def)
  moreover have "length (take ?k payload) = ?k" by simp
  ultimately show "UdpGwFrame_decode trunc (UdpGwFrame_encode f) =
      Some (Inr (f\<lparr>fr_payload := take (length (fr_payload f) mod 65536) (fr_payload f)\<rparr>))"
    using dec [of "take ?k payload" payload "[]" "drop ?k payload"] f by simp
qed

lemma UdpGwFrame_decode_total: "UdpGwFrame_decode trunc data \<noteq> None"
  using decode_tail_total by (cases data) (auto simp: UdpGwFrame_decode_def Let_def simp del: decode_tail_def)

text \<open>Decoding never panics, on any buffer, and accepts nothing but encodings: an accepted buffer
  starts with the encoding of the returned frame, up to flag bits that are not declared.\<close>

lemma udpgw_decode_sound:
  "UdpGwFrame_decode trunc data \<noteq> None \<and>
   (\<forall>f. UdpGwFrame_decode trunc data = Some (Inr f) \<longrightarrow>
      (\<exists>raw rest. fr_flags f = trunc UdpGwFlags_all raw \<and> length (fr_payload f) < 65536 \<and>
         data = UdpGwFrame_encode (f\<lparr>fr_flags := raw\<rparr>) @ rest))"
proof (intro conjI allI impI UdpGwFrame_decode_total)
  fix f assume dec: "UdpGwFrame_decode trunc data = Some (Inr f)"
  have "8 \<le> length data" and "data ! 0 = VERSION"
    using dec by (auto simp: UdpGwFrame_decode_def idx_def Let_def split: if_splits)
  then obtain ys xs where data: "data = ys @ xs" and "length ys = 7" using split_at [of 7 data] by auto
  then obtain raw c0 c1 c2 c3 ty where ys: "ys = [VERSION, raw, c0, c1, c2, c3, ty]"
    using \<open>data ! 0 = VERSION\<close> by (auto simp: length_Suc_conv numeral_eq_Suc)
  let ?cid = "from_be32 c0 c1 c2 c3"
  have cid: "to_be32 ?cid = [c0, c1, c2, c3]" by (rule to_be32_from_be32)
  show "\<exists>raw rest. fr_flags f = trunc UdpGwFlags_all raw \<and> length (fr_payload f) < 65536 \<and>
      data = UdpGwFrame_encode (f\<lparr>fr_flags := raw\<rparr>) @ rest"
  proof (cases "ty = 0x01")
    case True
    have "4 \<le> length xs" using dec data ys True by (auto simp: UdpGwFrame_decode_def Let_def split: if_splits)
    then obtain os xs' where xs: "xs = os @ xs'" and "length os = 4" using split_at by blast
    then obtain a b c d where os: "os = [a, b, c, d]" by (auto simp: length_Suc_conv numeral_eq_Suc)
    have "decode_tail ((ys @ os) @ xs') (trunc UdpGwFlags_all raw) ?cid (V4 (Ipv4Addr a b c d)) 11 = Some (Inr f)"
      using dec data ys True xs os by (simp add: UdpGwFrame_decode_def Let_def)
    from decode_tail_Inr [OF this] ys os obtain port payload rest
      where "xs' = to_be16 port @ to_be16 (word_of_nat (length payload)) @ payload @ rest"
        and "length payload < 65536"
        and f: "f = \<lparr>client_id = ?cid, fr_flags = trunc UdpGwFlags_all raw,
               remote_addr = SocketAddr (V4 (Ipv4Addr a b c d)) port, fr_payload = payload\<rparr>" by auto
    then show ?thesis
      using data ys os xs True cid
      by (intro exI [of _ raw] exI [of _ rest]) (simp add: UdpGwFrame_encode_def Let_def)
  next
    case False
    have ty: "ty = 0x04" and "16 \<le> length xs"
      using dec data ys False by (auto simp: UdpGwFrame_decode_def Let_def split: if_splits)
    then obtain os xs' where xs: "xs = os @ xs'" and os: "length os = 16" using split_at by blast
    have "decode_tail ((ys @ os) @ xs') (trunc UdpGwFlags_all raw) ?cid (V6 (ipv6_from os)) 23 = Some (Inr f)"
      using dec data ys ty xs os by (simp add: UdpGwFrame_decode_def Let_def)
    from decode_tail_Inr [OF this] ys os obtain port payload rest
      where "xs' = to_be16 port @ to_be16 (word_of_nat (length payload)) @ payload @ rest"
        and "length payload < 65536"
        and f: "f = \<lparr>client_id = ?cid, fr_flags = trunc UdpGwFlags_all raw,
               remote_addr = SocketAddr (V6 (ipv6_from os)) port, fr_payload = payload\<rparr>" by auto
    then show ?thesis
      using data ys os xs ty cid
      by (intro exI [of _ raw] exI [of _ rest]) (simp add: UdpGwFrame_encode_def Let_def)
  qed
qed

section \<open>The association table\<close>

text \<open>After \<open>n\<close> allocations, with fewer than $2^{32} - 1$ of them, no identifier has been used twice.\<close>

definition mux_inv :: "nat \<Rightarrow> UdpGwMux \<Rightarrow> bool" where
  "mux_inv n m \<longleftrightarrow> n < 2 ^ 32 - 1 \<and> unat (next_id m) = Suc n \<and> (\<forall>i \<in> dom (associations m). unat i < Suc n)"

inductive mux_reach :: "nat \<Rightarrow> UdpGwMux \<Rightarrow> bool" where
  mux_start: "mux_reach 0 UdpGwMux_new"
| mux_alloc: "mux_reach n m \<Longrightarrow> UdpGwMux_allocate_id a m = (i, m') \<Longrightarrow> mux_reach (Suc n) m'"
| mux_free: "mux_reach n m \<Longrightarrow> mux_reach n (UdpGwMux_release i m)"

lemma unat_next_id: "unat (i :: u32) = Suc n \<Longrightarrow> Suc n < 2 ^ 32 - 1 \<Longrightarrow> unat (i + 1) = Suc (Suc n)"
  by (simp add: unat_word_ariths)

lemma mux_reach_inv: "mux_reach n m \<Longrightarrow> n < 2 ^ 32 - 1 \<Longrightarrow> mux_inv n m"
proof (induction rule: mux_reach.induct)
  case mux_start
  then show ?case by (simp add: mux_inv_def UdpGwMux_new_def)
next
  case (mux_alloc n m a i m')
  then have inv: "mux_inv n m" by simp
  have m': "m' = m\<lparr>next_id := next_id m + 1, associations := (associations m)(next_id m \<mapsto> a)\<rparr>"
    using mux_alloc.hyps(2) by (auto simp: UdpGwMux_allocate_id_def Let_def)
  have "unat (next_id m + 1) = Suc (Suc n)"
    using inv mux_alloc.prems by (intro unat_next_id) (auto simp: mux_inv_def)
  then show ?case using inv mux_alloc.prems m' by (auto simp: mux_inv_def less_Suc_eq)
next
  case (mux_free n m i)
  then show ?case by (auto simp: mux_inv_def UdpGwMux_release_def)
qed

text \<open>As long as fewer than 4294967294 identifiers have been handed out, a new association gets an
  identifier no live association has: it is found under its identifier and every other association
  stays as it was. (After that the counter wraps and a live association can be overwritten.)\<close>

lemma mux_allocate_fresh:
  assumes "mux_reach n m" and "n < 2 ^ 32 - 2"
  shows "\<exists>i m'. UdpGwMux_allocate_id a m = (i, m') \<and> UdpGwMux_lookup m i = None \<and>
     UdpGwMux_lookup m' = (UdpGwMux_lookup m)(i \<mapsto> a) \<and> mux_reach (Suc n) m'"
proof -
  obtain i m' where al: "UdpGwMux_allocate_id a m = (i, m')" by (metis surj_pair)
  have inv: "mux_inv n m" using mux_reach_inv [OF assms(1)] assms(2) by simp
  have "i = next_id m" and m': "associations m' = (associations m)(i \<mapsto> a)"
    using al by (auto simp: UdpGwMux_allocate_id_def Let_def)
  have "\<forall>j \<in> dom (associations m). unat j < unat (next_id m)" using inv by (simp add: mux_inv_def)
  then have "i \<notin> dom (associations m)" using \<open>i = next_id m\<close> by blast
  then have "UdpGwMux_lookup m i = None" by (simp add: UdpGwMux_lookup_def domIff)
  moreover have "UdpGwMux_lookup m' = (UdpGwMux_lookup m)(i \<mapsto> a)"
    using m' by (simp add: UdpGwMux_lookup_def fun_eq_iff)
  ultimately show ?thesis using al mux_alloc [OF assms(1) al] by blast
qed

end
