(* ===== verification/Text.thy ===== *)
theory Text
  imports Utf8
begin

text \<open>
  The parts of Rust's \<open>str\<close> and \<open>fmt\<close> the engine uses, on the UTF-8 bytes of a string: literals, decimal
  and hexadecimal numbers, \<open>parse::<u16>\<close>, \<open>rfind\<close>, \<open>contains\<close>, \<open>lines\<close> and \<open>split_whitespace\<close>.
\<close>

section \<open>Literals and numbers\<close>

definition ascii :: "string \<Rightarrow> bytes" where
  "ascii s = map of_char s"

definition CRLF :: bytes where
  "CRLF = [13, 10]"

text \<open>The decimal digits \<open>{}\<close> prints for an unsigned integer.\<close>

fun dec :: "nat \<Rightarrow> bytes" where
  "dec n = (if n < 10 then [48 + word_of_nat n] else dec (n div 10) @ [48 + word_of_nat (n mod 10)])"

declare dec.simps [simp del]

text \<open>\<open>{:02x}\<close> of a byte.\<close>

definition hex_digit :: "u8 \<Rightarrow> u8" where
  "hex_digit d = (if d < 10 then 48 + d else 87 + d)"

definition hex_byte :: "u8 \<Rightarrow> bytes" where
  "hex_byte b = [hex_digit (drop_bit 4 b), hex_digit (b AND 15)]"

text \<open>\<open>parse::<u16>()\<close>: an optional \<open>+\<close>, then at least one digit; overflow is an error.\<close>

fun digits_u16 :: "nat \<Rightarrow> bytes \<Rightarrow> nat option" where
  "digits_u16 acc [] = Some acc"
| "digits_u16 acc (b # bs) =
     (if 48 \<le> b \<and> b \<le> 57
      then let acc = acc * 10 + unat (b - 48) in if acc < 65536 then digits_u16 acc bs else None
      else None)"

definition parse_u16 :: "bytes \<Rightarrow> u16 option" where
  "parse_u16 bs =
     (let ds = (case bs of b # rest \<Rightarrow> if b = 43 then rest else bs | [] \<Rightarrow> [])
      in if ds = [] then None else map_option word_of_nat (digits_u16 0 ds))"

text \<open>Printing and parsing.\<close>

lemma digits_u16_append:
  "digits_u16 acc (xs @ ys) = (case digits_u16 acc xs of None \<Rightarrow> None | Some v \<Rightarrow> digits_u16 v ys)"
  by (induction xs arbitrary: acc) (auto simp: Let_def)

lemma digit_byte:
  assumes "d < 10"
  shows "(48 :: u8) \<le> 48 + word_of_nat d \<and> 48 + word_of_nat d \<le> (57 :: u8) \<and>
     unat (48 + word_of_nat d - 48 :: u8) = d \<and> 48 + word_of_nat d \<noteq> (43 :: u8) \<and> 48 + word_of_nat d \<noteq> (58 :: u8)"
proof -
  have "d = 0 \<or> d = 1 \<or> d = 2 \<or> d = 3 \<or> d = 4 \<or> d = 5 \<or> d = 6 \<or> d = 7 \<or> d = 8 \<or> d = 9"
    using assms by presburger
  then show ?thesis by (elim disjE) simp_all
qed

lemma digits_u16_dec: "n < 65536 \<Longrightarrow> digits_u16 0 (dec n) = Some n"
proof (induction n rule: dec.induct)
  case (1 n)
  show ?case
  proof (cases "n < 10")
    case True
    then show ?thesis using digit_byte [OF True] by (subst dec.simps) (simp add: Let_def)
  next
    case False
    then have "digits_u16 0 (dec (n div 10)) = Some (n div 10)" using 1 by simp
    moreover have "n mod 10 < 10" by simp
    ultimately show ?thesis
      using False 1(2) digit_byte [of "n mod 10"] by (subst dec.simps) (simp add: digits_u16_append Let_def)
  qed
qed

lemma dec_shape: "dec n \<noteq> [] \<and> 58 \<notin> set (dec n) \<and> hd (dec n) \<noteq> 43"
proof (induction n rule: dec.induct)
  case (1 n)
  show ?case
  proof (cases "n < 10")
    case True
    then show ?thesis using digit_byte [OF True] by (subst (1 2 3) dec.simps) auto
  next
    case False
    then have "dec (n div 10) \<noteq> [] \<and> 58 \<notin> set (dec (n div 10)) \<and> hd (dec (n div 10)) \<noteq> 43" using 1 by simp
    then show ?thesis using False digit_byte [of "n mod 10"] by (subst (1 2 3) dec.simps) auto
  qed
qed

lemma parse_u16_dec: "parse_u16 (dec (unat p)) = Some p"
proof -
  obtain b bs where d: "dec (unat p) = b # bs" "b \<noteq> 43" using dec_shape [of "unat p"] by (cases "dec (unat p)") auto
  then show ?thesis using digits_u16_dec [OF unat_u16_less [of p]] by (auto simp: parse_u16_def Let_def)
qed

section \<open>Searching\<close>

text \<open>\<open>rfind\<close> of an ASCII character: the byte index of its last occurrence.\<close>

fun rfind :: "u8 \<Rightarrow> bytes \<Rightarrow> nat option" where
  "rfind c [] = None"
| "rfind c (b # bs) =
     (case rfind c bs of Some i \<Rightarrow> Some (Suc i) | None \<Rightarrow> if b = c then Some 0 else None)"

lemma rfind_None: "rfind c bs = None \<longleftrightarrow> c \<notin> set bs"
  by (induction bs) (auto split: option.splits)

lemma rfind_last: "c \<notin> set ys \<Longrightarrow> rfind c (xs @ c # ys) = Some (length xs)"
proof (induction xs)
  case Nil
  then have "rfind c ys = None" by (simp add: rfind_None)
  then show ?case by simp
qed simp

lemma rfind_Some:
  "rfind c bs = Some i \<Longrightarrow> i < length bs \<and> bs = take i bs @ c # drop (Suc i) bs \<and> c \<notin> set (drop (Suc i) bs)"
proof (induction bs arbitrary: i)
  case (Cons b bs)
  show ?case
  proof (cases "rfind c bs")
    case None
    then have "c \<notin> set bs" by (simp add: rfind_None)
    then show ?thesis using Cons.prems None by (auto split: if_splits)
  next
    case (Some j)
    then show ?thesis using Cons.IH [OF Some] Cons.prems by auto
  qed
qed simp

text \<open>\<open>contains\<close> of a string: some suffix starts with it.\<close>

fun starts_with :: "bytes \<Rightarrow> bytes \<Rightarrow> bool" where
  "starts_with s [] = True"
| "starts_with [] (p # ps) = False"
| "starts_with (b # bs) (p # ps) = (b = p \<and> starts_with bs ps)"

fun contains :: "bytes \<Rightarrow> bytes \<Rightarrow> bool" where
  "contains [] p = starts_with [] p"
| "contains (b # bs) p = (starts_with (b # bs) p \<or> contains bs p)"

lemma starts_with_iff: "starts_with s p \<longleftrightarrow> (\<exists>r. s = p @ r)"
  by (induction s p rule: starts_with.induct) auto

lemma contains_iff: "contains s p \<longleftrightarrow> (\<exists>l r. s = l @ p @ r)"
proof (induction s p rule: contains.induct)
  case (2 b bs p)
  show ?case
  proof
    assume "contains (b # bs) p"
    then consider r where "b # bs = p @ r" | l r where "bs = l @ p @ r"
      using 2 by (auto simp: starts_with_iff)
    then show "\<exists>l r. b # bs = l @ p @ r" by cases (metis append_Nil, metis append_Cons)
  next
    assume "\<exists>l r. b # bs = l @ p @ r"
    then obtain l r where s: "b # bs = l @ p @ r" by blast
    show "contains (b # bs) p"
    proof (cases l)
      case Nil
      then have "starts_with (b # bs) p" using s by (auto simp: starts_with_iff)
      then show ?thesis by simp
    next
      case (Cons a l')
      then have "contains bs p" using s 2 by auto
      then show ?thesis by simp
    qed
  qed
qed (auto simp: starts_with_iff)

section \<open>Lines and words\<close>

text \<open>\<open>lines().next()\<close>: up to the first newline, without a carriage return before it.\<close>

definition strip_cr :: "bytes \<Rightarrow> bytes" where
  "strip_cr l = (if l \<noteq> [] \<and> last l = 13 then butlast l else l)"

definition first_line :: "bytes \<Rightarrow> bytes option" where
  "first_line s =
     (if s = [] then None
      else if 10 \<in> set s then Some (strip_cr (takeWhile (\<lambda>b. b \<noteq> 10) s)) else Some s)"

text \<open>The length of the white space character a string starts with, 0 if it starts with another one:
  the characters with the Unicode property \<open>White_Space\<close>.\<close>

definition ws_len :: "bytes \<Rightarrow> nat" where
  "ws_len s =
     (case s of
        [] \<Rightarrow> 0
      | a # s1 \<Rightarrow>
          if a = 32 \<or> 9 \<le> a \<and> a \<le> 13 then 1
          else (case s1 of
             [] \<Rightarrow> 0
           | b # s2 \<Rightarrow>
               if a = 0xC2 \<and> (b = 0x85 \<or> b = 0xA0) then 2
               else (case s2 of
                  [] \<Rightarrow> 0
                | c # _ \<Rightarrow>
                    if a = 0xE1 \<and> b = 0x9A \<and> c = 0x80 \<or>
                       a = 0xE2 \<and> b = 0x80 \<and> (0x80 \<le> c \<and> c \<le> 0x8A \<or> c = 0xA8 \<or> c = 0xA9 \<or> c = 0xAF) \<or>
                       a = 0xE2 \<and> b = 0x81 \<and> c = 0x9F \<or> a = 0xE3 \<and> b = 0x80 \<and> c = 0x80
                    then 3 else 0)))"

text \<open>\<open>split_whitespace\<close>: \<open>word\<close> is the word being read.\<close>

fun words_from :: "bytes \<Rightarrow> bytes \<Rightarrow> bytes list" where
  "words_from word [] = (if word = [] then [] else [word])"
| "words_from word (b # bs) =
     (case ws_len (b # bs) of
        0 \<Rightarrow> words_from (word @ [b]) bs
      | Suc n \<Rightarrow> (if word = [] then [] else [word]) @ words_from [] (drop n bs))"

definition split_whitespace :: "bytes \<Rightarrow> bytes list" where
  "split_whitespace s = words_from [] s"

end
