(* ===== verification/Obs.thy ===== *)
theory Obs
  imports Text
begin

text \<open>
  Structured events of \<open>gravital-obs\<close>: \<open>event.rs\<close>, \<open>layer.rs\<close>, \<open>sink.rs\<close> and the global sink of \<open>lib.rs\<close>.
  The clock, the identifiers of the \<open>ulid\<close> crate and the hash of the time are inputs of \<open>GsEvent_new\<close>; the
  JSON text of an event is made by \<open>serde_json\<close>, the parameter \<open>to_json\<close>, which may fail.
\<close>

section \<open>Events\<close>

datatype Level = Trace | Debug | Info | Warn | Error

fun Level_as_str :: "Level \<Rightarrow> bytes" where
  "Level_as_str Trace = ascii ''trace''"
| "Level_as_str Debug = ascii ''debug''"
| "Level_as_str Info = ascii ''info''"
| "Level_as_str Warn = ascii ''warn''"
| "Level_as_str Error = ascii ''error''"

datatype Json = JStr bytes | JNum nat | JObj "(bytes \<times> Json) list" | JMap "bytes \<Rightarrow> bytes option"

record GsEvent =
  ev_ts :: bytes
  ev_schema :: bytes
  ev_lvl :: Level
  ev_kind :: bytes
  ev_trace_id :: bytes
  ev_span_id :: bytes
  ev_module :: bytes
  ev_payload :: Json

text \<open>\<open>{:08x}\<close> of the low 32 bits of the hash.\<close>

definition rand_span :: "u64 \<Rightarrow> u32" where
  "rand_span h = ucast h"

definition hex8 :: "u32 \<Rightarrow> bytes" where
  "hex8 v = concat (map hex_byte (to_be32 v))"

record stamp =
  st_now :: bytes
  st_ulid :: bytes
  st_hash :: u64

definition GsEvent_new :: "stamp \<Rightarrow> Level \<Rightarrow> bytes \<Rightarrow> bytes \<Rightarrow> Json \<Rightarrow> GsEvent" where
  "GsEvent_new st lvl kind module payload =
     \<lparr>ev_ts = st_now st, ev_schema = ascii ''gs.event.v1'', ev_lvl = lvl, ev_kind = kind,
      ev_trace_id = st_ulid st, ev_span_id = hex8 (rand_span (st_hash st)), ev_module = module,
      ev_payload = payload\<rparr>"

definition GsEvent_with_trace :: "bytes \<Rightarrow> GsEvent \<Rightarrow> GsEvent" where
  "GsEvent_with_trace trace_id ev = ev\<lparr>ev_trace_id := trace_id\<rparr>"

section \<open>Sinks\<close>

text \<open>A sink, with what it has written so far.\<close>

datatype Sink = StdoutSink (printed: "bytes list") | NullSink | BufferSink (buffer_lines: "bytes list")

definition BufferSink_new :: Sink where
  "BufferSink_new = BufferSink []"

fun Sink_write :: "bytes \<Rightarrow> Sink \<Rightarrow> Sink" where
  "Sink_write json_line (StdoutSink out) = StdoutSink (out @ [json_line])"
| "Sink_write json_line NullSink = NullSink"
| "Sink_write json_line (BufferSink lines) = BufferSink (lines @ [json_line])"

text \<open>The global sink is a cell that can be set once.\<close>

definition obs_init :: "Sink \<Rightarrow> Sink option \<Rightarrow> Sink option" where
  "obs_init sink g = (case g of None \<Rightarrow> Some sink | Some old \<Rightarrow> Some old)"

definition emit :: "(GsEvent \<Rightarrow> bytes option) \<Rightarrow> GsEvent \<Rightarrow> Sink option \<Rightarrow> Sink option" where
  "emit to_json event g =
     (case g of
        None \<Rightarrow> None
      | Some sink \<Rightarrow>
          (case to_json event of
             None \<Rightarrow> Some sink
           | Some json \<Rightarrow> Some (Sink_write json sink)))"

text \<open>The macro: the module is the given one, or the one it is used in.\<close>

definition gs_event ::
  "(GsEvent \<Rightarrow> bytes option) \<Rightarrow> stamp \<Rightarrow> Level \<Rightarrow> bytes \<Rightarrow> bytes option \<Rightarrow> bytes \<Rightarrow> Json \<Rightarrow> Sink option \<Rightarrow> Sink option" where
  "gs_event to_json now level kind module module_path payload g =
     emit to_json (GsEvent_new now level kind (case module of Some m \<Rightarrow> m | None \<Rightarrow> module_path) payload) g"

section \<open>The tracing layer\<close>

text \<open>A field of a tracing event is recorded as a string or through its \<open>Debug\<close> text.\<close>

datatype FieldValue = FieldStr bytes | FieldDebug bytes

record FieldVisitor =
  v_kind :: "bytes option"
  v_fields :: "bytes \<Rightarrow> bytes option"

definition FieldVisitor_default :: FieldVisitor where
  "FieldVisitor_default = \<lparr>v_kind = None, v_fields = Map.empty\<rparr>"

definition record_str :: "bytes \<Rightarrow> bytes \<Rightarrow> FieldVisitor \<Rightarrow> FieldVisitor" where
  "record_str name val v =
     (if name = ascii ''kind'' then v\<lparr>v_kind := Some val\<rparr> else v\<lparr>v_fields := (v_fields v)(name \<mapsto> val)\<rparr>)"

definition record_debug :: "bytes \<Rightarrow> bytes \<Rightarrow> FieldVisitor \<Rightarrow> FieldVisitor" where
  "record_debug name val v = v\<lparr>v_fields := (v_fields v)(name \<mapsto> val)\<rparr>"

fun record_field :: "bytes \<times> FieldValue \<Rightarrow> FieldVisitor \<Rightarrow> FieldVisitor" where
  "record_field (name, FieldStr s) v = record_str name s v"
| "record_field (name, FieldDebug s) v = record_debug name s v"

record tracing_event =
  te_level :: Level
  te_name :: bytes
  te_module_path :: "bytes option"
  te_fields :: "(bytes \<times> FieldValue) list"

definition layer_event :: "stamp \<Rightarrow> tracing_event \<Rightarrow> GsEvent" where
  "layer_event st event =
     (let visitor = fold record_field (te_fields event) FieldVisitor_default;
          kind = (case v_kind visitor of Some k \<Rightarrow> k | None \<Rightarrow> te_name event);
          module = (case te_module_path event of Some m \<Rightarrow> m | None \<Rightarrow> ascii ''unknown'')
      in GsEvent_new st (te_level event) kind module (JMap (v_fields visitor)))"

definition GravitalLayer_on_event ::
  "(GsEvent \<Rightarrow> bytes option) \<Rightarrow> stamp \<Rightarrow> tracing_event \<Rightarrow> Sink option \<Rightarrow> Sink option" where
  "GravitalLayer_on_event to_json st event = emit to_json (layer_event st event)"

section \<open>What reaches the sink\<close>

text \<open>The lines of a sink that keeps them.\<close>

fun sink_lines :: "Sink option \<Rightarrow> bytes list" where
  "sink_lines (Some (StdoutSink out)) = out"
| "sink_lines (Some (BufferSink lines)) = lines"
| "sink_lines _ = []"

fun keeps_lines :: "Sink \<Rightarrow> bool" where
  "keeps_lines NullSink = False"
| "keeps_lines _ = True"

lemma emit_lines:
  assumes "keeps_lines sink" and "to_json ev = Some json"
  shows "\<exists>sink'. emit to_json ev (Some sink) = Some sink' \<and> keeps_lines sink' \<and>
     sink_lines (Some sink') = sink_lines (Some sink) @ [json]"
  using assms by (cases sink) (simp_all add: emit_def)

lemma visited_fields:
  assumes "distinct (map fst fs)"
  shows "v_kind (fold record_field fs v) =
       (case map_of fs (ascii ''kind'') of Some (FieldStr t) \<Rightarrow> Some t | _ \<Rightarrow> v_kind v) \<and>
     v_fields (fold record_field fs v) n =
       (case map_of fs n of
          Some (FieldStr t) \<Rightarrow> if n = ascii ''kind'' then v_fields v n else Some t
        | Some (FieldDebug t) \<Rightarrow> Some t | None \<Rightarrow> v_fields v n)"
  using assms
proof (induction fs arbitrary: v)
  case (Cons f fs)
  obtain name val where f: "f = (name, val)" by (cases f)
  have new: "map_of fs name = None" using Cons.prems by (simp add: f map_of_eq_None_iff)
  show ?case
    using Cons.IH [of "record_field f v"] Cons.prems new
    by (cases val) (auto simp: f record_str_def record_debug_def split: option.splits FieldValue.splits)
qed simp

fun log_all ::
  "(GsEvent \<Rightarrow> bytes option) \<Rightarrow> (stamp \<times> tracing_event) list \<Rightarrow> Sink option \<Rightarrow> Sink option" where
  "log_all to_json [] g = g"
| "log_all to_json ((st, ev) # evs) g = log_all to_json evs (GravitalLayer_on_event to_json st ev g)"

lemma log_all_lines:
  assumes "keeps_lines sink" and "\<forall>(st, ev) \<in> set evs. to_json (layer_event st ev) \<noteq> None"
  shows "sink_lines (log_all to_json evs (Some sink)) =
     sink_lines (Some sink) @ map (\<lambda>(st, ev). the (to_json (layer_event st ev))) evs"
  using assms
proof (induction evs arbitrary: sink)
  case (Cons e evs)
  obtain st ev where e: "e = (st, ev)" by (cases e)
  from Cons.prems e obtain json where j: "to_json (layer_event st ev) = Some json" by auto
  from emit_lines [where to_json = to_json, OF Cons.prems(1) j] obtain sink' where s: "emit to_json (layer_event st ev) (Some sink) = Some sink'"
    "keeps_lines sink'" "sink_lines (Some sink') = sink_lines (Some sink) @ [json]" by blast
  show ?case using Cons.IH [OF s(2)] Cons.prems(2) s j by (simp add: e GravitalLayer_on_event_def)
qed simp

text \<open>Every tracing event becomes one line of the sink, in order, and loses nothing on the way. For an
  event with distinct field names the kind is its string field \<open>kind\<close>, or the event's name if there is
  none, and the payload holds every other field with its value. The sink is the first one installed:
  installing another later changes nothing. Without a sink events are dropped.\<close>

lemma events_reach_sink:
  assumes "keeps_lines sink" and "\<forall>(st, ev) \<in> set evs. to_json (layer_event st ev) \<noteq> None"
    and "distinct (map fst (te_fields ev))"
  shows "sink_lines (log_all to_json evs (obs_init other (obs_init sink None))) =
       sink_lines (Some sink) @ map (\<lambda>(st, ev). the (to_json (layer_event st ev))) evs \<and>
     log_all to_json [(st, ev)] None = None \<and>
     ev_lvl (layer_event st ev) = te_level ev \<and>
     ev_kind (layer_event st ev) =
       (case map_of (te_fields ev) (ascii ''kind'') of Some (FieldStr k) \<Rightarrow> k | _ \<Rightarrow> te_name ev) \<and>
     (\<exists>m. ev_payload (layer_event st ev) = JMap m \<and>
        (\<forall>n. n \<noteq> ascii ''kind'' \<longrightarrow>
           m n = map_option (\<lambda>v. case v of FieldStr t \<Rightarrow> t | FieldDebug t \<Rightarrow> t) (map_of (te_fields ev) n)))"
proof -
  note v = visited_fields [OF assms(3), of FieldVisitor_default]
  have "obs_init other (obs_init sink None) = Some sink" by (simp add: obs_init_def)
  moreover have "log_all to_json [(st, ev)] None = None" by (simp add: GravitalLayer_on_event_def emit_def)
  moreover have "ev_lvl (layer_event st ev) = te_level ev" by (simp add: layer_event_def Let_def GsEvent_new_def)
  moreover have "ev_kind (layer_event st ev) =
      (case map_of (te_fields ev) (ascii ''kind'') of Some (FieldStr k) \<Rightarrow> k | _ \<Rightarrow> te_name ev)"
    using v by (simp add: layer_event_def Let_def GsEvent_new_def FieldVisitor_default_def split: option.splits FieldValue.splits)
  moreover have "ev_payload (layer_event st ev) = JMap (v_fields (fold record_field (te_fields ev) FieldVisitor_default))"
    by (simp add: layer_event_def Let_def GsEvent_new_def)
  moreover have "v_fields (fold record_field (te_fields ev) FieldVisitor_default) n =
      map_option (\<lambda>v. case v of FieldStr t \<Rightarrow> t | FieldDebug t \<Rightarrow> t) (map_of (te_fields ev) n)"
    if "n \<noteq> ascii ''kind''" for n
    using v [of n] that by (simp add: FieldVisitor_default_def split: option.splits FieldValue.splits)
  ultimately show ?thesis using log_all_lines [OF assms(1,2)] by simp
qed

end
