(* ===== verification/Mcp.thy ===== *)
theory Mcp
  imports Obs Accept_Loop
begin

text \<open>
  The local diagnostic endpoint of \<open>gravital-obs/src/mcp.rs\<close>: its token, the accept loop restricted to
  loopback, and one request. The hash of the time behind the token is an input; the text of a JSON
  value is made by \<open>serde_json\<close>, the parameter \<open>to_string\<close>.
\<close>

section \<open>The token\<close>

definition MCP_PORT :: u16 where
  "MCP_PORT = 7423"

definition MCP_BIND :: IpAddr where
  "MCP_BIND = V4 (Ipv4Addr 127 0 0 1)"

datatype McpEndpoint = McpEndpoint (mcp_token: bytes)

text \<open>\<open>rand_byte\<close> takes the low byte of the hash of the current time; \<open>hashes\<close> are the 32 hashes.\<close>

definition rand_byte :: "u64 \<Rightarrow> u8" where
  "rand_byte h = ucast h"

definition McpEndpoint_new :: "u64 list \<Rightarrow> McpEndpoint" where
  "McpEndpoint_new hashes = McpEndpoint (concat (map (\<lambda>h. hex_byte (rand_byte h)) hashes))"

definition McpEndpoint_token :: "McpEndpoint \<Rightarrow> bytes" where
  "McpEndpoint_token m = mcp_token m"

section \<open>The accept loop\<close>

fun is_loopback :: "IpAddr \<Rightarrow> bool" where
  "is_loopback (V4 (Ipv4Addr a b c d)) = (a = 127)"
| "is_loopback (V6 (Ipv6Addr a b c d)) = (a = 0 \<and> b = 0 \<and> c = 0 \<and> d = 1)"

datatype McpAction = McpServe nat | McpReject nat

definition mcp_accept :: "nat \<Rightarrow> SocketAddr \<Rightarrow> McpAction" where
  "mcp_accept stream peer = (if \<not> is_loopback (sa_ip peer) then McpReject stream else McpServe stream)"

text \<open>The accepting branch of the \<open>select!\<close> has the pattern \<open>Ok(...)\<close>: when \<open>accept\<close> fails the branch is
  disabled until the other branch has run, and connections wait in the backlog of the listener. The
  loop returns whether it has ended and what it did with each connection.\<close>

fun mcp_loop :: "bool \<Rightarrow> (nat \<times> SocketAddr) list \<Rightarrow> loop_event list \<Rightarrow> bool \<times> McpAction list" where
  "mcp_loop disabled backlog [] = (False, [])"
| "mcp_loop disabled backlog (Accepted stream peer # evs) =
     (if disabled then mcp_loop True (backlog @ [(stream, peer)]) evs
      else apsnd (Cons (mcp_accept stream peer)) (mcp_loop False [] evs))"
| "mcp_loop disabled backlog (AcceptFailed e # evs) = mcp_loop True backlog evs"
| "mcp_loop disabled backlog (ShutdownChanged v # evs) =
     (if v then (True, [])
      else apsnd (append (map (\<lambda>(s, p). mcp_accept s p) backlog)) (mcp_loop False [] evs))"

definition McpEndpoint_serve ::
  "'w tcp_ops \<Rightarrow> loop_event list \<Rightarrow> 'w \<Rightarrow> (bool \<times> McpAction list) \<times> 'w" where
  "McpEndpoint_serve io evs w =
     (case tcp_bind io (SocketAddr MCP_BIND MCP_PORT) w of
        (Inl e, w) \<Rightarrow> ((True, []), w)
      | (Inr listener, w) \<Rightarrow> (mcp_loop False [] evs, w))"

section \<open>One request\<close>

definition extract_path :: "bytes \<Rightarrow> bytes" where
  "extract_path req =
     (case first_line req of
        None \<Rightarrow> ascii ''/''
      | Some l \<Rightarrow> (case split_whitespace l of _ # p # _ \<Rightarrow> p | _ \<Rightarrow> ascii ''/''))"

definition get_state_json :: Json where
  "get_state_json =
     JObj [(ascii ''schema'', JStr (ascii ''gs.event.v1'')), (ascii ''state'', JStr (ascii ''Idle'')),
           (ascii ''note'', JStr (ascii ''engine not started''))]"

definition get_metrics_json :: Json where
  "get_metrics_json =
     JObj [(ascii ''bytes_in'', JNum 0), (ascii ''bytes_out'', JNum 0),
           (ascii ''active_tcp_sessions'', JNum 0), (ascii ''active_udp_assocs'', JNum 0)]"

definition get_dns_check_json :: Json where
  "get_dns_check_json = JObj [(ascii ''status'', JStr (ascii ''not_running''))]"

definition unauthorized :: bytes where
  "unauthorized = ascii ''HTTP/1.1 401 Unauthorized'' @ CRLF @ ascii ''Content-Length: 0'' @ CRLF @ CRLF"

definition mcp_response :: "(Json \<Rightarrow> bytes) \<Rightarrow> bytes \<Rightarrow> bytes" where
  "mcp_response to_string path =
     (let body = (if path = ascii ''/state'' then to_string get_state_json
                  else if path = ascii ''/metrics'' then to_string get_metrics_json
                  else if path = ascii ''/dns/check'' then to_string get_dns_check_json
                  else ascii ''{'' @ [34] @ ascii ''error'' @ [34] @ ascii '':'' @ [34] @ ascii ''not found'' @ [34] @ ascii ''}'');
          status = (if path = ascii ''/state'' \<or> path = ascii ''/metrics'' \<or> path = ascii ''/dns/check''
                    then ascii ''200 OK'' else ascii ''404 Not Found'')
      in ascii ''HTTP/1.1 '' @ status @ CRLF @ ascii ''Content-Type: application/json'' @ CRLF @
         ascii ''Content-Length: '' @ dec (length body) @ CRLF @ CRLF @ body)"

definition handle_mcp_request ::
  "'w tcp_ops \<Rightarrow> (Json \<Rightarrow> bytes) \<Rightarrow> nat \<Rightarrow> bytes \<Rightarrow> ('w, IoKind, unit) io" where
  "handle_mcp_request io to_string stream token =
     bindE (read_some io stream 4096) (\<lambda>buf.
     let req = (if utf8_valid buf then buf else [])
     in if \<not> contains req (ascii ''Authorization: Bearer '' @ token) then
          bindE (write_all io stream unauthorized) (\<lambda>_. retE ())
        else write_all io stream (mcp_response to_string (extract_path req)))"

section \<open>Who is served, and with what\<close>

lemma mcp_serve_loopback:
  "set backlog \<subseteq> P \<Longrightarrow> \<forall>s p. Accepted s p \<in> set evs \<longrightarrow> (s, p) \<in> P \<Longrightarrow>
     McpServe s \<in> set (snd (mcp_loop disabled backlog evs)) \<Longrightarrow> \<exists>p. (s, p) \<in> P \<and> is_loopback (sa_ip p)"
  by (induction disabled backlog evs rule: mcp_loop.induct)
    (auto simp: mcp_accept_def split: if_splits, blast+)

lemma mcp_disabled_serves_nobody:
  "(\<forall>v. ShutdownChanged v \<notin> set evs) \<Longrightarrow> mcp_loop True backlog evs = (False, [])"
proof (induction evs arbitrary: backlog)
  case (Cons e evs)
  then show ?case by (cases e) auto
qed simp

text \<open>C38: the diagnostic endpoint answers only requests that carry its token. Whatever the first 4096
  bytes of a connection are, the answer is 401 unless they are UTF-8 text that contains
  \<open>Authorization: Bearer\<close> and the token; no engine data is in that answer. The test is for a
  substring, so the token counts anywhere in the request, also in its path, and with anything after
  it. Only connections from a loopback address are served. After one failed \<open>accept\<close> no connection is
  served until the shutdown flag changes.\<close>

theorem mcp_requires_token:
  assumes "stream_model io pend sent" and "read_some io stream 4096 w = (Inr buf, w1)" and "sent w1 = sent w"
  shows "(\<exists>w'. handle_mcp_request io to_string stream token w = (Inr (), w') \<and>
       sent w' stream = sent w stream @
         (if utf8_valid buf \<and> (\<exists>l r. buf = l @ ascii ''Authorization: Bearer '' @ token @ r)
          then mcp_response to_string (extract_path buf) else unauthorized)) \<and>
     (McpServe s \<in> set (snd (mcp_loop False [] evs)) \<longrightarrow>
        (\<exists>peer. Accepted s peer \<in> set evs \<and> is_loopback (sa_ip peer))) \<and>
     ((\<forall>v. ShutdownChanged v \<notin> set evs) \<longrightarrow> mcp_loop False [] (AcceptFailed e # evs) = (False, []))"
proof (intro conjI impI)
  let ?auth = "ascii ''Authorization: Bearer '' @ token"
  have nil: "\<not> contains [] ?auth" by (simp add: ascii_def)
  have c: "contains (if utf8_valid buf then buf else []) ?auth \<longleftrightarrow>
      utf8_valid buf \<and> (\<exists>l r. buf = l @ ascii ''Authorization: Bearer '' @ token @ r)"
    using nil by (auto simp: contains_iff)
  let ?resp = "if utf8_valid buf \<and> (\<exists>l r. buf = l @ ascii ''Authorization: Bearer '' @ token @ r)
      then mcp_response to_string (extract_path buf) else unauthorized"
  obtain w2 where "write_all io stream ?resp w1 = (Inr (), w2)"
    and "sent w2 = (sent w1)(stream := sent w1 stream @ ?resp)"
    by (rule stream_write [OF assms(1)])
  then show "\<exists>w'. handle_mcp_request io to_string stream token w = (Inr (), w') \<and> sent w' stream = sent w stream @ ?resp"
    using assms(2,3) c by (auto simp: handle_mcp_request_def Let_def io_simps split: if_splits)
next
  assume "McpServe s \<in> set (snd (mcp_loop False [] evs))"
  then show "\<exists>peer. Accepted s peer \<in> set evs \<and> is_loopback (sa_ip peer)"
    using mcp_serve_loopback [of "[]" "{(s, p). Accepted s p \<in> set evs}" evs s False] by auto
next
  assume "\<forall>v. ShutdownChanged v \<notin> set evs"
  then show "mcp_loop False [] (AcceptFailed e # evs) = (False, [])" by (simp add: mcp_disabled_serves_nobody)
qed

text \<open>A request with the token in its path is served.\<close>

theorem mcp_requires_token_witness:
  "\<exists>w'. handle_mcp_request demo_tcp (\<lambda>_. [123, 125]) 0 (ascii ''t'')
       (\<lambda>s. ascii ''GET /Authorization: Bearer tx'', \<lambda>_. []) = (Inr (), w') \<and>
     snd w' 0 = mcp_response (\<lambda>_. [123, 125]) (extract_path (ascii ''GET /Authorization: Bearer tx''))"
proof -
  let ?buf = "ascii ''GET /Authorization: Bearer tx''"
  let ?w = "(\<lambda>s::nat. ?buf, \<lambda>_::nat. [] :: bytes)"
  have len: "length ?buf = 29" by (simp add: ascii_def)
  have r: "read_some demo_tcp 0 4096 ?w = (Inr ?buf, ((fst ?w)(0 := []), snd ?w))"
    by (simp add: demo_tcp_def len)
  have u: "utf8_valid ?buf" by (rule ascii_valid) (simp add: ascii_def)
  have b: "?buf = ascii ''GET /'' @ ascii ''Authorization: Bearer '' @ ascii ''t'' @ ascii ''x''"
    by (simp add: ascii_def)
  have c: "utf8_valid ?buf \<and> (\<exists>l r. ?buf = l @ ascii ''Authorization: Bearer '' @ ascii ''t'' @ r)"
    by (rule conjI [OF u], rule exI, rule exI, rule b)
  have f: "snd ((fst ?w)(0 := []), snd ?w) = snd ?w" by simp
  note m = mcp_requires_token [OF demo_stream_model, OF r, OF f, of "\<lambda>_. [123, 125]" "ascii ''t''", THEN conjunct1]
  from m obtain w' where h: "handle_mcp_request demo_tcp (\<lambda>_. [123, 125]) 0 (ascii ''t'') ?w = (Inr (), w')"
    and s: "snd w' 0 = snd ?w 0 @ (if utf8_valid ?buf \<and> (\<exists>l r. ?buf = l @ ascii ''Authorization: Bearer '' @ ascii ''t'' @ r)
      then mcp_response (\<lambda>_. [123, 125]) (extract_path ?buf) else unauthorized)"
    by (elim exE conjE)
  have "snd w' 0 = mcp_response (\<lambda>_. [123, 125]) (extract_path ?buf)"
    using s unfolding if_P [OF c] by (simp only: snd_conv append_Nil)
  with h show ?thesis by (intro exI conjI)
qed

end
