(* ===== verification/Session.thy ===== *)
theory Session
  imports GS_Prelude
begin

text \<open>
  The session automaton of \<open>gravital-engine/src/session.rs\<close>, with the errors of \<open>error.rs\<close>: states,
  events, the transition function, \<open>dispatch\<close> with its listeners, and the reconnect delay. Listeners
  are values of a type \<open>'l\<close>; a call of a listener is an entry of the log \<open>dispatch\<close> returns. The
  lock-level behaviour of \<open>dispatch\<close> (a read lock, then a write lock) is a step relation on a shared
  state and the threads inside \<open>dispatch\<close>.
\<close>

section \<open>Errors\<close>

datatype EngineError =
    AlreadyInitialized
  | NotInitialized
  | ConfigInvalid string
  | InvalidFd
  | InvalidTransition
  | EngineIo
  | Panic string

section \<open>States and events\<close>

datatype SessionMode = Client | Server

datatype StopReason = StopUserRequest | StopFatalError | StopShutdown

datatype FailureKind =
    PermissionDenied | FailConfigInvalid | ProxyUnreachable | DnsResolveFailed
  | TunOpenFailed | EngineCrashed | UpstreamVpnDown | Unknown

definition is_recoverable :: "FailureKind \<Rightarrow> bool" where
  "is_recoverable k = (k = ProxyUnreachable \<or> k = DnsResolveFailed)"

datatype PeerInfo = PeerInfo (proxy_addr: SocketAddr)

datatype SessionState =
    Idle
  | Preparing SessionMode
  | Connecting SessionMode u32
  | Connected SessionMode PeerInfo
  | Reconnecting SessionMode u32 "string option"
  | Stopping SessionMode StopReason
  | Failed SessionMode FailureKind bool

fun SessionState_mode :: "SessionState \<Rightarrow> SessionMode option" where
  "SessionState_mode Idle = None"
| "SessionState_mode (Preparing mode) = Some mode"
| "SessionState_mode (Connecting mode _) = Some mode"
| "SessionState_mode (Connected mode _) = Some mode"
| "SessionState_mode (Reconnecting mode _ _) = Some mode"
| "SessionState_mode (Stopping mode _) = Some mode"
| "SessionState_mode (Failed mode _ _) = Some mode"

definition SessionState_is_active :: "SessionState \<Rightarrow> bool" where
  "SessionState_is_active s = (case s of Connected _ _ \<Rightarrow> True | _ \<Rightarrow> False)"

datatype SessionEvent =
    UserStart SessionMode
  | UserStop
  | UserAcknowledge
  | EnginePrepared
  | EngineReady
  | EngineStopped
  | ProxyConnected PeerInfo
  | ProxyDisconnected "string option"
  | NetworkLost
  | NetworkRestored
  | FatalError FailureKind
  | Shutdown

section \<open>The transition function\<close>

definition mode_or_client :: "SessionState \<Rightarrow> SessionMode" where
  "mode_or_client s = (case SessionState_mode s of Some m \<Rightarrow> m | None \<Rightarrow> Client)"

definition transition :: "SessionState \<Rightarrow> SessionEvent \<Rightarrow> EngineError + SessionState" where
  "transition s e =
     (case e of
        FatalError kind \<Rightarrow> Inr (Failed (mode_or_client s) kind (is_recoverable kind))
      | Shutdown \<Rightarrow> Inr (Stopping (mode_or_client s) StopShutdown)
      | _ \<Rightarrow>
          (case (s, e) of
             (Idle, UserStart mode) \<Rightarrow> Inr (Preparing mode)
           | (Preparing mode, EngineReady) \<Rightarrow> Inr (Connecting mode 1)
           | (Preparing mode, EnginePrepared) \<Rightarrow> Inr (Preparing mode)
           | (Connecting mode _, ProxyConnected peer) \<Rightarrow> Inr (Connected mode peer)
           | (Connecting mode attempt, NetworkLost) \<Rightarrow> Inr (Reconnecting mode attempt None)
           | (Connecting mode attempt, ProxyDisconnected _) \<Rightarrow> Inr (Reconnecting mode attempt None)
           | (Connected mode _, NetworkLost) \<Rightarrow> Inr (Reconnecting mode 1 None)
           | (Connected mode _, ProxyDisconnected _) \<Rightarrow> Inr (Reconnecting mode 1 None)
           | (Connected mode _, UserStop) \<Rightarrow> Inr (Stopping mode StopUserRequest)
           | (Reconnecting mode _ _, ProxyConnected peer) \<Rightarrow> Inr (Connected mode peer)
           | (Reconnecting mode _ _, UserStop) \<Rightarrow> Inr (Stopping mode StopUserRequest)
           | (Stopping _ _, EngineStopped) \<Rightarrow> Inr Idle
           | (Failed _ _ _, UserAcknowledge) \<Rightarrow> Inr Idle
           | _ \<Rightarrow> Inl InvalidTransition))"

section \<open>The session object\<close>

record 'l Session =
  ses_state :: SessionState
  ses_listeners :: "'l list"

definition Session_new :: "'l Session" where
  "Session_new = \<lparr>ses_state = Idle, ses_listeners = []\<rparr>"

definition Session_state :: "'l Session \<Rightarrow> SessionState" where
  "Session_state s = ses_state s"

definition Session_force_idle :: "'l Session \<Rightarrow> 'l Session" where
  "Session_force_idle s = s\<lparr>ses_state := Idle\<rparr>"

definition Session_add_listener :: "'l \<Rightarrow> 'l Session \<Rightarrow> 'l Session" where
  "Session_add_listener f s = s\<lparr>ses_listeners := ses_listeners s @ [f]\<rparr>"

text \<open>\<open>dispatch\<close> run alone: the result, the session afterwards, and the listener calls in order.\<close>

definition Session_dispatch ::
  "SessionEvent \<Rightarrow> 'l Session \<Rightarrow> (EngineError + unit) \<times> 'l Session \<times> ('l \<times> SessionState) list" where
  "Session_dispatch event s =
     (let current = Session_state s
      in case transition current event of
           Inl e \<Rightarrow> (Inl e, s, [])
         | Inr next \<Rightarrow>
             if next \<noteq> current
             then (Inr (), s\<lparr>ses_state := next\<rparr>, map (\<lambda>l. (l, next)) (ses_listeners s))
             else (Inr (), s, []))"

section \<open>The reconnect delay\<close>

definition backoff_delay :: "u32 \<Rightarrow> u64" where
  "backoff_delay attempt =
     (let ms = saturating_mul 250 (saturating_pow 2 (saturating_sub attempt 1)) in min ms 30000)"

section \<open>The documented table\<close>

text \<open>The rows of the transition table of \<open>docs/02-architecture/05-session-state-machine.md\<close>, as the
  state class the event leads to. "Any event not listed in a row is a transition not allowed."\<close>

datatype StateClass = CIdle | CPreparing | CConnecting | CConnected | CReconnecting | CStopping | CFailed

fun state_class :: "SessionState \<Rightarrow> StateClass" where
  "state_class Idle = CIdle"
| "state_class (Preparing _) = CPreparing"
| "state_class (Connecting _ _) = CConnecting"
| "state_class (Connected _ _) = CConnected"
| "state_class (Reconnecting _ _ _) = CReconnecting"
| "state_class (Stopping _ _) = CStopping"
| "state_class (Failed _ _ _) = CFailed"

definition doc_next :: "StateClass \<Rightarrow> SessionEvent \<Rightarrow> StateClass option" where
  "doc_next c e =
     (case e of
        Shutdown \<Rightarrow> Some CStopping
      | UserStart _ \<Rightarrow> if c = CIdle then Some CPreparing else None
      | EngineReady \<Rightarrow> if c = CPreparing then Some CConnecting else None
      | ProxyConnected _ \<Rightarrow> if c = CConnecting \<or> c = CReconnecting then Some CConnected else None
      | NetworkLost \<Rightarrow> if c = CConnecting \<or> c = CConnected then Some CReconnecting else None
      | UserStop \<Rightarrow> if c = CConnected \<or> c = CReconnecting then Some CStopping else None
      | FatalError _ \<Rightarrow>
          if c \<in> {CPreparing, CConnecting, CConnected, CReconnecting} then Some CFailed else None
      | EngineStopped \<Rightarrow> if c = CStopping then Some CIdle else None
      | UserAcknowledge \<Rightarrow> if c = CFailed then Some CIdle else None
      | _ \<Rightarrow> None)"

text \<open>The rows the code has beyond the documented ones.\<close>

definition undocumented :: "StateClass \<Rightarrow> SessionEvent \<Rightarrow> StateClass option" where
  "undocumented c e =
     (case e of
        EnginePrepared \<Rightarrow> if c = CPreparing then Some CPreparing else None
      | ProxyDisconnected _ \<Rightarrow> if c = CConnecting \<or> c = CConnected then Some CReconnecting else None
      | FatalError _ \<Rightarrow> if c \<in> {CIdle, CStopping, CFailed} then Some CFailed else None
      | _ \<Rightarrow> None)"

text \<open>C24: the transition function against its documented table. Every documented row leads where the
  table says. The code accepts three kinds of transition beyond the table and rejects everything
  else: the confirmation that the engine is prepared, the loss of the proxy, and a fatal error in
  the states without such a row.\<close>

theorem transition_vs_table:
  "(case transition s e of Inr s' \<Rightarrow> Some (state_class s') | Inl _ \<Rightarrow> None) =
     (case doc_next (state_class s) e of
        Some c \<Rightarrow> Some c
      | None \<Rightarrow> undocumented (state_class s) e)"
  by (cases e; cases s) (simp_all add: transition_def doc_next_def undocumented_def)

section \<open>What every session state satisfies\<close>

fun dispatch_all ::
  "SessionEvent list \<Rightarrow> 'l Session \<Rightarrow> 'l Session \<times> ('l \<times> SessionState) list" where
  "dispatch_all [] s = (s, [])"
| "dispatch_all (e # es) s =
     (let (_, s1, log1) = Session_dispatch e s; (s2, log2) = dispatch_all es s1 in (s2, log1 @ log2))"

definition state_wf :: "SessionState \<Rightarrow> bool" where
  "state_wf s =
     (case s of
        Connecting _ attempt \<Rightarrow> attempt = 1
      | Reconnecting _ attempt last_error \<Rightarrow> attempt = 1 \<and> last_error = None
      | Failed _ kind recoverable \<Rightarrow> recoverable = is_recoverable kind
      | _ \<Rightarrow> True)"

lemma transition_wf: "state_wf s \<Longrightarrow> transition s e = Inr s' \<Longrightarrow> state_wf s'"
  by (cases e; cases s) (auto simp: transition_def state_wf_def)

lemma transition_mode:
  "transition s e = Inr s' \<Longrightarrow> SessionState_mode s = Some m \<Longrightarrow> SessionState_mode s' \<in> {None, Some m}"
  by (cases e; cases s) (auto simp: transition_def mode_or_client_def)

lemma Session_dispatch_cases:
  obtains (rejected) err where "transition (ses_state s) e = Inl err" and "Session_dispatch e s = (Inl err, s, [])"
    | (same) "transition (ses_state s) e = Inr (ses_state s)" and "Session_dispatch e s = (Inr (), s, [])"
    | (moved) n where "transition (ses_state s) e = Inr n" and "n \<noteq> ses_state s"
        and "Session_dispatch e s =
           (Inr (), s\<lparr>ses_state := n\<rparr>, map (\<lambda>l. (l, n)) (ses_listeners s))"
  by (cases "transition (ses_state s) e")
    (auto simp: Session_dispatch_def Session_state_def Let_def split: if_splits)

lemma dispatch_all_wf:
  "state_wf (ses_state s) \<Longrightarrow> dispatch_all es s = (s', log) \<Longrightarrow> state_wf (ses_state s')"
proof (induction es arbitrary: s log)
  case (Cons e es)
  obtain r s1 log1 where d: "Session_dispatch e s = (r, s1, log1)" by (metis prod_cases3)
  have "state_wf (ses_state s1)"
    using Cons.prems(1) d transition_wf
    by (cases rule: Session_dispatch_cases [of s e]) auto
  with Cons d show ?case by (auto split: prod.splits)
qed simp

text \<open>Whatever events arrive, a session that started idle never counts attempts and never keeps
  an error text: it is always on attempt 1 while connecting or reconnecting, with no last error, and
  a failure is marked recoverable exactly for an unreachable proxy or a failed resolution.\<close>

lemma session_states_wf:
  assumes "dispatch_all es Session_new = (s, log)"
  shows "case ses_state s of
      Connecting _ attempt \<Rightarrow> attempt = 1
    | Reconnecting _ attempt last_error \<Rightarrow> attempt = 1 \<and> last_error = None
    | Failed _ kind recoverable \<Rightarrow> recoverable \<longleftrightarrow> kind \<in> {ProxyUnreachable, DnsResolveFailed}
    | _ \<Rightarrow> True"
proof -
  have "state_wf (ses_state (Session_new :: 'a Session))" by (simp add: Session_new_def state_wf_def)
  then have "state_wf (ses_state s)" using assms by (rule dispatch_all_wf)
  then show ?thesis by (auto simp: state_wf_def is_recoverable_def split: SessionState.splits)
qed

section \<open>What a listener sees\<close>

fun state_trace :: "SessionEvent list \<Rightarrow> 'l Session \<Rightarrow> SessionState list" where
  "state_trace [] s = [ses_state s]"
| "state_trace (e # es) s = ses_state s # state_trace es (fst (snd (Session_dispatch e s)))"

lemma state_trace_not_Nil [simp]: "state_trace es s \<noteq> []"
  by (cases es) auto

lemma hd_state_trace: "hd (state_trace es s) = ses_state s"
  by (cases es) auto

text \<open>A listener is told of every change of the session's state, once and in order, and of
  nothing else: the states it is called with are the states the session goes through with
  repetitions removed. Rejected events and transitions to the same state are silent.\<close>

lemma listener_sees_every_change:
  assumes "ses_listeners s = [l]" and "dispatch_all es s = (s', log)"
  shows "ses_state s # map snd log = remdups_adj (state_trace es s) \<and> last (state_trace es s) = ses_state s'"
  using assms
proof (induction es arbitrary: s log)
  case (Cons e es)
  obtain log2 where rest: "dispatch_all es (fst (snd (Session_dispatch e s))) = (s', log2)"
    and log: "log = snd (snd (Session_dispatch e s)) @ log2"
    using Cons.prems(2) by (auto simp: Let_def split: prod.splits)
  show ?case
  proof (cases rule: Session_dispatch_cases [of s e])
    case (rejected err)
    then show ?thesis
      using Cons.IH [OF Cons.prems(1)] rest log hd_state_trace [of es s]
      by (cases "state_trace es s") auto
  next
    case same
    then show ?thesis
      using Cons.IH [OF Cons.prems(1)] rest log hd_state_trace [of es s]
      by (cases "state_trace es s") auto
  next
    case (moved n)
    let ?s = "s\<lparr>ses_state := n\<rparr>"
    have "ses_listeners ?s = [l]" using Cons.prems(1) by simp
    then show ?thesis
      using Cons.IH [of ?s log2] rest log moved Cons.prems(1) hd_state_trace [of es ?s]
      by (cases "state_trace es ?s") auto
  qed
qed simp

section \<open>Concurrent dispatch\<close>

text \<open>
  The threads inside \<open>dispatch\<close>: about to take the read lock, holding a copy of the state, or done.
  The copy is taken under the read lock and the new state stored under the write lock; between the
  two other threads may run.
\<close>

datatype DispatchThread =
    AtRead SessionEvent
  | HasCopy SessionEvent SessionState
  | Returned "EngineError + unit"

inductive dispatch_step ::
  "SessionState \<times> DispatchThread list \<Rightarrow> SessionState \<times> DispatchThread list \<Rightarrow> bool" where
  read_lock: "i < length ts \<Longrightarrow> ts ! i = AtRead e \<Longrightarrow> dispatch_step (st, ts) (st, ts[i := HasCopy e st])"
| reject: "i < length ts \<Longrightarrow> ts ! i = HasCopy e current \<Longrightarrow> transition current e = Inl err \<Longrightarrow>
     dispatch_step (st, ts) (st, ts[i := Returned (Inl err)])"
| unchanged: "i < length ts \<Longrightarrow> ts ! i = HasCopy e current \<Longrightarrow> transition current e = Inr current \<Longrightarrow>
     dispatch_step (st, ts) (st, ts[i := Returned (Inr ())])"
| write_lock: "i < length ts \<Longrightarrow> ts ! i = HasCopy e current \<Longrightarrow> transition current e = Inr n \<Longrightarrow> n \<noteq> current \<Longrightarrow>
     dispatch_step (st, ts) (n, ts[i := Returned (Inr ())])"

abbreviation dispatch_steps ::
  "SessionState \<times> DispatchThread list \<Rightarrow> SessionState \<times> DispatchThread list \<Rightarrow> bool" where
  "dispatch_steps \<equiv> dispatch_step\<^sup>*\<^sup>*"

inductive_cases dispatch_stepE: "dispatch_step (st, ts) c"

declare rtranclp.rtrancl_into_rtrancl [trans]

text \<open>A thread that runs without interruption does what \<open>Session_dispatch\<close> says.\<close>

lemma dispatch_uninterrupted:
  assumes "i < length ts" and "ts ! i = AtRead e" and "Session_dispatch e s = (r, s', log)"
  shows "dispatch_steps (ses_state s, ts) (ses_state s', ts[i := Returned r])"
proof -
  let ?ts = "ts[i := HasCopy e (ses_state s)]"
  have first: "dispatch_step (ses_state s, ts) (ses_state s, ?ts)" by (rule read_lock [OF assms(1,2)])
  have i: "i < length ?ts" "?ts ! i = HasCopy e (ses_state s)" using assms(1) by auto
  have "dispatch_step (ses_state s, ?ts) (ses_state s', ?ts[i := Returned r])"
  proof (cases rule: Session_dispatch_cases [of s e])
    case (rejected err)
    then show ?thesis using assms(3) reject [OF i] by simp
  next
    case same
    then show ?thesis using assms(3) unchanged [OF i] by simp
  next
    case (moved n)
    then show ?thesis using assms(3) write_lock [OF i] by simp
  qed
  with first show ?thesis by simp
qed

text \<open>C25: two concurrent dispatches can lose a fatal error. While a session is connected, a stop by
  the user and a fatal error can both be accepted with the session ending up stopping as if the
  error had never happened. Run one after the other, in either order, they end in the failed state.\<close>

theorem concurrent_dispatch_loses_error:
  "dispatch_steps (Connected m p, [AtRead UserStop, AtRead (FatalError k)])
       (Stopping m StopUserRequest, [Returned (Inr ()), Returned (Inr ())]) \<and>
   ses_state (fst (dispatch_all [UserStop, FatalError k] (s\<lparr>ses_state := Connected m p\<rparr>))) =
       Failed m k (is_recoverable k) \<and>
   ses_state (fst (dispatch_all [FatalError k, UserStop] (s\<lparr>ses_state := Connected m p\<rparr>))) =
       Failed m k (is_recoverable k)"
proof (intro conjI)
  let ?c = "Connected m p" and ?f = "FatalError k" and ?n = "Failed m k (is_recoverable k)"
  have "dispatch_step (?c, [AtRead UserStop, AtRead ?f]) (?c, [HasCopy UserStop ?c, AtRead ?f])"
    using read_lock [of 0 "[AtRead UserStop, AtRead ?f]"] by simp
  then have "dispatch_steps (?c, [AtRead UserStop, AtRead ?f]) (?c, [HasCopy UserStop ?c, AtRead ?f])" ..
  also have "dispatch_step (?c, [HasCopy UserStop ?c, AtRead ?f]) (?c, [HasCopy UserStop ?c, HasCopy ?f ?c])"
    using read_lock [of 1 "[HasCopy UserStop ?c, AtRead ?f]"] by simp
  also have "dispatch_step (?c, [HasCopy UserStop ?c, HasCopy ?f ?c]) (?n, [HasCopy UserStop ?c, Returned (Inr ())])"
    using write_lock [of 1 "[HasCopy UserStop ?c, HasCopy ?f ?c]" ?f ?c ?n]
    by (simp add: transition_def mode_or_client_def)
  also have "dispatch_step (?n, [HasCopy UserStop ?c, Returned (Inr ())])
      (Stopping m StopUserRequest, [Returned (Inr ()), Returned (Inr ())])"
    using write_lock [of 0 "[HasCopy UserStop ?c, Returned (Inr ())]" UserStop ?c "Stopping m StopUserRequest"]
    by (simp add: transition_def)
  finally show "dispatch_steps (?c, [AtRead UserStop, AtRead ?f])
      (Stopping m StopUserRequest, [Returned (Inr ()), Returned (Inr ())])" .
qed (simp_all add: Session_dispatch_def Session_state_def transition_def mode_or_client_def Let_def)

section \<open>The delay is the documented sequence\<close>

text \<open>The reconnect delay, computed with saturating 64-bit arithmetic, is 250 ms doubled with
  every attempt and capped at 30 s, for all attempt numbers, and attempt 0 counts as attempt 1.\<close>

lemma backoff_delay_spec:
  "unat (backoff_delay attempt) = min (250 * 2 ^ (unat attempt - 1)) 30000"
  unfolding backoff_delay_def Let_def by (rule unat_backoff_ms)

end
