(* ===== verification/Http_Proxy.thy ===== *)
theory Http_Proxy
  imports Text Accept_Loop
begin

text \<open>
  The HTTP CONNECT proxy of \<open>gravital-http/src/server.rs\<close> with the errors of \<open>error.rs\<close>. Request heads
  are parsed by the crate \<open>httparse\<close>: its \<open>Request::parse\<close> is the parameter \<open>hp\<close>, a function from the
  bytes read so far to an error message or to a status, the method and the path.
\<close>

section \<open>Configuration and the accept loop\<close>

datatype HttpProxyError =
    HttpIo IoKind
  | Parse bytes
  | UnsupportedMethod bytes
  | MissingTarget
  | InvalidTarget bytes
  | UpstreamFailed
  | HeadersTooLarge
  | HttpPrematureEof
  | AuthRequired

record HttpProxyConfig =
  http_bind_addr :: SocketAddr
  http_auth_enabled :: bool

definition HttpProxyConfig_default :: HttpProxyConfig where
  "HttpProxyConfig_default =
     \<lparr>http_bind_addr = SocketAddr (V4 (Ipv4Addr 0 0 0 0)) 8080, http_auth_enabled = False\<rparr>"

datatype HttpProxyServer = HttpProxyServer (hps_config: HttpProxyConfig)

definition HttpProxyServer_new :: "HttpProxyConfig \<Rightarrow> HttpProxyServer" where
  "HttpProxyServer_new config = HttpProxyServer config"

type_synonym http_task = "nat \<times> SocketAddr \<times> HttpProxyConfig"

fun http_loop :: "HttpProxyConfig \<Rightarrow> loop_event list \<Rightarrow> (HttpProxyError + unit) option \<times> http_task list" where
  "http_loop cfg [] = (None, [])"
| "http_loop cfg (Accepted stream peer # evs) =
     (case http_loop cfg evs of (r, tasks) \<Rightarrow> (r, (stream, peer, cfg) # tasks))"
| "http_loop cfg (AcceptFailed e # evs) = http_loop cfg evs"
| "http_loop cfg (ShutdownChanged v # evs) = (if v then (Some (Inr ()), []) else http_loop cfg evs)"

definition HttpProxyServer_run ::
  "'w tcp_ops \<Rightarrow> HttpProxyServer \<Rightarrow> loop_event list \<Rightarrow> 'w \<Rightarrow> (HttpProxyError + unit) option \<times> http_task list \<times> 'w" where
  "HttpProxyServer_run io s evs w =
     (case tcp_bind io (http_bind_addr (hps_config s)) w of
        (Inl e, w) \<Rightarrow> (Some (Inl (HttpIo e)), [], w)
      | (Inr listener, w) \<Rightarrow> (case http_loop (hps_config s) evs of (r, tasks) \<Rightarrow> (r, tasks, w)))"

interpretation http_accept: accept_loop "http_loop cfg" "\<lambda>s peer. (s, peer, cfg)" "Inr ()" for cfg
  by unfold_locales (auto split: prod.splits)

section \<open>One connection\<close>

datatype Status = Complete nat | Partial

type_synonym http_parser = "bytes \<Rightarrow> bytes + Status \<times> bytes option \<times> bytes option"

definition MAX_HEADER_SIZE :: nat where
  "MAX_HEADER_SIZE = 8192"

text \<open>The read loop; \<open>buf\<close> is the filled part of the buffer. A read fills at most the rest of it.\<close>

function read_head ::
  "'w tcp_ops \<Rightarrow> http_parser \<Rightarrow> nat \<Rightarrow> bytes \<Rightarrow> 'w \<Rightarrow> (HttpProxyError + nat \<times> bytes) \<times> 'w" where
  "read_head io hp sock buf w =
     (case read_some io sock (MAX_HEADER_SIZE - length buf) w of
        (Inl e, w) \<Rightarrow> (Inl (HttpIo e), w)
      | (Inr bs, w) \<Rightarrow>
          let bs = take (MAX_HEADER_SIZE - length buf) bs
          in if bs = [] then (Inl HttpPrematureEof, w)
             else (case hp (buf @ bs) of
               Inl e \<Rightarrow> (Inl (Parse e), w)
             | Inr (Complete len, _) \<Rightarrow> (Inr (len, buf @ bs), w)
             | Inr (Partial, _) \<Rightarrow>
                 if MAX_HEADER_SIZE \<le> length (buf @ bs) then (Inl HeadersTooLarge, w)
                 else read_head io hp sock (buf @ bs) w))"
  by pat_completeness auto

termination
  by (relation "measure (\<lambda>(io, hp, sock, buf, w). MAX_HEADER_SIZE - length buf)")
    (auto simp flip: length_greater_0_conv)

declare read_head.simps [simp del]

definition send_error :: "'w tcp_ops \<Rightarrow> nat \<Rightarrow> u16 \<Rightarrow> bytes \<Rightarrow> ('w, HttpProxyError, unit) io" where
  "send_error io sock code msg =
     (let resp = ascii ''HTTP/1.1 '' @ dec (unat code) @ ascii '' '' @ msg @ CRLF @
                 ascii ''Content-Length: 0'' @ CRLF @ ascii ''Connection: close'' @ CRLF @ CRLF
      in mapE HttpIo (write_all io sock resp))"

definition parse_host_port :: "bytes \<Rightarrow> HttpProxyError + bytes \<times> u16" where
  "parse_host_port target =
     (case rfind 58 target of
        Some pos \<Rightarrow>
          let host = take pos target
          in (case parse_u16 (drop (pos + 1) target) of
                Some port \<Rightarrow> Inr (host, port)
              | None \<Rightarrow> Inl (InvalidTarget target))
      | None \<Rightarrow> Inl (InvalidTarget target))"

definition http_relay_bidirectional :: "'w tcp_ops \<Rightarrow> nat \<Rightarrow> nat \<Rightarrow> ('w, HttpProxyError, unit) io" where
  "http_relay_bidirectional io a b w = (Inr (), relay_copy io a b w)"

definition established :: bytes where
  "established = ascii ''HTTP/1.1 200 Connection established'' @ CRLF @ CRLF"

text \<open>What follows the read loop: the head is parsed again for its method and path, the upstream
  connection is opened and the bytes after the head are passed on.\<close>

definition serve_head ::
  "'w tcp_ops \<Rightarrow> http_parser \<Rightarrow> nat \<Rightarrow> nat \<Rightarrow> bytes \<Rightarrow> ('w, HttpProxyError, unit) io" where
  "serve_head io hp sock req_end buf =
     (case hp buf of
        Inl e \<Rightarrow> failE (Parse e)
      | Inr (_, method, path) \<Rightarrow>
          let method = (case method of Some m \<Rightarrow> m | None \<Rightarrow> [])
          in if method \<noteq> ascii ''CONNECT'' then
               bindE (send_error io sock 405 (ascii ''Method Not Allowed'')) (\<lambda>_. failE (UnsupportedMethod method))
             else
               (case path of
                  None \<Rightarrow> failE MissingTarget
                | Some target_str \<Rightarrow>
                    (case parse_host_port target_str of
                       Inl e \<Rightarrow> failE e
                     | Inr (host, port) \<Rightarrow> (\<lambda>w.
                         case connect_host io host port w of
                           (Inl _, w) \<Rightarrow>
                             bindE (send_error io sock 502 (ascii ''Bad Gateway'')) (\<lambda>_. failE UpstreamFailed) w
                         | (Inr upstream, w) \<Rightarrow>
                             bindE (mapE HttpIo (write_all io sock established)) (\<lambda>_.
                             bindE (if req_end < length buf then mapE HttpIo (write_all io upstream (drop req_end buf)) else retE ()) (\<lambda>_.
                             http_relay_bidirectional io sock upstream)) w))))"

definition handle_http_proxy ::
  "'w tcp_ops \<Rightarrow> http_parser \<Rightarrow> nat \<Rightarrow> HttpProxyConfig \<Rightarrow> ('w, HttpProxyError, unit) io" where
  "handle_http_proxy io hp sock cfg =
     bindE (read_head io hp sock []) (\<lambda>(req_end, buf). serve_head io hp sock req_end buf)"

section \<open>Targets\<close>

text \<open>The target of a CONNECT request is split at its last colon. A host and a port printed in
  decimal are read back exactly, whatever the host is; a target is refused exactly when it has no
  colon or when what follows the last one is not a number below 65536 (a leading \<open>+\<close> and leading
  zeros are accepted), and what is accepted is the whole target.\<close>

lemma http_target_roundtrip:
  "parse_host_port (host @ 58 # dec (unat port)) = Inr (host, port) \<and>
   (parse_host_port target = Inl e \<longrightarrow> e = InvalidTarget target) \<and>
   (isl (parse_host_port target) \<longleftrightarrow>
      58 \<notin> set target \<or> (\<exists>h p. target = h @ 58 # p \<and> 58 \<notin> set p \<and> parse_u16 p = None)) \<and>
   (parse_host_port target = Inr (h, n) \<longrightarrow>
      (\<exists>p. target = h @ 58 # p \<and> 58 \<notin> set p \<and> parse_u16 p = Some n))"
proof -
  have 1: "parse_host_port (host @ 58 # dec (unat port)) = Inr (host, port)"
    using dec_shape [of "unat port"] by (simp add: parse_host_port_def rfind_last parse_u16_dec)
  have split: "parse_host_port (h @ 58 # p) = (case parse_u16 p of Some n \<Rightarrow> Inr (h, n) | None \<Rightarrow> Inl (InvalidTarget (h @ 58 # p)))"
    if "58 \<notin> set p" for h p
    using that by (simp add: parse_host_port_def rfind_last)
  have none: "parse_host_port target = Inl (InvalidTarget target)" if "58 \<notin> set target"
    using that rfind_None [of 58 target] by (simp add: parse_host_port_def)
  show ?thesis
  proof (cases "58 \<in> set target")
    case True
    then obtain pos where "rfind 58 target = Some pos" using rfind_None [of 58 target] by auto
    from rfind_Some [OF this] obtain h' p' where t: "target = h' @ 58 # p'" and p': "58 \<notin> set p'" by metis
    have u: "h @ 58 # p = h' @ 58 # p' \<and> 58 \<notin> set p \<longleftrightarrow> h = h' \<and> p = p'" for h p
      using p' by (metis append_same_eq rfind_last append_eq_append_conv list.inject option.inject)
    have bad: "(\<exists>h p. target = h @ 58 # p \<and> 58 \<notin> set p \<and> parse_u16 p = None) \<longleftrightarrow> parse_u16 p' = None"
      using t u p' by metis
    show ?thesis
    proof (intro conjI impI 1)
      show "e = InvalidTarget target" if "parse_host_port target = Inl e"
        using that split [OF p'] t by (auto split: option.splits)
      show "isl (parse_host_port target) \<longleftrightarrow> 58 \<notin> set target \<or> (\<exists>h p. target = h @ 58 # p \<and> 58 \<notin> set p \<and> parse_u16 p = None)"
        using split [OF p', of h'] t True bad by (simp split: option.splits)
      show "\<exists>p. target = h @ 58 # p \<and> 58 \<notin> set p \<and> parse_u16 p = Some n" if "parse_host_port target = Inr (h, n)"
        using that split [OF p'] t p' by (auto split: option.splits)
    qed
  next
    case False
    then show ?thesis using 1 none by simp
  qed
qed

section \<open>Tunnels\<close>

text \<open>What \<open>httparse\<close> documents for a well-formed head: a proper prefix is partial, and with anything
  after it the head is complete at its own length, with its method and its path.\<close>

definition head_model :: "http_parser \<Rightarrow> bytes \<Rightarrow> bytes \<Rightarrow> bytes \<Rightarrow> bool" where
  "head_model hp head method path \<longleftrightarrow>
     (\<forall>k < length head. \<exists>r. hp (take k head) = Inr (Partial, r)) \<and>
     (\<forall>rest. hp (head @ rest) = Inr (Complete (length head), Some method, Some path))"

lemma read_head_step:
  assumes "read_some io sock (MAX_HEADER_SIZE - length buf) w = (Inr bs, w1)"
    and "length bs \<le> MAX_HEADER_SIZE - length buf" and "bs \<noteq> []" and "buf @ bs = buf'"
  shows "hp buf' = Inr (Complete len, r) \<Longrightarrow> read_head io hp sock buf w = (Inr (len, buf'), w1)"
    and "hp buf' = Inr (Partial, r) \<Longrightarrow> length buf' < MAX_HEADER_SIZE \<Longrightarrow>
      read_head io hp sock buf w = read_head io hp sock buf' w1"
  using assms by (subst read_head.simps; simp add: Let_def)+

lemma read_head_completes:
  assumes rm: "read_model io pend sent" and hm: "head_model hp head method path"
    and len: "length head \<le> MAX_HEADER_SIZE"
    and k: "k < length head" and p: "pend w sock = drop k (head @ data)"
  shows "\<exists>more rest w'. data = more @ rest \<and> read_head io hp sock (take k head) w = (Inr (length head, head @ more), w') \<and>
     pend w' = (pend w)(sock := rest) \<and> sent w' = sent w"
  using k p
proof (induction "length head - k" arbitrary: k w rule: less_induct)
  case less
  let ?buf = "take k head"
  have n: "0 < MAX_HEADER_SIZE - length ?buf" using less.prems len by simp
  have ne: "pend w sock \<noteq> []" using less.prems by simp
  obtain j w1 where r: "read_some io sock (MAX_HEADER_SIZE - length ?buf) w = (Inr (take j (pend w sock)), w1)"
    and jn: "j \<le> MAX_HEADER_SIZE - length ?buf" and jz: "pend w sock \<noteq> [] \<longrightarrow> 0 < j"
    and w1: "pend w1 = (pend w)(sock := drop j (pend w sock))" "sent w1 = sent w"
    by (rule stream_read_some [OF rm n])
  have j: "0 < j" using jz ne by blast
  have bl: "length (take j (pend w sock)) \<le> MAX_HEADER_SIZE - length ?buf" using jn by simp
  have nz: "take j (pend w sock) \<noteq> []" using j ne by simp
  have "?buf = take k (head @ data)" using less.prems by simp
  then have buf: "?buf @ take j (pend w sock) = take (k + j) (head @ data)"
    unfolding less.prems(2) by (simp only: take_add)
  have p1: "pend w1 sock = drop (k + j) (head @ data)" using w1 less.prems by (simp add: add.commute)
  show ?case
  proof (cases "k + j < length head")
    case True
    then obtain q where q: "hp (take (k + j) head) = Inr (Partial, q)" using hm unfolding head_model_def by blast
    have small: "length (take (k + j) head) < MAX_HEADER_SIZE" using True len by simp
    have b: "?buf @ take j (pend w sock) = take (k + j) head" using buf True by simp
    have "length head - (k + j) < length head - k" using j less.prems by simp
    from less.hyps [OF this True p1] obtain more rest w' where h: "data = more @ rest"
      "read_head io hp sock (take (k + j) head) w1 = (Inr (length head, head @ more), w')"
      "pend w' = (pend w1)(sock := rest)" "sent w' = sent w1" by blast
    have "read_head io hp sock ?buf w = (Inr (length head, head @ more), w')"
      using read_head_step(2) [where hp = hp, OF r bl nz b q small] h(2) by (rule trans)
    moreover have "pend w' = (pend w)(sock := rest)" and "sent w' = sent w" using h(3,4) w1 by simp_all
    ultimately show ?thesis using h(1) by blast
  next
    case False
    let ?more = "take (k + j - length head) data" and ?rest = "drop (k + j - length head) data"
    have b: "?buf @ take j (pend w sock) = head @ ?more" using buf False by simp
    have "hp (head @ ?more) = Inr (Complete (length head), Some method, Some path)"
      using hm unfolding head_model_def by blast
    from read_head_step(1) [where hp = hp, OF r bl nz b this] have "read_head io hp sock ?buf w = (Inr (length head, head @ ?more), w1)" .
    moreover have "pend w1 = (pend w)(sock := ?rest)" using w1 p1 False by simp
    moreover have "data = ?more @ ?rest" by simp
    ultimately show ?thesis using w1(2) by blast
  qed
qed

lemma handle_reads_head:
  assumes "read_model io pend sent" and "head_model hp head method path"
    and "length head \<le> MAX_HEADER_SIZE" and "head \<noteq> []" and "pend w sock = head @ data"
  obtains more rest w' where "data = more @ rest"
    and "handle_http_proxy io hp sock cfg w = serve_head io hp sock (length head) (head @ more) w'"
    and "pend w' = (pend w)(sock := rest)" and "sent w' = sent w"
proof -
  have "0 < length head" using assms(4) by (simp add: length_greater_0_conv)
  with read_head_completes [OF assms(1-3), of 0 w sock data] assms(5) obtain more rest w'
    where h: "data = more @ rest" "read_head io hp sock [] w = (Inr (length head, head @ more), w')"
      "pend w' = (pend w)(sock := rest)" "sent w' = sent w" by auto
  have "handle_http_proxy io hp sock cfg w = serve_head io hp sock (length head) (head @ more) w'"
    using h(2) by (simp add: handle_http_proxy_def io_simps)
  with h that show thesis by blast
qed

lemma serve_connect:
  assumes "hp buf = Inr (st, Some (ascii ''CONNECT''), Some t)" and "parse_host_port t = Inr (host, port)"
    and "connect_host io host port w = (Inr up, w2)"
    and "write_all io sock established w2 = (Inr (), w3)"
    and "req_end < length buf \<Longrightarrow> write_all io up (drop req_end buf) w3 = (Inr (), w4)"
    and "\<not> req_end < length buf \<Longrightarrow> w4 = w3"
  shows "serve_head io hp sock req_end buf w = (Inr (), relay_copy io sock up w4)"
  using assms by (cases "req_end < length buf") (simp_all add: serve_head_def http_relay_bidirectional_def io_simps)


text \<open>A parser that knows one head, \<open>CONNECT h:80\<close> in five bytes, on the concrete network.\<close>

definition demo_head :: "bytes \<Rightarrow> http_parser" where
  "demo_head method bs =
     (if length bs < 5 then Inr (Partial, None, None)
      else Inr (Complete 5, Some method, Some (ascii ''h'' @ 58 # dec (unat (80 :: u16)))))"

lemma demo_head_model:
  "head_model (demo_head method) [1, 2, 3, 4, 5] method (ascii ''h'' @ 58 # dec (unat (80 :: u16)))"
  by (simp add: head_model_def demo_head_def)


text \<open>An error answer, and the head after it when the request was read.\<close>

abbreviation error_tail :: bytes where
  "error_tail \<equiv> CRLF @ ascii ''Content-Length: 0'' @ CRLF @ ascii ''Connection: close'' @ CRLF @ CRLF"

lemma error_heads:
  "ascii ''HTTP/1.1 '' @ dec (unat (405 :: u16)) @ ascii '' '' @ ascii ''Method Not Allowed'' @ rest =
      ascii ''HTTP/1.1 405 Method Not Allowed'' @ rest"
  "ascii ''HTTP/1.1 '' @ dec (unat (502 :: u16)) @ ascii '' '' @ ascii ''Bad Gateway'' @ rest =
      ascii ''HTTP/1.1 502 Bad Gateway'' @ rest"
  by (simp_all add: dec.simps ascii_def)

lemma send_error_refuses:
  assumes "stream_model io pend sent"
  shows "\<exists>w'. bindE (send_error io sock code msg) (\<lambda>_. failE err) w = (Inl err, w') \<and>
     sent w' = (sent w)(sock := sent w sock @ ascii ''HTTP/1.1 '' @ dec (unat code) @ ascii '' '' @ msg @ error_tail)"
proof -
  obtain w' where "write_all io sock (ascii ''HTTP/1.1 '' @ dec (unat code) @ ascii '' '' @ msg @ error_tail) w = (Inr (), w')"
    and "sent w' = (sent w)(sock := sent w sock @ ascii ''HTTP/1.1 '' @ dec (unat code) @ ascii '' '' @ msg @ error_tail)"
    by (rule stream_write [OF assms])
  then show ?thesis by (simp add: send_error_def Let_def io_simps)
qed

text \<open>A request the proxy cannot serve is answered before the connection is given up: 405 when the
  method is not CONNECT, 502 when the upstream connection fails. No upstream server is sent anything,
  and nothing is relayed. A target that is no \<open>host:port\<close> ends the connection without an answer.\<close>

lemma http_refusals:
  assumes "stream_model io pend sent" and "read_model io pend sent" and "frame_model io pend sent"
    and "head_model hp head method path"
    and "length head \<le> 8192" and "head \<noteq> []" and "pend w sock = head @ data"
  shows "(method \<noteq> ascii ''CONNECT'' \<longrightarrow>
      (\<exists>w'. handle_http_proxy io hp sock cfg w = (Inl (UnsupportedMethod method), w') \<and>
         sent w' = (sent w)(sock := sent w sock @ ascii ''HTTP/1.1 405 Method Not Allowed'' @ CRLF @
           ascii ''Content-Length: 0'' @ CRLF @ ascii ''Connection: close'' @ CRLF @ CRLF))) \<and>
     (\<forall>host port e. method = ascii ''CONNECT'' \<and> parse_host_port path = Inr (host, port) \<and>
         (\<forall>w. fst (connect_host io host port w) = Inl e) \<longrightarrow>
      (\<exists>w'. handle_http_proxy io hp sock cfg w = (Inl UpstreamFailed, w') \<and>
         sent w' = (sent w)(sock := sent w sock @ ascii ''HTTP/1.1 502 Bad Gateway'' @ CRLF @
           ascii ''Content-Length: 0'' @ CRLF @ ascii ''Connection: close'' @ CRLF @ CRLF))) \<and>
     (\<forall>e. method = ascii ''CONNECT'' \<and> parse_host_port path = Inl e \<longrightarrow>
      (\<exists>w'. handle_http_proxy io hp sock cfg w = (Inl e, w') \<and> sent w' = sent w))"
proof -
  have "length head \<le> MAX_HEADER_SIZE" using assms(5) by (simp add: MAX_HEADER_SIZE_def)
  then obtain more rest w1 where r1: "handle_http_proxy io hp sock cfg w = serve_head io hp sock (length head) (head @ more) w1"
    and w1: "sent w1 = sent w"
    by (rule handle_reads_head [OF assms(2,4) _ assms(6,7)])
  have hp: "hp (head @ more) = Inr (Complete (length head), Some method, Some path)"
    using assms(4) by (simp add: head_model_def)
  note refuse = send_error_refuses [OF assms(1), of sock]
  show ?thesis
  proof (intro conjI allI impI)
    assume m: "method \<noteq> ascii ''CONNECT''"
    have "serve_head io hp sock (length head) (head @ more) w1 =
        bindE (send_error io sock 405 (ascii ''Method Not Allowed'')) (\<lambda>_. failE (UnsupportedMethod method)) w1"
      using m hp by (simp add: serve_head_def)
    then show "\<exists>w'. handle_http_proxy io hp sock cfg w = (Inl (UnsupportedMethod method), w') \<and>
        sent w' = (sent w)(sock := sent w sock @ ascii ''HTTP/1.1 405 Method Not Allowed'' @ error_tail)"
      using refuse [of 405 "ascii ''Method Not Allowed''" "UnsupportedMethod method" w1] unfolding error_heads r1 w1 by simp
  next
    fix host port e
    assume m: "method = ascii ''CONNECT'' \<and> parse_host_port path = Inr (host, port) \<and>
      (\<forall>w. fst (connect_host io host port w) = Inl e)"
    then obtain w2 where c: "connect_host io host port w1 = (Inl e, w2)" by (metis prod.collapse)
    have w2: "sent w2 = sent w" using frame_model_D(4) [OF assms(3) c] w1 by simp
    have "serve_head io hp sock (length head) (head @ more) w1 =
        bindE (send_error io sock 502 (ascii ''Bad Gateway'')) (\<lambda>_. failE UpstreamFailed) w2"
      using m hp c by (simp add: serve_head_def)
    then show "\<exists>w'. handle_http_proxy io hp sock cfg w = (Inl UpstreamFailed, w') \<and>
        sent w' = (sent w)(sock := sent w sock @ ascii ''HTTP/1.1 502 Bad Gateway'' @ error_tail)"
      using refuse [of 502 "ascii ''Bad Gateway''" UpstreamFailed w2] unfolding error_heads r1 w2 by simp
  next
    fix e assume m: "method = ascii ''CONNECT'' \<and> parse_host_port path = Inl e"
    then have "serve_head io hp sock (length head) (head @ more) w1 = (Inl e, w1)"
      using hp by (simp add: serve_head_def failE_def)
    then show "\<exists>w'. handle_http_proxy io hp sock cfg w = (Inl e, w') \<and> sent w' = sent w" using r1 w1 by simp
  qed
qed

end
