(* ===== verification/Engine.thy ===== *)
theory Engine
  imports Session Engine_Data Http_Proxy
begin

text \<open>
  The control plane of the engine: \<open>Engine\<close> of \<open>gravital-engine/src/runner.rs\<close> with the configurations of
  \<open>config.rs\<close>. The calls of the application are lists of atomic actions (a \<open>dispatch\<close>, a message on the
  shutdown channel, the spawning of a task), which can be run in one go or interleaved with those of
  other threads and with the spawned tasks. A callback is a value of type \<open>'cb\<close>; what it has been given
  is recorded.
\<close>

section \<open>Configuration\<close>

definition DEFAULT_MTU :: u16 where
  "DEFAULT_MTU = 1280"

definition DEFAULT_DNS :: Ipv4Addr where
  "DEFAULT_DNS = Ipv4Addr 1 1 1 1"

record ClientConfig =
  cfg_proxy_addr :: SocketAddr
  cfg_mtu :: u16
  cfg_dns_server :: IpAddr
  cfg_udp_associate_enabled :: bool

definition ClientConfig_default :: ClientConfig where
  "ClientConfig_default =
     \<lparr>cfg_proxy_addr = SocketAddr (V4 (Ipv4Addr 192 168 43 1)) 1080, cfg_mtu = DEFAULT_MTU,
      cfg_dns_server = V4 DEFAULT_DNS, cfg_udp_associate_enabled = True\<rparr>"

record ServerConfig =
  cfg_socks_bind :: SocketAddr
  cfg_http_bind :: SocketAddr
  cfg_max_connections :: nat

definition ServerConfig_default :: ServerConfig where
  "ServerConfig_default =
     \<lparr>cfg_socks_bind = SocketAddr (V4 (Ipv4Addr 0 0 0 0)) 1080,
      cfg_http_bind = SocketAddr (V4 (Ipv4Addr 0 0 0 0)) 8080, cfg_max_connections = 512\<rparr>"

text \<open>What \<open>derive(Deserialize)\<close> makes of the fields of a JSON object: a missing field (\<open>None\<close>) gets the
  default named at it. Only the proxy has none.\<close>

definition ClientConfig_of_fields :: "SocketAddr \<Rightarrow> u16 option \<Rightarrow> IpAddr option \<Rightarrow> bool option \<Rightarrow> ClientConfig" where
  "ClientConfig_of_fields proxy mtu dns udp =
     \<lparr>cfg_proxy_addr = proxy, cfg_mtu = (case mtu of Some m \<Rightarrow> m | None \<Rightarrow> DEFAULT_MTU),
      cfg_dns_server = (case dns of Some d \<Rightarrow> d | None \<Rightarrow> V4 DEFAULT_DNS),
      cfg_udp_associate_enabled = (case udp of Some b \<Rightarrow> b | None \<Rightarrow> True)\<rparr>"

definition ServerConfig_of_fields :: "SocketAddr option \<Rightarrow> SocketAddr option \<Rightarrow> nat option \<Rightarrow> ServerConfig" where
  "ServerConfig_of_fields socks http conns =
     \<lparr>cfg_socks_bind = (case socks of Some a \<Rightarrow> a | None \<Rightarrow> SocketAddr (V4 (Ipv4Addr 0 0 0 0)) 1080),
      cfg_http_bind = (case http of Some a \<Rightarrow> a | None \<Rightarrow> SocketAddr (V4 (Ipv4Addr 0 0 0 0)) 8080),
      cfg_max_connections = (case conns of Some n \<Rightarrow> n | None \<Rightarrow> 512)\<rparr>"

datatype EngineConfig = ClientCfg ClientConfig | ServerCfg ServerConfig

section \<open>Transition events as JSON\<close>

text \<open>The text \<open>Display\<close> gives for addresses: an IPv6 address has its longest run of at least two zero
  segments, the first of them if there are several, written as two colons.\<close>

definition show_ipv4 :: "Ipv4Addr \<Rightarrow> bytes" where
  "show_ipv4 ip =
     (case ip of Ipv4Addr a b c d \<Rightarrow>
        dec (unat a) @ [46] @ dec (unat b) @ [46] @ dec (unat c) @ [46] @ dec (unat d))"

fun hex_nat :: "nat \<Rightarrow> bytes" where
  "hex_nat n = (if n < 16 then [hex_digit (word_of_nat n)] else hex_nat (n div 16) @ [hex_digit (word_of_nat (n mod 16))])"

declare hex_nat.simps [simp del]

definition ipv6_segments :: "Ipv6Addr \<Rightarrow> nat list" where
  "ipv6_segments ip =
     (case ip of Ipv6Addr a b c d \<Rightarrow> concat (map (\<lambda>w. [unat w div 65536, unat w mod 65536]) [a, b, c, d]))"

fun longest_zeros :: "nat \<Rightarrow> nat list \<Rightarrow> nat \<times> nat \<Rightarrow> nat \<times> nat \<Rightarrow> nat \<times> nat" where
  "longest_zeros i [] current longest = longest"
| "longest_zeros i (x # xs) current longest =
     (if x = 0 then
        let current = (if snd current = 0 then i else fst current, snd current + 1)
        in longest_zeros (Suc i) xs current (if snd longest < snd current then current else longest)
      else longest_zeros (Suc i) xs (0, 0) longest)"

fun fmt_subslice :: "nat list \<Rightarrow> bytes" where
  "fmt_subslice [] = []"
| "fmt_subslice (x # xs) = hex_nat x @ concat (map (\<lambda>y. 58 # hex_nat y) xs)"

definition show_ipv6 :: "Ipv6Addr \<Rightarrow> bytes" where
  "show_ipv6 ip =
     (let segments = ipv6_segments ip
      in if take 6 segments = [0, 0, 0, 0, 0, 0xFFFF] then
           ascii ''::ffff:'' @ (case ip of Ipv6Addr _ _ _ d \<Rightarrow>
             (case to_be32 d of [w, x, y, z] \<Rightarrow> show_ipv4 (Ipv4Addr w x y z) | _ \<Rightarrow> []))
         else
           (case longest_zeros 0 segments (0, 0) (0, 0) of (start, len) \<Rightarrow>
              if 1 < len then fmt_subslice (take start segments) @ ascii ''::'' @ fmt_subslice (drop (start + len) segments)
              else fmt_subslice segments))"

definition show_addr :: "SocketAddr \<Rightarrow> bytes" where
  "show_addr a =
     (case sa_ip a of
        V4 ip \<Rightarrow> show_ipv4 ip @ [58] @ dec (unat (sa_port a))
      | V6 ip \<Rightarrow> [91] @ show_ipv6 ip @ [93, 58] @ dec (unat (sa_port a)))"

fun show_failure :: "FailureKind \<Rightarrow> bytes" where
  "show_failure PermissionDenied = ascii ''PermissionDenied''"
| "show_failure FailConfigInvalid = ascii ''ConfigInvalid''"
| "show_failure ProxyUnreachable = ascii ''ProxyUnreachable''"
| "show_failure DnsResolveFailed = ascii ''DnsResolveFailed''"
| "show_failure TunOpenFailed = ascii ''TunOpenFailed''"
| "show_failure EngineCrashed = ascii ''EngineCrashed''"
| "show_failure UpstreamVpnDown = ascii ''UpstreamVpnDown''"
| "show_failure Unknown = ascii ''Unknown''"

text \<open>\<open>quoted s\<close> is \<open>s\<close> between double quotes.\<close>

definition quoted :: "bytes \<Rightarrow> bytes" where
  "quoted s = [34] @ s @ [34]"

definition transition_json :: "bytes \<Rightarrow> (bytes \<times> bytes) list \<Rightarrow> bytes" where
  "transition_json to extra =
     [123] @ quoted (ascii ''kind'') @ [58] @ quoted (ascii ''session.transition'') @ [44] @
     quoted (ascii ''to'') @ [58] @ quoted to @
     concat (map (\<lambda>(k, v). [44] @ quoted k @ [58] @ quoted v) extra) @ [125]"

fun session_state_to_json :: "SessionState \<Rightarrow> bytes" where
  "session_state_to_json Idle = transition_json (ascii ''Idle'') []"
| "session_state_to_json (Preparing _) = transition_json (ascii ''Preparing'') []"
| "session_state_to_json (Connecting _ _) = transition_json (ascii ''Connecting'') []"
| "session_state_to_json (Connected _ peer) =
     transition_json (ascii ''Connected'') [(ascii ''peer'', show_addr (proxy_addr peer))]"
| "session_state_to_json (Reconnecting _ _ _) = transition_json (ascii ''Reconnecting'') []"
| "session_state_to_json (Stopping _ _) = transition_json (ascii ''Stopping'') []"
| "session_state_to_json (Failed _ error _) =
     transition_json (ascii ''Failed'') [(ascii ''error'', show_failure error)]"

section \<open>The text of a state\<close>

text \<open>The text \<open>{:?}\<close> gives for a state, as \<open>derive(Debug)\<close> writes it: the variant and, in braces, its
  fields. A string is written between quotes with the escapes of \<open>str\<close>; error texts are ASCII.\<close>

definition debug_char :: "u8 \<Rightarrow> bytes" where
  "debug_char c =
     (if c = 0 then [92, 48] else if c = 9 then [92, 116] else if c = 10 then [92, 110] else if c = 13 then [92, 114]
      else if c = 34 \<or> c = 92 then [92, c]
      else if c < 32 \<or> c = 127 then [92, 117, 123] @ hex_nat (unat c) @ [125] else [c])"

fun show_mode :: "SessionMode \<Rightarrow> bytes" where
  "show_mode Client = ascii ''Client''"
| "show_mode Server = ascii ''Server''"

fun show_reason :: "StopReason \<Rightarrow> bytes" where
  "show_reason StopUserRequest = ascii ''UserRequest''"
| "show_reason StopFatalError = ascii ''FatalError''"
| "show_reason StopShutdown = ascii ''Shutdown''"

definition debug_struct :: "string \<Rightarrow> (string \<times> bytes) list \<Rightarrow> bytes" where
  "debug_struct n fs =
     ascii n @ ascii '' { '' @
     (case map (\<lambda>(k, v). ascii k @ ascii '': '' @ v) fs of [] \<Rightarrow> [] | x # xs \<Rightarrow> x @ concat (map (\<lambda>y. ascii '', '' @ y) xs)) @
     ascii '' }''"

fun debug_text :: "string option \<Rightarrow> bytes" where
  "debug_text None = ascii ''None''"
| "debug_text (Some t) = ascii ''Some('' @ quoted (concat (map debug_char (ascii t))) @ ascii '')''"

fun debug_state :: "SessionState \<Rightarrow> bytes" where
  "debug_state Idle = ascii ''Idle''"
| "debug_state (Preparing mode) = debug_struct ''Preparing'' [(''mode'', show_mode mode)]"
| "debug_state (Connecting mode attempt) =
     debug_struct ''Connecting'' [(''mode'', show_mode mode), (''attempt'', dec (unat attempt))]"
| "debug_state (Connected mode peer) =
     debug_struct ''Connected''
       [(''mode'', show_mode mode), (''peer'', debug_struct ''PeerInfo'' [(''proxy_addr'', show_addr (proxy_addr peer))])]"
| "debug_state (Reconnecting mode attempt last_error) =
     debug_struct ''Reconnecting''
       [(''mode'', show_mode mode), (''attempt'', dec (unat attempt)), (''last_error'', debug_text last_error)]"
| "debug_state (Stopping mode reason) =
     debug_struct ''Stopping'' [(''mode'', show_mode mode), (''reason'', show_reason reason)]"
| "debug_state (Failed mode error recoverable) =
     debug_struct ''Failed''
       [(''mode'', show_mode mode), (''error'', show_failure error),
        (''recoverable'', if recoverable then ascii ''true'' else ascii ''false'')]"

section \<open>The engine\<close>

definition FFI_VERSION :: u32 where
  "FFI_VERSION = 1"

datatype TaskPhase = Spawned | Running | Ended

text \<open>A spawned task: its mode, how far it is, the version of the shutdown channel it has seen, and from
  its configuration the address it reports, the descriptor and the MTU.\<close>

record task =
  t_mode :: SessionMode
  t_phase :: TaskPhase
  t_seen :: nat
  t_peer :: SocketAddr
  t_fd :: i32
  t_mtu :: u16

text \<open>The shutdown channel is its value, the number of messages so far and the number of receivers.\<close>

record 'cb engine =
  e_session :: "unit Session"
  e_metrics :: EngineMetrics
  e_shutdown :: bool
  e_version :: nat
  e_receivers :: nat
  e_callback :: "'cb option"
  e_delivered :: "('cb \<times> bytes) list"
  e_tasks :: "task list"

definition Engine_new :: "'cb engine" where
  "Engine_new =
     \<lparr>e_session = Session_add_listener () Session_new, e_metrics = EngineMetrics_new, e_shutdown = False,
      e_version = 0, e_receivers = 0, e_callback = None, e_delivered = [], e_tasks = []\<rparr>"

text \<open>The listener hands the new state to the callback, if there is one.\<close>

definition notify :: "(unit \<times> SessionState) list \<Rightarrow> 'cb engine \<Rightarrow> 'cb engine" where
  "notify calls e =
     (case e_callback e of
        None \<Rightarrow> e
      | Some cb \<Rightarrow> e\<lparr>e_delivered := e_delivered e @ map (\<lambda>(_, state). (cb, session_state_to_json state)) calls\<rparr>)"

definition engine_dispatch :: "SessionEvent \<Rightarrow> 'cb engine \<Rightarrow> (EngineError + unit) \<times> 'cb engine" where
  "engine_dispatch ev e =
     (case Session_dispatch ev (e_session e) of
        (r, session, calls) \<Rightarrow> (r, notify calls (e\<lparr>e_session := session\<rparr>)))"

text \<open>\<open>watch::Sender::send\<close> fails, and leaves the value alone, when there is no receiver.\<close>

definition watch_send :: "bool \<Rightarrow> 'cb engine \<Rightarrow> 'cb engine" where
  "watch_send v e = (if e_receivers e = 0 then e else e\<lparr>e_shutdown := v, e_version := Suc (e_version e)\<rparr>)"

section \<open>Calls of the application\<close>

datatype action =
    ResetIfActive
  | Dispatch SessionEvent
  | Subscribe
  | Spawn SessionMode SocketAddr i32 u16
  | SendShutdown bool

text \<open>One action of a call, with the version its receiver has seen, if it has subscribed.\<close>

fun run_action :: "action \<Rightarrow> nat option \<Rightarrow> 'cb engine \<Rightarrow> (EngineError + nat option) \<times> 'cb engine" where
  "run_action ResetIfActive seen e =
     (Inr seen,
      if Session_state (e_session e) \<noteq> Idle
      then watch_send False (e\<lparr>e_session := Session_force_idle (e_session e)\<rparr>) else e)"
| "run_action (Dispatch ev) seen e =
     (case engine_dispatch ev e of
        (Inl err, e) \<Rightarrow> (Inl err, if seen = None then e else e\<lparr>e_receivers := e_receivers e - 1\<rparr>)
      | (Inr _, e) \<Rightarrow> (Inr seen, e))"
| "run_action Subscribe seen e = (Inr (Some (e_version e)), e\<lparr>e_receivers := Suc (e_receivers e)\<rparr>)"
| "run_action (Spawn mode peer fd mtu) seen e =
     (Inr seen,
      e\<lparr>e_tasks := e_tasks e @
        [\<lparr>t_mode = mode, t_phase = Spawned, t_seen = (case seen of Some v \<Rightarrow> v | None \<Rightarrow> 0), t_peer = peer,
          t_fd = fd, t_mtu = mtu\<rparr>]\<rparr>)"
| "run_action (SendShutdown v) seen e = (Inr seen, watch_send v e)"

fun run_actions :: "action list \<Rightarrow> nat option \<Rightarrow> 'cb engine \<Rightarrow> (EngineError + unit) \<times> 'cb engine" where
  "run_actions [] seen e = (Inr (), e)"
| "run_actions (a # as) seen e =
     (case run_action a seen e of
        (Inl err, e) \<Rightarrow> (Inl err, e)
      | (Inr seen, e) \<Rightarrow> run_actions as seen e)"

definition start_server_actions :: "ServerConfig \<Rightarrow> action list" where
  "start_server_actions cfg =
     [ResetIfActive, Dispatch (UserStart Server), Subscribe, Dispatch EngineReady,
      Spawn Server (cfg_socks_bind cfg) 0 0]"

definition start_client_actions :: "i32 \<Rightarrow> ClientConfig \<Rightarrow> action list" where
  "start_client_actions fd cfg =
     [ResetIfActive, Dispatch (UserStart Client), Dispatch EngineReady, Subscribe,
      Spawn Client (cfg_proxy_addr cfg) fd (cfg_mtu cfg)]"

definition stop_actions :: "action list" where
  "stop_actions = [Dispatch UserStop, SendShutdown True]"

definition Engine_start_server :: "ServerConfig \<Rightarrow> 'cb engine \<Rightarrow> (EngineError + unit) \<times> 'cb engine" where
  "Engine_start_server cfg = run_actions (start_server_actions cfg) None"

definition Engine_start_client :: "i32 \<Rightarrow> ClientConfig \<Rightarrow> 'cb engine \<Rightarrow> (EngineError + unit) \<times> 'cb engine" where
  "Engine_start_client fd cfg e =
     (if sint fd < 0 then (Inl InvalidFd, e) else run_actions (start_client_actions fd cfg) None e)"

definition Engine_stop :: "'cb engine \<Rightarrow> (EngineError + unit) \<times> 'cb engine" where
  "Engine_stop = run_actions stop_actions None"

definition Engine_shutdown :: "'cb engine \<Rightarrow> 'cb engine" where
  "Engine_shutdown e = watch_send True e"

definition Engine_set_event_callback :: "'cb \<Rightarrow> 'cb engine \<Rightarrow> 'cb engine" where
  "Engine_set_event_callback f e = e\<lparr>e_callback := Some f\<rparr>"

text \<open>A JSON string is made by \<open>serde_json\<close>, the parameter.\<close>

definition Engine_state_json :: "(bytes \<Rightarrow> bytes option) \<Rightarrow> 'cb engine \<Rightarrow> bytes" where
  "Engine_state_json to_string e =
     (case to_string (debug_state (Session_state (e_session e))) of Some s \<Rightarrow> s | None \<Rightarrow> [])"

text \<open>The JSON of the counters is made by \<open>serde_json\<close>, the parameter.\<close>

definition Engine_metrics_json :: "(MetricsSnapshot \<Rightarrow> bytes option) \<Rightarrow> 'cb engine \<Rightarrow> bytes" where
  "Engine_metrics_json to_string e =
     (case to_string (EngineMetrics_snapshot (e_metrics e)) of Some s \<Rightarrow> s | None \<Rightarrow> [])"

section \<open>The spawned tasks\<close>

definition set_phase :: "nat \<Rightarrow> TaskPhase \<Rightarrow> 'cb engine \<Rightarrow> 'cb engine" where
  "set_phase i ph e =
     (let e = e\<lparr>e_tasks := (e_tasks e)[i := (e_tasks e ! i)\<lparr>t_phase := ph\<rparr>]\<rparr>
      in if ph = Ended then e\<lparr>e_receivers := e_receivers e - 1\<rparr> else e)"

text \<open>The first part of a task, up to its main loop. \<open>tun_ok\<close> tells whether the TUN device could be
  opened. The stack refuses an MTU outside 576 to 9000.\<close>

definition task_begin :: "nat \<Rightarrow> bool \<Rightarrow> 'cb engine \<Rightarrow> 'cb engine" where
  "task_begin i tun_ok e =
     (let t = e_tasks e ! i
      in if t_mode t = Client \<and> (\<not> tun_ok \<or> isl (UserspaceStack_new () (t_mtu t)))
         then set_phase i Ended (snd (engine_dispatch (FatalError TunOpenFailed) e))
         else set_phase i Running (snd (engine_dispatch (ProxyConnected (PeerInfo (t_peer t))) e)))"

definition task_end :: "nat \<Rightarrow> 'cb engine \<Rightarrow> 'cb engine" where
  "task_end i e = set_phase i Ended (snd (engine_dispatch EngineStopped e))"

text \<open>When the main loop of a task is over: the client's \<open>select!\<close> reacts to every message on the
  shutdown channel, the servers stop when its value is true. \<open>loop_over\<close> stands for a loop that ends by
  itself: both servers failing to bind, or both tasks of the client ending.\<close>

definition task_may_end :: "bool \<Rightarrow> nat \<Rightarrow> 'cb engine \<Rightarrow> bool" where
  "task_may_end loop_over i e =
     (let t = e_tasks e ! i
      in t_phase t = Running \<and>
         (loop_over \<or> e_version e \<noteq> t_seen t \<and> (t_mode t = Client \<or> e_shutdown e)))"

text \<open>The two servers of a server task, over what each of their loops observes.\<close>

definition server_task ::
  "'w tcp_ops \<Rightarrow> ServerConfig \<Rightarrow> loop_event list \<Rightarrow> loop_event list \<Rightarrow> 'w \<Rightarrow>
     (bool \<times> socks_task list \<times> http_task list) \<times> 'w" where
  "server_task io cfg socks_evs http_evs w =
     (case SocksServer_run io (SocksServer_new
             \<lparr>srv_bind_addr = cfg_socks_bind cfg, srv_auth_enabled = False, handshake_timeout_secs = 30\<rparr>) socks_evs w of
        (rs, ts, w) \<Rightarrow>
          (case HttpProxyServer_run io (HttpProxyServer_new
                  \<lparr>http_bind_addr = cfg_http_bind cfg, http_auth_enabled = False\<rparr>) http_evs w of
             (rh, th, w) \<Rightarrow> ((rs \<noteq> None \<and> rh \<noteq> None, ts, th), w)))"

section \<open>Calls, threads and tasks together\<close>

text \<open>Threads of the application call into the engine while its tasks run. A thread is what remains of
  its call; every action is one step, so calls and tasks interleave in all ways. A call whose
  \<open>dispatch\<close> is refused ends there.\<close>

record 'cb sys =
  sy_engine :: "'cb engine"
  sy_threads :: "(nat option \<times> action list) list"

datatype api_call = CallStartServer ServerConfig | CallStartClient i32 ClientConfig | CallStop | CallShutdown

fun call_actions :: "api_call \<Rightarrow> action list" where
  "call_actions (CallStartServer cfg) = start_server_actions cfg"
| "call_actions (CallStartClient fd cfg) = (if sint fd < 0 then [] else start_client_actions fd cfg)"
| "call_actions CallStop = stop_actions"
| "call_actions CallShutdown = [SendShutdown True]"

inductive sys_step :: "'cb sys \<Rightarrow> 'cb sys \<Rightarrow> bool" where
  sys_call: "sys_step s (s\<lparr>sy_threads := sy_threads s @ [(None, call_actions c)]\<rparr>)"
| sys_act: "i < length (sy_threads s) \<Longrightarrow> sy_threads s ! i = (seen, a # as) \<Longrightarrow>
    run_action a seen (sy_engine s) = (r, e) \<Longrightarrow>
    sys_step s (s\<lparr>sy_engine := e,
      sy_threads := (sy_threads s)[i := (case r of Inl _ \<Rightarrow> (None, []) | Inr seen \<Rightarrow> (seen, as))]\<rparr>)"
| sys_callback: "sys_step s (s\<lparr>sy_engine := Engine_set_event_callback f (sy_engine s)\<rparr>)"
| sys_begin: "i < length (e_tasks (sy_engine s)) \<Longrightarrow> t_phase (e_tasks (sy_engine s) ! i) = Spawned \<Longrightarrow>
    sys_step s (s\<lparr>sy_engine := task_begin i tun_ok (sy_engine s)\<rparr>)"
| sys_end: "i < length (e_tasks (sy_engine s)) \<Longrightarrow> task_may_end loop_over i (sy_engine s) \<Longrightarrow>
    sys_step s (s\<lparr>sy_engine := task_end i (sy_engine s)\<rparr>)"

definition sys_init :: "'cb sys" where
  "sys_init = \<lparr>sy_engine = Engine_new, sy_threads = []\<rparr>"

section \<open>States the engine can be in\<close>

fun engine_state :: "SessionState \<Rightarrow> bool" where
  "engine_state Idle \<longleftrightarrow> True"
| "engine_state (Preparing _) \<longleftrightarrow> True"
| "engine_state (Connecting _ attempt) \<longleftrightarrow> attempt = 1"
| "engine_state (Connected _ _) \<longleftrightarrow> True"
| "engine_state (Reconnecting _ _ _) \<longleftrightarrow> False"
| "engine_state (Stopping _ reason) \<longleftrightarrow> reason = StopUserRequest"
| "engine_state (Failed _ kind recoverable) \<longleftrightarrow> kind = TunOpenFailed \<and> \<not> recoverable"

fun engine_event :: "SessionEvent \<Rightarrow> bool" where
  "engine_event (UserStart _) \<longleftrightarrow> True"
| "engine_event UserStop \<longleftrightarrow> True"
| "engine_event EngineReady \<longleftrightarrow> True"
| "engine_event EngineStopped \<longleftrightarrow> True"
| "engine_event (ProxyConnected _) \<longleftrightarrow> True"
| "engine_event (FatalError kind) \<longleftrightarrow> kind = TunOpenFailed"
| "engine_event _ \<longleftrightarrow> False"

lemma transition_closed:
  "engine_state s \<Longrightarrow> engine_event ev \<Longrightarrow> transition s ev = Inr s' \<Longrightarrow> engine_state s'"
  by (cases ev; cases s) (auto simp: transition_def is_recoverable_def)

definition engine_inv :: "'cb engine \<Rightarrow> bool" where
  "engine_inv e \<longleftrightarrow> engine_state (ses_state (e_session e)) \<and>
     (\<forall>(cb, json) \<in> set (e_delivered e). \<exists>st. engine_state st \<and> json = session_state_to_json st)"

lemma engine_inv_frame:
  "engine_inv e \<Longrightarrow> e_session e' = e_session e \<Longrightarrow> e_delivered e' = e_delivered e \<Longrightarrow>
     engine_inv e'"
  by (simp add: engine_inv_def)

lemma engine_dispatch_inv:
  assumes "engine_inv e" and "engine_event ev"
  shows "engine_inv (snd (engine_dispatch ev e))"
proof (cases "transition (ses_state (e_session e)) ev")
  case (Inl err)
  then have "snd (engine_dispatch ev e) = notify [] (e\<lparr>e_session := e_session e\<rparr>)"
    by (simp add: engine_dispatch_def Session_dispatch_def Session_state_def Let_def)
  then show ?thesis using assms(1) by (auto simp: notify_def intro: engine_inv_frame split: option.splits)
next
  case (Inr next')
  then have "engine_state next'" using assms transition_closed by (auto simp: engine_inv_def)
  then show ?thesis
    using assms(1) Inr
    by (auto simp: engine_dispatch_def Session_dispatch_def Session_state_def notify_def engine_inv_def Let_def
        split: option.splits)
qed

lemma watch_send_inv: "engine_inv e \<Longrightarrow> engine_inv (watch_send v e)"
  by (auto simp: watch_send_def intro: engine_inv_frame)

lemma set_phase_inv: "engine_inv e \<Longrightarrow> engine_inv (set_phase i ph e)"
  by (auto simp: set_phase_def Let_def intro: engine_inv_frame)

fun action_ok :: "action \<Rightarrow> bool" where
  "action_ok (Dispatch ev) = engine_event ev"
| "action_ok _ = True"

lemma run_action_inv:
  assumes "engine_inv e" and "action_ok a" and "run_action a seen e = (r, e')"
  shows "engine_inv e'"
proof (cases a)
  case ResetIfActive
  have "engine_inv (e\<lparr>e_session := Session_force_idle (e_session e)\<rparr>)"
    using assms(1) by (simp add: engine_inv_def Session_force_idle_def)
  then show ?thesis using assms ResetIfActive watch_send_inv by (auto split: if_splits)
next
  case (Dispatch ev)
  obtain q e1 where q: "engine_dispatch ev e = (q, e1)" by fastforce
  then have "engine_inv e1" using engine_dispatch_inv [of e ev] assms Dispatch by simp
  then show ?thesis using assms(3) Dispatch q by (auto split: sum.splits if_splits intro: engine_inv_frame)
next
  case (SendShutdown v)
  then show ?thesis using assms watch_send_inv by auto
qed (use assms in \<open>auto intro: engine_inv_frame\<close>)

definition sys_inv :: "'cb sys \<Rightarrow> bool" where
  "sys_inv s \<longleftrightarrow> engine_inv (sy_engine s) \<and> (\<forall>(seen, as) \<in> set (sy_threads s). \<forall>a \<in> set as. action_ok a)"

lemma call_actions_ok: "a \<in> set (call_actions c) \<Longrightarrow> action_ok a"
  by (cases c) (auto simp: start_server_actions_def start_client_actions_def stop_actions_def split: if_splits)

lemma sys_step_inv: "sys_step s s' \<Longrightarrow> sys_inv s \<Longrightarrow> sys_inv s'"
proof (induction rule: sys_step.induct)
  case (sys_call s c)
  then show ?case using call_actions_ok by (auto simp: sys_inv_def)
next
  case (sys_act i s seen a as r e)
  have "(seen, a # as) \<in> set (sy_threads s)" using sys_act.hyps(1,2) nth_mem by force
  then have ok: "action_ok a" "\<forall>a \<in> set as. action_ok a" using sys_act.prems by (auto simp: sys_inv_def)
  have "engine_inv e" using run_action_inv [OF _ ok(1) sys_act.hyps(3)] sys_act.prems by (simp add: sys_inv_def)
  moreover have "\<forall>(seen, as) \<in> set ((sy_threads s)[i := (case r of Inl _ \<Rightarrow> (None, []) | Inr seen \<Rightarrow> (seen, as))]). \<forall>a \<in> set as. action_ok a"
    using sys_act.prems ok(2) by (auto simp: sys_inv_def dest!: set_update_subset_insert [THEN subsetD] split: sum.splits)
  ultimately show ?case by (simp add: sys_inv_def)
next
  case (sys_callback s f)
  then show ?case by (auto simp: sys_inv_def Engine_set_event_callback_def intro: engine_inv_frame)
next
  case (sys_begin i s tun_ok)
  then show ?case by (auto simp: sys_inv_def task_begin_def Let_def intro!: set_phase_inv engine_dispatch_inv)
next
  case (sys_end i s loop_over)
  then show ?case by (auto simp: sys_inv_def task_end_def intro!: set_phase_inv engine_dispatch_inv)
qed

lemma sys_reachable_inv: "sys_step\<^sup>*\<^sup>* sys_init s \<Longrightarrow> sys_inv s"
proof (induction rule: rtranclp_induct)
  case base
  show ?case by (simp add: sys_inv_def sys_init_def engine_inv_def Engine_new_def Session_add_listener_def Session_new_def)
next
  case (step y z)
  then show ?case using sys_step_inv by blast
qed



section \<open>A session from start to end\<close>

text \<open>The engine at rest: one listener, no task and no receiver left.\<close>

definition at_rest :: "'cb engine \<Rightarrow> bool" where
  "at_rest e \<longleftrightarrow> ses_listeners (e_session e) = [()] \<and> e_tasks e = [] \<and> e_receivers e = 0"

lemmas lifecycle_defs =
  Engine_start_client_def start_client_actions_def Engine_stop_def stop_actions_def Engine_shutdown_def
  engine_dispatch_def Session_dispatch_def Session_state_def Session_force_idle_def notify_def
  watch_send_def set_phase_def task_begin_def task_end_def task_may_end_def UserspaceStack_new_def Let_def

lemma start_client_ok:
  assumes "0 \<le> sint fd" and "at_rest e" and "e_callback e = Some cb"
  shows "Engine_start_client fd cfg e =
     (Inr (), e\<lparr>e_session := (e_session e)\<lparr>ses_state := Connecting Client 1\<rparr>, e_receivers := 1,
        e_delivered := e_delivered e @ [(cb, session_state_to_json (Preparing Client)), (cb, session_state_to_json (Connecting Client 1))],
        e_tasks := [\<lparr>t_mode = Client, t_phase = Spawned, t_seen = e_version e, t_peer = cfg_proxy_addr cfg, t_fd = fd,
          t_mtu = cfg_mtu cfg\<rparr>]\<rparr>)"
  using assms by (cases "ses_state (e_session e)") (simp_all add: lifecycle_defs transition_def at_rest_def)

text \<open>A client session between its calls: its only task, the version of the shutdown flag the task has seen
  (\<open>v\<close>) and the current one (\<open>v'\<close>), and what the callback has been given.\<close>

definition client_run ::
  "'cb \<Rightarrow> i32 \<Rightarrow> ClientConfig \<Rightarrow> nat \<Rightarrow> nat \<Rightarrow> SessionState \<Rightarrow> TaskPhase \<Rightarrow> ('cb \<times> bytes) list \<Rightarrow> 'cb engine \<Rightarrow> bool" where
  "client_run cb fd cfg v v' st phase log e \<longleftrightarrow>
     ses_state (e_session e) = st \<and> ses_listeners (e_session e) = [()] \<and> e_receivers e = 1 \<and> e_version e = v' \<and>
     e_callback e = Some cb \<and> e_delivered e = log \<and>
     e_tasks e = [\<lparr>t_mode = Client, t_phase = phase, t_seen = v, t_peer = cfg_proxy_addr cfg, t_fd = fd, t_mtu = cfg_mtu cfg\<rparr>]"

lemma start_client_runs:
  assumes "0 \<le> sint fd" and "at_rest e" and "e_callback e = Some cb"
  shows "\<exists>e1. Engine_start_client fd cfg e = (Inr (), e1) \<and>
     client_run cb fd cfg (e_version e) (e_version e) (Connecting Client 1) Spawned
       (e_delivered e @ map (\<lambda>st. (cb, session_state_to_json st)) [Preparing Client, Connecting Client 1]) e1"
  using start_client_ok [OF assms] assms(2,3) by (simp add: client_run_def at_rest_def)

lemma begin_connects:
  assumes "client_run cb fd cfg v v (Connecting Client 1) Spawned log e" and "576 \<le> cfg_mtu cfg" and "cfg_mtu cfg \<le> 9000"
  shows "client_run cb fd cfg v v (Connected Client (PeerInfo (cfg_proxy_addr cfg))) Running
      (log @ [(cb, session_state_to_json (Connected Client (PeerInfo (cfg_proxy_addr cfg))))]) (task_begin 0 True e)"
    and "Session_state (e_session (task_begin 0 False e)) = Failed Client TunOpenFailed False"
proof -
  have "\<not> isl (UserspaceStack_new () (cfg_mtu cfg))"
    using assms(2,3) by (simp add: UserspaceStack_new_def linorder_not_less)
  then show "client_run cb fd cfg v v (Connected Client (PeerInfo (cfg_proxy_addr cfg))) Running
      (log @ [(cb, session_state_to_json (Connected Client (PeerInfo (cfg_proxy_addr cfg))))]) (task_begin 0 True e)"
    using assms(1) by (simp add: client_run_def task_begin_def engine_dispatch_def Session_dispatch_def Session_state_def
        notify_def set_phase_def transition_def Let_def)
  show "Session_state (e_session (task_begin 0 False e)) = Failed Client TunOpenFailed False"
    using assms(1) by (simp add: client_run_def task_begin_def engine_dispatch_def Session_dispatch_def Session_state_def
        notify_def set_phase_def transition_def mode_or_client_def is_recoverable_def Let_def)
qed

lemma stop_refused:
  assumes "client_run cb fd cfg v v (Connecting Client 1) Spawned log e"
  shows "Engine_stop e = (Inl InvalidTransition, e)"
  using assms by (simp add: client_run_def Engine_stop_def stop_actions_def engine_dispatch_def Session_dispatch_def
      Session_state_def notify_def transition_def)

lemma stop_signals:
  assumes "client_run cb fd cfg v v (Connected Client p) Running log e"
  shows "\<exists>e'. Engine_stop e = (Inr (), e') \<and> client_run cb fd cfg v (Suc v) (Stopping Client StopUserRequest) Running
     (log @ [(cb, session_state_to_json (Stopping Client StopUserRequest))]) e'"
  using assms by (simp add: client_run_def lifecycle_defs transition_def)

lemma task_waits_for_signal:
  assumes "client_run cb fd cfg v v' st Running log e"
  shows "task_may_end False 0 e \<longleftrightarrow> v' \<noteq> v"
  using assms by (auto simp: client_run_def task_may_end_def)

lemma end_idles:
  assumes "client_run cb fd cfg v v' (Stopping Client r) Running log e"
  shows "Session_state (e_session (task_end 0 e)) = Idle \<and> e_receivers (task_end 0 e) = 0 \<and>
     e_delivered (task_end 0 e) = log @ [(cb, session_state_to_json Idle)]"
  using assms by (simp add: client_run_def task_end_def engine_dispatch_def Session_dispatch_def Session_state_def
      notify_def set_phase_def transition_def Let_def)

lemma shutdown_leaves_connected:
  assumes "client_run cb fd cfg v v (Connected Client p) Running log e"
  shows "task_may_end False 0 (Engine_shutdown e) \<and>
     Session_state (e_session (task_end 0 (Engine_shutdown e))) = Connected Client p"
  using assms by (simp add: client_run_def task_may_end_def Engine_shutdown_def watch_send_def task_end_def
      engine_dispatch_def Session_dispatch_def Session_state_def notify_def set_phase_def transition_def Let_def)

text \<open>C10: a client session runs through its states and reports each of them. From any state the engine
  is at rest in, \<open>start_client\<close> succeeds and spawns the client task; when the task has its TUN device
  and its stack the session is connected; \<open>stop\<close> succeeds, and only then is the task asked to end; when
  it has ended the session is idle again. The callback is given exactly these five transitions, in
  order. A TUN device that cannot be opened makes the session fail. Two things do not work: \<open>stop\<close> is
  refused, and does not even ask the task to end, before the session is connected; and \<open>shutdown\<close> ends
  the task but leaves the session connected.\<close>

theorem client_session_lifecycle:
  assumes "0 \<le> sint fd" and "at_rest e" and "e_callback e = Some cb" and "576 \<le> cfg_mtu cfg" and "cfg_mtu cfg \<le> 9000"
  shows "\<exists>e1 e2 e3 e4. Engine_start_client fd cfg e = (Inr (), e1) \<and>
     e2 = task_begin 0 True e1 \<and> Session_state (e_session e2) = Connected Client (PeerInfo (cfg_proxy_addr cfg)) \<and>
     \<not> task_may_end False 0 e2 \<and> Engine_stop e2 = (Inr (), e3) \<and> task_may_end False 0 e3 \<and>
     e4 = task_end 0 e3 \<and> Session_state (e_session e4) = Idle \<and> e_receivers e4 = 0 \<and>
     e_delivered e4 = e_delivered e @ map (\<lambda>st. (cb, session_state_to_json st))
       [Preparing Client, Connecting Client 1, Connected Client (PeerInfo (cfg_proxy_addr cfg)),
        Stopping Client StopUserRequest, Idle] \<and>
     Session_state (e_session (task_begin 0 False e1)) = Failed Client TunOpenFailed False \<and>
     Engine_stop e1 = (Inl InvalidTransition, e1) \<and>
     task_may_end False 0 (Engine_shutdown e2) \<and>
     Session_state (e_session (task_end 0 (Engine_shutdown e2))) = Connected Client (PeerInfo (cfg_proxy_addr cfg))"
proof -
  let ?v = "e_version e" and ?p = "PeerInfo (cfg_proxy_addr cfg)"
  obtain e1 where e1: "Engine_start_client fd cfg e = (Inr (), e1)"
    and r1: "client_run cb fd cfg ?v ?v (Connecting Client 1) Spawned
       (e_delivered e @ map (\<lambda>st. (cb, session_state_to_json st)) [Preparing Client, Connecting Client 1]) e1"
    using start_client_runs [OF assms(1-3)] by blast
  note r2 = begin_connects(1) [OF r1 assms(4,5)]
  obtain e3 where e3: "Engine_stop (task_begin 0 True e1) = (Inr (), e3)"
    and r3: "client_run cb fd cfg ?v (Suc ?v) (Stopping Client StopUserRequest) Running
       ((e_delivered e @ map (\<lambda>st. (cb, session_state_to_json st)) [Preparing Client, Connecting Client 1]) @
         [(cb, session_state_to_json (Connected Client ?p))] @
         [(cb, session_state_to_json (Stopping Client StopUserRequest))]) e3"
    using stop_signals [OF r2] by auto
  have "Session_state (e_session (task_begin 0 True e1)) = Connected Client ?p"
    using r2 by (simp add: client_run_def Session_state_def)
  then show ?thesis
    using e1 e3 end_idles [OF r3] begin_connects(2) [OF r1 assms(4,5)] stop_refused [OF r1]
      shutdown_leaves_connected [OF r2] task_waits_for_signal [OF r2] task_waits_for_signal [OF r3]
    by (intro exI [of _ e1] exI [of _ "task_begin 0 True e1"] exI [of _ e3] exI [of _ "task_end 0 e3"]) simp
qed

theorem client_session_lifecycle_witness:
  "\<exists>e1 e3 :: unit engine. Engine_start_client 3 ClientConfig_default (Engine_set_event_callback () Engine_new) = (Inr (), e1) \<and>
     Engine_stop (task_begin 0 True e1) = (Inr (), e3) \<and> Session_state (e_session (task_end 0 e3)) = Idle"
proof -
  have f: "0 \<le> sint (3 :: i32)" by simp
  have a: "at_rest (Engine_set_event_callback () Engine_new)"
    by (simp add: at_rest_def Engine_set_event_callback_def Engine_new_def Session_add_listener_def Session_new_def)
  have c: "e_callback (Engine_set_event_callback () Engine_new) = Some ()" by (simp add: Engine_set_event_callback_def)
  have m: "576 \<le> cfg_mtu ClientConfig_default" "cfg_mtu ClientConfig_default \<le> 9000"
    by (simp_all add: ClientConfig_default_def DEFAULT_MTU_def)
  from client_session_lifecycle [OF f a c m] show ?thesis by (elim exE conjE) (intro exI conjI, assumption, simp, simp)
qed

section \<open>The servers of a server session\<close>



end
