(* ===== verification/Ffi.thy ===== *)
theory Ffi
  imports Engine
begin

text \<open>
  The interfaces other languages call: the JNI entry points of \<open>gravital-engine/src/jni_android.rs\<close> with
  the codes of \<open>error.rs\<close>, and the C and JNI functions of the crate \<open>gravital-ffi\<close> (\<open>c_api.rs\<close>,
  \<open>jni_api.rs\<close>). The JNI environment belongs to the \<open>jni\<close> crate: what its functions return is passed in.
  Configurations are read by \<open>serde_json\<close>, the parameter \<open>from_str\<close>. A body that panics is \<open>None\<close>.
\<close>

section \<open>Codes\<close>

definition OK :: i32 where "OK = 0"

definition INVALID_ARG :: i32 where "INVALID_ARG = -1"

definition ALREADY_INITIALIZED :: i32 where "ALREADY_INITIALIZED = -2"

definition NOT_INITIALIZED :: i32 where "NOT_INITIALIZED = -3"

definition INVALID_FD :: i32 where "INVALID_FD = -4"

definition CONFIG_INVALID :: i32 where "CONFIG_INVALID = -5"

definition INTERNAL_PANIC :: i32 where "INTERNAL_PANIC = -6"

definition BUFFER_TOO_SMALL :: i32 where "BUFFER_TOO_SMALL = -7"

definition IO_ERROR :: i32 where "IO_ERROR = -8"

definition STATE_TRANSITION_INVALID :: i32 where "STATE_TRANSITION_INVALID = -9"

lemmas ffi_codes = OK_def INVALID_ARG_def ALREADY_INITIALIZED_def NOT_INITIALIZED_def INVALID_FD_def CONFIG_INVALID_def
  INTERNAL_PANIC_def BUFFER_TOO_SMALL_def IO_ERROR_def STATE_TRANSITION_INVALID_def

section \<open>The JNI entry points\<close>

text \<open>The globals of the process: the engine, whether the Java VM is known, and the registered Kotlin
  callback. The callback the engine calls is \<open>fire_jvm_event\<close>, which calls whatever is registered.
  \<open>rt_ok\<close> tells whether the tokio runtime can be built.\<close>

datatype native_callback = fire_jvm_event

record 'k jni =
  j_instance :: "native_callback engine option"
  j_jvm :: bool
  j_callback :: "'k option"
  j_fired :: "('k \<times> bytes) list"

definition Engine_init :: "bool \<Rightarrow> 'k jni \<Rightarrow> (EngineError + unit) \<times> 'k jni" where
  "Engine_init rt_ok j =
     (if \<not> rt_ok then (Inl EngineIo, j)
      else case j_instance j of
        None \<Rightarrow> (Inr (), j\<lparr>j_instance := Some Engine_new\<rparr>)
      | Some _ \<Rightarrow> (Inl AlreadyInitialized, j))"

definition Engine_get :: "'k jni \<Rightarrow> EngineError + native_callback engine" where
  "Engine_get j = (case j_instance j of Some e \<Rightarrow> Inr e | None \<Rightarrow> Inl NotInitialized)"

definition get_or_init :: "bool \<Rightarrow> 'k jni \<Rightarrow> (EngineError + native_callback engine) \<times> 'k jni" where
  "get_or_init rt_ok j =
     (case Engine_get j of
        Inr e \<Rightarrow> (Inr e, j)
      | Inl _ \<Rightarrow>
          (case Engine_init rt_ok j of
             (Inr _, j) \<Rightarrow> (Engine_get j, j)
           | (Inl AlreadyInitialized, j) \<Rightarrow> (Engine_get j, j)
           | (Inl e, j) \<Rightarrow> (Inl e, j)))"

definition ffi_catch :: "(i32 \<times> 'k jni) option \<Rightarrow> 'k jni \<Rightarrow> i32 \<times> 'k jni" where
  "ffi_catch body j = (case body of Some r \<Rightarrow> r | None \<Rightarrow> (INTERNAL_PANIC, j))"

text \<open>\<open>fire_jvm_event\<close> needs the VM and a registered callback; attaching the thread and making the
  Java string can fail (\<open>attach_ok\<close>).\<close>

definition fire_event :: "bool \<Rightarrow> bytes \<Rightarrow> 'k jni \<Rightarrow> 'k jni" where
  "fire_event attach_ok json j =
     (if \<not> j_jvm j then j
      else case j_callback j of
        None \<Rightarrow> j
      | Some cb \<Rightarrow> if attach_ok then j\<lparr>j_fired := j_fired j @ [(cb, json)]\<rparr> else j)"

definition jni_init :: "bool \<Rightarrow> bytes option \<Rightarrow> 'k jni \<Rightarrow> i32 \<times> 'k jni" where
  "jni_init rt_ok config_json j =
     ffi_catch (Some (
       case Engine_init rt_ok j of
         (Inr _, j) \<Rightarrow> (OK, j)
       | (Inl AlreadyInitialized, j) \<Rightarrow> (OK, j)
       | (Inl _, j) \<Rightarrow> (INVALID_ARG, j))) j"

text \<open>\<open>vm_ok\<close> and \<open>global_ref\<close> are the results of \<open>get_java_vm\<close> and \<open>new_global_ref\<close>.\<close>

definition jni_setEventCallback :: "bool \<Rightarrow> bool \<Rightarrow> 'k option \<Rightarrow> 'k jni \<Rightarrow> i32 \<times> 'k jni" where
  "jni_setEventCallback rt_ok vm_ok global_ref j =
     ffi_catch (Some (
       if \<not> j_jvm j \<and> \<not> vm_ok then (INTERNAL_PANIC, j)
       else
         let j = j\<lparr>j_jvm := True\<rparr>
         in case global_ref of
              None \<Rightarrow> (INTERNAL_PANIC, j)
            | Some r \<Rightarrow>
                let j = j\<lparr>j_callback := Some r\<rparr>
                in (case get_or_init rt_ok j of
                      (Inl _, j) \<Rightarrow> (NOT_INITIALIZED, j)
                    | (Inr engine, j) \<Rightarrow>
                        (OK, j\<lparr>j_instance := Some (Engine_set_event_callback fire_jvm_event engine)\<rparr>)))) j"

definition start_code :: "EngineError + unit \<Rightarrow> i32" where
  "start_code r = (case r of Inr _ \<Rightarrow> OK | Inl InvalidFd \<Rightarrow> INVALID_FD | Inl _ \<Rightarrow> INVALID_ARG)"

definition jni_startServer ::
  "(bytes \<Rightarrow> EngineConfig option) \<Rightarrow> bool \<Rightarrow> bytes option \<Rightarrow> 'k jni \<Rightarrow> i32 \<times> 'k jni" where
  "jni_startServer from_str rt_ok config_json j =
     ffi_catch (Some (
       let json = (case config_json of Some s \<Rightarrow> s | None \<Rightarrow> []);
           server_cfg = (case from_str json of Some (ServerCfg c) \<Rightarrow> c | _ \<Rightarrow> ServerConfig_default)
       in case get_or_init rt_ok j of
            (Inl _, j) \<Rightarrow> (NOT_INITIALIZED, j)
          | (Inr engine, j) \<Rightarrow>
              (case Engine_start_server server_cfg engine of
                 (r, engine) \<Rightarrow> (start_code r, j\<lparr>j_instance := Some engine\<rparr>)))) j"

definition jni_startClient ::
  "(bytes \<Rightarrow> EngineConfig option) \<Rightarrow> bool \<Rightarrow> i32 \<Rightarrow> bytes option \<Rightarrow> 'k jni \<Rightarrow> i32 \<times> 'k jni" where
  "jni_startClient from_str rt_ok fd config_json j =
     ffi_catch (Some (
       if sint fd < 0 then (INVALID_FD, j)
       else
         let json = (case config_json of Some s \<Rightarrow> s | None \<Rightarrow> []);
             client_cfg = (case from_str json of Some (ClientCfg c) \<Rightarrow> c | _ \<Rightarrow> ClientConfig_default)
         in case get_or_init rt_ok j of
              (Inl _, j) \<Rightarrow> (NOT_INITIALIZED, j)
            | (Inr engine, j) \<Rightarrow>
                (case Engine_start_client fd client_cfg engine of
                   (r, engine) \<Rightarrow> (start_code r, j\<lparr>j_instance := Some engine\<rparr>)))) j"

definition jni_stop :: "'k jni \<Rightarrow> i32 \<times> 'k jni" where
  "jni_stop j =
     ffi_catch (Some (
       case Engine_get j of
         Inr engine \<Rightarrow>
           (case Engine_stop engine of
              (Inr _, engine) \<Rightarrow> (OK, j\<lparr>j_instance := Some engine\<rparr>)
            | (Inl _, engine) \<Rightarrow> (INVALID_ARG, j\<lparr>j_instance := Some engine\<rparr>))
       | Inl _ \<Rightarrow> (OK, j))) j"

definition jni_shutdown :: "'k jni \<Rightarrow> i32 \<times> 'k jni" where
  "jni_shutdown j =
     ffi_catch (Some (
       case Engine_get j of
         Inr engine \<Rightarrow> (OK, j\<lparr>j_instance := Some (Engine_shutdown engine)\<rparr>)
       | Inl _ \<Rightarrow> (OK, j))) j"

text \<open>\<open>new_string\<close> gives a null pointer when it fails.\<close>

definition jni_getState :: "(bytes \<Rightarrow> bytes option) \<Rightarrow> bool \<Rightarrow> 'k jni \<Rightarrow> bytes option" where
  "jni_getState to_string string_ok j =
     (let json = (case Engine_get j of
                    Inr e \<Rightarrow> Engine_state_json to_string e
                  | Inl _ \<Rightarrow> [123] @ quoted (ascii ''state'') @ [58] @ quoted (ascii ''Idle'') @ [125])
      in if string_ok then Some json else None)"

definition jni_getStats :: "(MetricsSnapshot \<Rightarrow> bytes option) \<Rightarrow> bool \<Rightarrow> 'k jni \<Rightarrow> bytes option" where
  "jni_getStats to_string string_ok j =
     (let json = (case Engine_get j of
                    Inr e \<Rightarrow> Engine_metrics_json to_string e
                  | Inl _ \<Rightarrow> [123] @ quoted (ascii ''bytes_in'') @ ascii '':0,'' @ quoted (ascii ''bytes_out'') @ ascii '':0}'')
      in if string_ok then Some json else None)"

definition jni_ffiVersion :: i32 where
  "jni_ffiVersion = FFI_VERSION"

section \<open>The C functions\<close>

text \<open>A string argument is \<open>None\<close> for a null pointer, else the bytes before the terminating zero. A buffer
  is \<open>None\<close> for a null pointer, else the memory it points to; a write outside of that memory is \<open>None\<close>.\<close>

definition C_FFI_VERSION :: u32 where
  "C_FFI_VERSION = 1"

definition catch_panic :: "i32 option \<Rightarrow> i32" where
  "catch_panic body = (case body of Some v \<Rightarrow> v | None \<Rightarrow> -6)"

definition write_str_to_buf :: "bytes \<Rightarrow> bytes option \<Rightarrow> nat \<Rightarrow> (i32 \<times> bytes option) option" where
  "write_str_to_buf s buf len =
     (case buf of
        None \<Rightarrow> Some (-7, None)
      | Some mem \<Rightarrow>
          if len = 0 then Some (-7, Some mem)
          else if length s + 1 > len then Some (-7, Some mem)
          else do {
            mem \<leftarrow> copy_slice mem 0 (length s) s;
            mem \<leftarrow> set_idx mem (length s) 0;
            Some (word_of_nat (length s), Some mem) })"

definition gravital_engine_init :: "bytes option \<Rightarrow> i32" where
  "gravital_engine_init config_json = catch_panic (Some 0)"

definition gravital_engine_start_server :: "bytes option \<Rightarrow> i32" where
  "gravital_engine_start_server config_json =
     catch_panic (case config_json of None \<Rightarrow> Some (-1) | Some json \<Rightarrow> Some 0)"

definition gravital_engine_start_client :: "i32 \<Rightarrow> bytes option \<Rightarrow> i32" where
  "gravital_engine_start_client fd config_json =
     catch_panic (if sint fd < 0 then Some (-4)
                  else case config_json of None \<Rightarrow> Some (-1) | Some json \<Rightarrow> Some 0)"

definition gravital_engine_stop :: i32 where
  "gravital_engine_stop = catch_panic (Some 0)"

definition gravital_engine_shutdown :: i32 where
  "gravital_engine_shutdown = catch_panic (Some 0)"

definition gravital_engine_get_state :: "bytes option \<Rightarrow> nat \<Rightarrow> (i32 \<times> bytes option) option" where
  "gravital_engine_get_state out_buf out_buf_len =
     write_str_to_buf ([123] @ quoted (ascii ''state'') @ [58] @ quoted (ascii ''Idle'') @ [125]) out_buf out_buf_len"

definition gravital_engine_get_stats :: "bytes option \<Rightarrow> nat \<Rightarrow> (i32 \<times> bytes option) option" where
  "gravital_engine_get_stats out_buf out_buf_len =
     write_str_to_buf ([123] @ quoted (ascii ''bytes_in'') @ ascii '':0,'' @ quoted (ascii ''bytes_out'') @ ascii '':0}'')
       out_buf out_buf_len"

definition gravital_engine_set_event_callback :: i32 where
  "gravital_engine_set_event_callback = catch_panic (Some 0)"

definition gravital_engine_version :: bytes where
  "gravital_engine_version = ascii ''0.1.0'' @ [0]"

definition gravital_engine_ffi_version :: u32 where
  "gravital_engine_ffi_version = C_FFI_VERSION"

text \<open>The JNI functions of the same crate, which mirror them.\<close>

definition stub_init :: "bytes option \<Rightarrow> i32" where
  "stub_init config_json = 0"

definition stub_startClient :: "i32 \<Rightarrow> bytes option \<Rightarrow> i32" where
  "stub_startClient fd config_json = (if sint fd < 0 then -4 else 0)"

definition stub_startServer :: "bytes option \<Rightarrow> i32" where
  "stub_startServer config_json = 0"

definition stub_stop :: i32 where
  "stub_stop = 0"

definition stub_shutdown :: i32 where
  "stub_shutdown = 0"

definition stub_getState :: "bool \<Rightarrow> bytes option" where
  "stub_getState string_ok =
     (if string_ok then Some ([123] @ quoted (ascii ''state'') @ [58] @ quoted (ascii ''Idle'') @ [125]) else None)"

definition stub_getStats :: "bool \<Rightarrow> bytes option" where
  "stub_getStats string_ok =
     (if string_ok
      then Some ([123] @ quoted (ascii ''bytes_in'') @ ascii '':0,'' @ quoted (ascii ''bytes_out'') @ ascii '':0}'') else None)"

definition stub_ffiVersion :: i32 where
  "stub_ffiVersion = C_FFI_VERSION"

section \<open>What the callers can rely on\<close>

lemma start_client_accepted:
  assumes "0 \<le> sint fd"
  shows "\<exists>e'. Engine_start_client fd cfg e = (Inr (), e') \<and> Session_state (e_session e') = Connecting Client 1 \<and>
     t_peer (last (e_tasks e')) = cfg_proxy_addr cfg \<and> length (e_tasks e') = Suc (length (e_tasks e))"
  using assms
  by (cases "ses_state (e_session e)"; cases "e_callback e"; cases "e_receivers e")
    (simp_all add: Engine_start_client_def start_client_actions_def engine_dispatch_def Session_dispatch_def
      Session_state_def Session_force_idle_def notify_def watch_send_def transition_def Let_def)

lemma get_or_init_present: "j_instance j = Some e \<Longrightarrow> get_or_init rt_ok j = (Inr e, j)"
  by (simp add: get_or_init_def Engine_get_def)



text \<open>C37: the C functions that fill a caller's buffer stay inside it. For every buffer and every length
  not beyond it nothing outside is written: either the code for a buffer that is too small comes back
  and the buffer is unchanged, or the text is stored with a terminating zero, its length comes back, and
  the bytes behind are unchanged. Null pointers are refused.\<close>

theorem ffi_buffer_safe:
  assumes "len \<le> length mem" and "length s < 2147483648"
  shows "write_str_to_buf s (Some mem) len =
       (if len \<le> length s then Some (BUFFER_TOO_SMALL, Some mem)
        else Some (word_of_nat (length s), Some (s @ 0 # drop (length s + 1) mem))) \<and>
     (length s < len \<longrightarrow> sint (word_of_nat (length s) :: i32) = int (length s)) \<and>
     write_str_to_buf s None len = Some (BUFFER_TOO_SMALL, None)"
proof -
  have w: "sint (word_of_nat (length s) :: i32) = int (length s)"
    using assms(2) by (simp add: signed_of_nat signed_take_bit_int_eq_self)
  have "(s @ drop (length s) mem)[length s := 0] = s @ 0 # drop (length s + 1) mem" if "length s < length mem"
    using that by (simp add: list_update_append drop_Suc Cons_nth_drop_Suc [symmetric])
  then show ?thesis
    using assms w by (auto simp: write_str_to_buf_def ffi_codes)
qed

theorem ffi_buffer_safe_witness:
  "write_str_to_buf (ascii ''hi'') (Some [1, 2, 3, 4]) 4 = Some (2, Some (ascii ''hi'' @ [0, 4]))"
proof -
  have "length (ascii ''hi'') < 2147483648" and "4 \<le> length [1, 2, 3, 4 :: u8]" by (simp_all add: ascii_def)
  from ffi_buffer_safe [OF this(2,1)] show ?thesis by (simp add: ascii_def)
qed

end
