(* ===== verification/Session_Manager.thy ===== *)
theory Session_Manager
  imports Ffi
begin

text \<open>
  The application's view of the engine: \<open>SessionManager.kt\<close> and \<open>EngineBridge.kt\<close> of the Android
  application, on top of the JNI entry points. Texts are their UTF-8 bytes. The manager's flows are a
  record; its coroutines are lists of atomic actions, so that they interleave with each other, with the
  collector of the engine's events and with the tasks of the engine.
\<close>

section \<open>States of the application\<close>

datatype AppMode = IDLE | CLIENT | SERVER

datatype AppState =
    AppIdle
  | AppPreparing AppMode
  | AppConnecting AppMode int
  | AppConnected AppMode bytes
  | AppReconnecting AppMode int "bytes option"
  | AppStopping AppMode
  | AppFailed AppMode bytes bool

fun AppState_mode :: "AppState \<Rightarrow> AppMode option" where
  "AppState_mode AppIdle = None"
| "AppState_mode (AppPreparing m) = Some m"
| "AppState_mode (AppConnecting m _) = Some m"
| "AppState_mode (AppConnected m _) = Some m"
| "AppState_mode (AppReconnecting m _ _) = Some m"
| "AppState_mode (AppStopping m) = Some m"
| "AppState_mode (AppFailed m _ _) = Some m"

record SessionManager =
  sm_state :: AppState
  sm_mode :: AppMode
  sm_throughput :: int
  sm_clientCount :: int

definition SessionManager_new :: SessionManager where
  "SessionManager_new = \<lparr>sm_state = AppIdle, sm_mode = IDLE, sm_throughput = 0, sm_clientCount = 0\<rparr>"

section \<open>Fields of an event\<close>

text \<open>The two patterns \<open>"key"\s*:\s*"([^"]+)"\<close> and \<open>"key"\s*:\s*(\d+)\<close>. Neither leaves a choice once its
  first character is placed, so a search tries each position from the left.\<close>

fun strip_prefix :: "bytes \<Rightarrow> bytes \<Rightarrow> bytes option" where
  "strip_prefix [] s = Some s"
| "strip_prefix (p # ps) [] = None"
| "strip_prefix (p # ps) (b # bs) = (if p = b then strip_prefix ps bs else None)"

definition regex_space :: "u8 \<Rightarrow> bool" where
  "regex_space b \<longleftrightarrow> b = 32 \<or> 9 \<le> b \<and> b \<le> 13"

definition regex_digit :: "u8 \<Rightarrow> bool" where
  "regex_digit b \<longleftrightarrow> 48 \<le> b \<and> b \<le> 57"

definition after_key :: "bytes \<Rightarrow> bytes \<Rightarrow> bytes option" where
  "after_key key s = do {
     rest \<leftarrow> strip_prefix (quoted key) s;
     rest \<leftarrow> strip_prefix [58] (dropWhile regex_space rest);
     Some (dropWhile regex_space rest) }"

definition string_value :: "bytes \<Rightarrow> bytes \<Rightarrow> bytes option" where
  "string_value key s = do {
     rest \<leftarrow> after_key key s;
     rest \<leftarrow> strip_prefix [34] rest;
     let v = takeWhile (\<lambda>b. b \<noteq> 34) rest;
     if v \<noteq> [] \<and> length v < length rest then Some v else None }"

definition digits_value :: "bytes \<Rightarrow> bytes \<Rightarrow> bytes option" where
  "digits_value key s = do {
     rest \<leftarrow> after_key key s;
     let v = takeWhile regex_digit rest;
     if v \<noteq> [] then Some v else None }"

fun find_first :: "(bytes \<Rightarrow> 'a option) \<Rightarrow> bytes \<Rightarrow> 'a option" where
  "find_first f [] = f []"
| "find_first f (b # bs) = (case f (b # bs) of Some v \<Rightarrow> Some v | None \<Rightarrow> find_first f bs)"

definition extractJsonField :: "bytes \<Rightarrow> bytes \<Rightarrow> bytes option" where
  "extractJsonField json key = find_first (string_value key) json"

definition toLongOrNull :: "bytes \<Rightarrow> int option" where
  "toLongOrNull ds =
     (let n = fold (\<lambda>d acc. acc * 10 + (uint d - 48)) ds 0 in if n < 2 ^ 63 then Some n else None)"

definition extractJsonLong :: "bytes \<Rightarrow> bytes \<Rightarrow> int option" where
  "extractJsonLong json key = do { ds \<leftarrow> find_first (digits_value key) json; toLongOrNull ds }"

definition proxyFromJson :: "bytes \<Rightarrow> bytes" where
  "proxyFromJson json = (case extractJsonField json (ascii ''peer'') of Some s \<Rightarrow> s | None \<Rightarrow> ascii ''unknown'')"

definition errorFromJson :: "bytes \<Rightarrow> bytes" where
  "errorFromJson json = (case extractJsonField json (ascii ''error'') of Some s \<Rightarrow> s | None \<Rightarrow> ascii ''unknown'')"

section \<open>What an event does\<close>

text \<open>What \<open>applyTransition\<close> makes of the state and the mode it has read: the state to write, and
  whether the mode is set to \<open>IDLE\<close> first.\<close>

definition nextState :: "bytes \<Rightarrow> bytes \<Rightarrow> AppState \<Rightarrow> AppMode \<Rightarrow> AppState \<times> bool" where
  "nextState toState json current mode =
     (let m = (case AppState_mode current of Some m \<Rightarrow> m | None \<Rightarrow> mode)
      in if toState = ascii ''Connecting'' then (AppConnecting m 1, False)
         else if toState = ascii ''Connected'' then (AppConnected m (proxyFromJson json), False)
         else if toState = ascii ''Reconnecting'' then (AppReconnecting m 1 None, False)
         else if toState = ascii ''Stopping'' then (AppStopping m, False)
         else if toState = ascii ''Idle'' then (AppIdle, True)
         else if toState = ascii ''Failed'' then (AppFailed m (errorFromJson json) True, False)
         else (current, False))"

definition write_state :: "AppState \<times> bool \<Rightarrow> SessionManager \<Rightarrow> SessionManager" where
  "write_state r s = (case r of (state, idle) \<Rightarrow> s\<lparr>sm_mode := (if idle then IDLE else sm_mode s), sm_state := state\<rparr>)"

definition applyTransition :: "bytes \<Rightarrow> bytes \<Rightarrow> SessionManager \<Rightarrow> SessionManager" where
  "applyTransition toState json s = write_state (nextState toState json (sm_state s) (sm_mode s)) s"

text \<open>The kinds of event the application tells apart.\<close>

datatype engine_event = EvTransition bytes bytes | EvMetrics int | EvOther

definition classify_event :: "bytes \<Rightarrow> engine_event" where
  "classify_event json =
     (case extractJsonField json (ascii ''kind'') of
        None \<Rightarrow> EvOther
      | Some kind \<Rightarrow>
          if kind = ascii ''session.transition'' then
            (case extractJsonField json (ascii ''to'') of None \<Rightarrow> EvOther | Some toState \<Rightarrow> EvTransition toState json)
          else if kind = ascii ''engine.metrics.snapshot'' then
            EvMetrics (case extractJsonLong json (ascii ''bytes_out'') of Some n \<Rightarrow> n | None \<Rightarrow> 0)
          else EvOther)"

definition handleEngineEvent :: "bytes \<Rightarrow> SessionManager \<Rightarrow> SessionManager" where
  "handleEngineEvent json s =
     (case classify_event json of
        EvTransition toState json \<Rightarrow> applyTransition toState json s
      | EvMetrics n \<Rightarrow> s\<lparr>sm_throughput := n\<rparr>
      | EvOther \<Rightarrow> s)"

definition acknowledgeError :: "SessionManager \<Rightarrow> SessionManager" where
  "acknowledgeError s = s\<lparr>sm_state := AppIdle, sm_mode := IDLE\<rparr>"

section \<open>Reading the engine's events\<close>

lemma takeWhile_quote:
  assumes "34 \<notin> set v"
  shows "takeWhile (\<lambda>b :: u8. b \<noteq> 34) (v @ 34 # r) = v"
  using assms by (induction v) auto

lemma dec_no_quote: "34 \<notin> set (dec n)"
proof (induction n rule: dec.induct)
  case (1 n)
  have d: "48 + word_of_nat m \<noteq> (34 :: u8)" if "m < 10" for m
  proof
    assume e: "48 + word_of_nat m = (34 :: u8)"
    have "(48 :: u8) \<le> 34" using digit_byte [OF that] unfolding e by blast
    then show False by simp
  qed
  show ?case using 1 d [of n] d [of "n mod 10"] by (subst dec.simps) auto
qed

lemma hex_no_quote: "34 \<notin> set (hex_nat n)"
proof (induction n rule: hex_nat.induct)
  case (1 n)
  have d: "hex_digit (word_of_nat m) \<noteq> 34" if "m < 16" for m
  proof -
    have "m = 0 \<or> m = 1 \<or> m = 2 \<or> m = 3 \<or> m = 4 \<or> m = 5 \<or> m = 6 \<or> m = 7 \<or>
        m = 8 \<or> m = 9 \<or> m = 10 \<or> m = 11 \<or> m = 12 \<or> m = 13 \<or> m = 14 \<or> m = 15"
      using that by presburger
    then show ?thesis by (elim disjE) (simp_all add: hex_digit_def)
  qed
  show ?case using 1 d [of n] d [of "n mod 16"] by (subst hex_nat.simps) auto
qed

lemma fmt_subslice_no_quote: "34 \<notin> set (fmt_subslice xs)"
  by (cases xs) (auto simp: hex_no_quote)

lemma show_ipv4_no_quote: "34 \<notin> set (show_ipv4 ip)"
  by (cases ip) (simp add: show_ipv4_def dec_no_quote)

lemma show_ipv6_no_quote: "34 \<notin> set (show_ipv6 ip)"
  by (cases ip) (auto simp: show_ipv6_def Let_def ascii_def show_ipv4_no_quote fmt_subslice_no_quote split: list.splits prod.splits)

lemma show_addr_no_quote: "34 \<notin> set (show_addr a) \<and> show_addr a \<noteq> []"
  using show_ipv6_no_quote by (auto simp: show_addr_def dec_no_quote show_ipv4_no_quote split: IpAddr.splits)

text \<open>The fields of a transition event, found behind the text before them.\<close>

lemmas json_search = extractJsonField_def string_value_def after_key_def transition_json_def quoted_def ascii_def
  regex_space_def takeWhile_quote

lemma transition_kind: "extractJsonField (transition_json t extra) (ascii ''kind'') = Some (ascii ''session.transition'')"
  by (simp add: json_search)

lemma transition_to:
  assumes "34 \<notin> set t" and "t \<noteq> []"
  shows "extractJsonField (transition_json t extra) (ascii ''to'') = Some t"
  using assms by (simp add: json_search)

lemma transition_peer:
  assumes "34 \<notin> set v" and "v \<noteq> []"
  shows "extractJsonField (transition_json (ascii ''Connected'') [(ascii ''peer'', v)]) (ascii ''peer'') = Some v"
  using assms by (simp add: json_search)

lemma transition_error:
  assumes "34 \<notin> set v" and "v \<noteq> []"
  shows "extractJsonField (transition_json (ascii ''Failed'') [(ascii ''error'', v)]) (ascii ''error'') = Some v"
  using assms by (simp add: json_search)

lemma show_failure_no_quote: "34 \<notin> set (show_failure k) \<and> show_failure k \<noteq> []"
  by (cases k) (simp_all add: ascii_def)

text \<open>The state the application is meant to show for a state of the engine.\<close>

fun app_view :: "AppMode \<Rightarrow> SessionState \<Rightarrow> AppState" where
  "app_view m Idle = AppIdle"
| "app_view m (Preparing _) = AppPreparing m"
| "app_view m (Connecting _ _) = AppConnecting m 1"
| "app_view m (Connected _ peer) = AppConnected m (show_addr (proxy_addr peer))"
| "app_view m (Reconnecting _ _ _) = AppReconnecting m 1 None"
| "app_view m (Stopping _ _) = AppStopping m"
| "app_view m (Failed _ error _) = AppFailed m (show_failure error) True"

definition current_mode :: "SessionManager \<Rightarrow> AppMode" where
  "current_mode s = (case AppState_mode (sm_state s) of Some m \<Rightarrow> m | None \<Rightarrow> sm_mode s)"

fun is_preparing :: "SessionState \<Rightarrow> bool" where
  "is_preparing (Preparing _) \<longleftrightarrow> True"
| "is_preparing _ \<longleftrightarrow> False"

lemma nextState_names:
  "nextState (ascii ''Idle'') json c m = (AppIdle, True)"
  "nextState (ascii ''Preparing'') json c m = (c, False)"
  "nextState (ascii ''Connecting'') json c m = (AppConnecting (case AppState_mode c of Some m \<Rightarrow> m | None \<Rightarrow> m) 1, False)"
  "nextState (ascii ''Connected'') json c m =
     (AppConnected (case AppState_mode c of Some m \<Rightarrow> m | None \<Rightarrow> m) (proxyFromJson json), False)"
  "nextState (ascii ''Reconnecting'') json c m =
     (AppReconnecting (case AppState_mode c of Some m \<Rightarrow> m | None \<Rightarrow> m) 1 None, False)"
  "nextState (ascii ''Stopping'') json c m = (AppStopping (case AppState_mode c of Some m \<Rightarrow> m | None \<Rightarrow> m), False)"
  "nextState (ascii ''Failed'') json c m =
     (AppFailed (case AppState_mode c of Some m \<Rightarrow> m | None \<Rightarrow> m) (errorFromJson json) True, False)"
  by (simp_all add: nextState_def ascii_def Let_def)

lemma classify_transition:
  "classify_event (session_state_to_json st) =
     EvTransition (case st of Idle \<Rightarrow> ascii ''Idle'' | Preparing _ \<Rightarrow> ascii ''Preparing'' | Connecting _ _ \<Rightarrow> ascii ''Connecting''
       | Connected _ _ \<Rightarrow> ascii ''Connected'' | Reconnecting _ _ _ \<Rightarrow> ascii ''Reconnecting''
       | Stopping _ _ \<Rightarrow> ascii ''Stopping'' | Failed _ _ _ \<Rightarrow> ascii ''Failed'') (session_state_to_json st)"
proof -
  have "classify_event (transition_json t extra) = EvTransition t (transition_json t extra)"
    if "34 \<notin> set t" and "t \<noteq> []" for t extra
    using that by (simp add: classify_event_def transition_kind transition_to)
  then show ?thesis by (cases st) (simp_all add: ascii_def)
qed

lemma handle_transition:
  "handleEngineEvent (session_state_to_json st) s =
     (if is_preparing st then s
      else s\<lparr>sm_state := app_view (current_mode s) st, sm_mode := (if st = Idle then IDLE else sm_mode s)\<rparr>)"
  unfolding handleEngineEvent_def classify_transition
  by (cases st)
    (simp_all add: applyTransition_def write_state_def nextState_names current_mode_def proxyFromJson_def errorFromJson_def
      transition_peer transition_error show_addr_no_quote show_failure_no_quote)

declare session_state_to_json.simps [simp del]

section \<open>The application follows the engine\<close>

lemma app_view_mode: "st \<noteq> Idle \<Longrightarrow> AppState_mode (app_view m st) = Some m"
  by (cases st) simp_all

lemma current_mode_kept:
  "st \<noteq> Idle \<Longrightarrow> current_mode (handleEngineEvent (session_state_to_json st) s) = current_mode s"
  by (simp add: handle_transition) (simp add: current_mode_def app_view_mode)

lemma current_mode_kept_all:
  "Idle \<notin> set sts \<Longrightarrow> current_mode (fold (\<lambda>st. handleEngineEvent (session_state_to_json st)) sts s) = current_mode s"
  by (induction sts arbitrary: s) (auto simp: current_mode_kept)

text \<open>C15: the application reads every transition event of the engine right and so follows it. The JSON is
  searched with regular expressions, not parsed; still, for every sequence of transitions the engine
  reports in order, in one session, the application ends up showing the last one: the same kind of
  state, in the mode it was started in, with the address of the proxy as the engine printed it (of
  either IP version) and the name of the failure. Only \<open>Preparing\<close> is passed over, and a failure is
  always shown as recoverable.\<close>

theorem app_follows_engine:
  assumes "\<not> is_preparing st" and "Idle \<notin> set sts"
  shows "sm_state (fold (\<lambda>st. handleEngineEvent (session_state_to_json st)) (sts @ [st]) s) =
     app_view (current_mode s) st"
  using assms current_mode_kept_all [OF assms(2), of s] by (simp add: handle_transition)

theorem app_follows_engine_witness:
  "sm_state (fold (\<lambda>st. handleEngineEvent (session_state_to_json st))
       ([Preparing Client, Connecting Client 1] @ [Connected Client (PeerInfo (SocketAddr (V6 (Ipv6Addr 0xFE800000 0 0 1)) 1080))])
       \<lparr>sm_state = AppPreparing CLIENT, sm_mode = CLIENT, sm_throughput = 0, sm_clientCount = 0\<rparr>) =
     AppConnected CLIENT (ascii ''[fe80::1]:1080'')"
proof -
  let ?st = "Connected Client (PeerInfo (SocketAddr (V6 (Ipv6Addr 0xFE800000 0 0 1)) 1080))"
  have a: "\<not> is_preparing ?st" "Idle \<notin> set [Preparing Client, Connecting Client 1]" by simp_all
  have "show_addr (SocketAddr (V6 (Ipv6Addr 0xFE800000 0 0 1)) 1080) = ascii ''[fe80::1]:1080''"
    by (simp add: show_addr_def show_ipv6_def ipv6_segments_def Let_def ascii_def hex_nat.simps hex_digit_def dec.simps)
  then show ?thesis using app_follows_engine [OF a, of "\<lparr>sm_state = AppPreparing CLIENT, sm_mode = CLIENT, sm_throughput = 0, sm_clientCount = 0\<rparr>"]
    by (simp add: current_mode_def)
qed

end
