(* ===== verification/App_Engine.thy ===== *)
theory App_Engine
  imports Session_Manager
begin

text \<open>
  The application and the engine together. \<open>startClient\<close>, \<open>startServer\<close> and \<open>stop\<close> of
  \<open>SessionManager.kt\<close> launch coroutines on a thread pool; the engine's callback launches one per event;
  a collector reads the events one by one. Here each of these is cut at the points where another thread
  can act in between, and a run is any sequence of such steps and of steps of the engine's tasks.
\<close>

section \<open>Coroutines\<close>

text \<open>\<open>Int\<close> as text.\<close>

definition show_int :: "int \<Rightarrow> bytes" where
  "show_int n = (if n < 0 then 45 # dec (nat (- n)) else dec (nat n))"

text \<open>The configurations as \<open>trimIndent\<close> leaves them, for values without line breaks.\<close>

definition config_text :: "(string \<times> bytes) list \<Rightarrow> bytes" where
  "config_text fs =
     [123, 10] @
     (case map (\<lambda>(k, v). ascii ''  '' @ quoted (ascii k) @ ascii '': '' @ v) fs of
        [] \<Rightarrow> [] | x # xs \<Rightarrow> x @ concat (map (\<lambda>y. [44, 10] @ y) xs)) @ [10, 125]"

definition client_config :: "bytes \<Rightarrow> int \<Rightarrow> bytes \<Rightarrow> bytes" where
  "client_config proxyAddr mtu dnsServer =
     config_text [(''mode'', quoted (ascii ''Client'')), (''proxy_addr'', quoted proxyAddr), (''mtu'', show_int mtu),
       (''dns_server'', quoted dnsServer)]"

definition server_config :: "bytes \<Rightarrow> bytes \<Rightarrow> bytes" where
  "server_config socksAddr httpAddr =
     config_text [(''mode'', quoted (ascii ''Server'')), (''socks_bind'', quoted socksAddr), (''http_bind'', quoted httpAddr)]"

text \<open>What is left of a coroutine: the emission of an event, or a call from its next write on.\<close>

datatype coroutine =
    CoEmit bytes
  | ClientMode i32 bytes | ClientPreparing i32 bytes | ClientCall i32 bytes | ClientResult i32
  | ServerMode bytes bytes | ServerPreparing bytes bytes | ServerCall bytes bytes | ServerResult i32 bytes
  | StopMark | StopCall | StopIdle | StopMode

text \<open>The manager, the native side, the coroutines, the buffer of the event flow and whether its collector
  has subscribed, and what the collector is about to write.\<close>

record app =
  ap_mgr :: SessionManager
  ap_jni :: "unit jni"
  ap_cos :: "coroutine list"
  ap_subscribed :: bool
  ap_buffer :: "bytes list"
  ap_applying :: "(AppState \<times> bool) option"

definition delivered :: "unit jni \<Rightarrow> bytes list" where
  "delivered j = (case j_instance j of None \<Rightarrow> [] | Some e \<Rightarrow> map snd (e_delivered e))"

text \<open>A native operation: for each event the engine delivers meanwhile, the registered callback launches
  a coroutine that emits it.\<close>

definition native :: "(unit jni \<Rightarrow> 'r \<times> unit jni) \<Rightarrow> app \<Rightarrow> 'r \<times> app" where
  "native f a =
     (case f (ap_jni a) of (r, j) \<Rightarrow>
        (r, a\<lparr>ap_jni := j,
              ap_cos := ap_cos a @ (if j_jvm j \<and> j_callback j \<noteq> None
                then map CoEmit (drop (length (delivered (ap_jni a))) (delivered j)) else [])\<rparr>))"

definition set_state :: "AppState \<Rightarrow> app \<Rightarrow> app" where
  "set_state st a = a\<lparr>ap_mgr := (ap_mgr a)\<lparr>sm_state := st\<rparr>\<rparr>"

definition set_mode :: "AppMode \<Rightarrow> app \<Rightarrow> app" where
  "set_mode m a = a\<lparr>ap_mgr := (ap_mgr a)\<lparr>sm_mode := m\<rparr>\<rparr>"

definition engine_error :: "i32 \<Rightarrow> bytes" where
  "engine_error r = ascii ''Engine error '' @ show_int (sint r)"

text \<open>The mode \<open>stop\<close> shows while it waits.\<close>

definition stop_mode :: "SessionManager \<Rightarrow> AppMode" where
  "stop_mode s =
     (case sm_state s of AppConnected m _ \<Rightarrow> m | AppConnecting m _ \<Rightarrow> m | AppReconnecting m _ _ \<Rightarrow> m | _ \<Rightarrow> sm_mode s)"

text \<open>One step of a coroutine: what is left of it and the new state. \<open>emit\<close> drops the event when nobody
  has subscribed and suspends while the buffer of 64 is full (\<open>None\<close>).\<close>

fun co_step :: "(bytes \<Rightarrow> EngineConfig option) \<Rightarrow> bool \<Rightarrow> coroutine \<Rightarrow> app \<Rightarrow> (coroutine list \<times> app) option" where
  "co_step from_str rt (CoEmit json) a =
     (if \<not> ap_subscribed a then Some ([], a)
      else if length (ap_buffer a) < 64 then Some ([], a\<lparr>ap_buffer := ap_buffer a @ [json]\<rparr>) else None)"
| "co_step from_str rt (ClientMode fd config) a = Some ([ClientPreparing fd config], set_mode CLIENT a)"
| "co_step from_str rt (ClientPreparing fd config) a = Some ([ClientCall fd config], set_state (AppPreparing CLIENT) a)"
| "co_step from_str rt (ClientCall fd config) a =
     (case native (jni_startClient from_str rt fd (Some config)) a of (r, a) \<Rightarrow> Some ([ClientResult r], a))"
| "co_step from_str rt (ClientResult r) a =
     Some ([], set_state (if r \<noteq> 0 then AppFailed CLIENT (engine_error r) False else AppConnecting CLIENT 1) a)"
| "co_step from_str rt (ServerMode socks http) a = Some ([ServerPreparing socks http], set_mode SERVER a)"
| "co_step from_str rt (ServerPreparing socks http) a = Some ([ServerCall socks http], set_state (AppPreparing SERVER) a)"
| "co_step from_str rt (ServerCall socks http) a =
     (case native (jni_startServer from_str rt (Some (server_config socks http))) a of
        (r, a) \<Rightarrow> Some ([ServerResult r socks], a))"
| "co_step from_str rt (ServerResult r socks) a =
     Some ([], set_state (if r \<noteq> 0 then AppFailed SERVER (engine_error r) False else AppConnected SERVER socks) a)"
| "co_step from_str rt StopMark a = Some ([StopCall], set_state (AppStopping (stop_mode (ap_mgr a))) a)"
| "co_step from_str rt StopCall a = (case native jni_stop a of (_, a) \<Rightarrow> Some ([StopIdle], a))"
| "co_step from_str rt StopIdle a = Some ([StopMode], set_state AppIdle a)"
| "co_step from_str rt StopMode a = Some ([], set_mode IDLE a)"

section \<open>Runs\<close>

definition launch :: "coroutine \<Rightarrow> app \<Rightarrow> app" where
  "launch co a = a\<lparr>ap_cos := ap_cos a @ [co]\<rparr>"

definition SessionManager_startClient :: "i32 \<Rightarrow> bytes \<Rightarrow> int \<Rightarrow> bytes \<Rightarrow> app \<Rightarrow> app" where
  "SessionManager_startClient tunFd proxyAddr mtu dnsServer = launch (ClientMode tunFd (client_config proxyAddr mtu dnsServer))"

definition SessionManager_startServer :: "bytes \<Rightarrow> bytes \<Rightarrow> app \<Rightarrow> app" where
  "SessionManager_startServer socksAddr httpAddr = launch (ServerMode socksAddr httpAddr)"

definition SessionManager_stop :: "app \<Rightarrow> app" where
  "SessionManager_stop = launch StopMark"

text \<open>The collector reads the state and decides, then writes.\<close>

definition collect :: "app \<Rightarrow> app option" where
  "collect a =
     (case (ap_applying a, ap_buffer a) of
        (None, json # rest) \<Rightarrow>
          let a = a\<lparr>ap_buffer := rest\<rparr>
          in (case classify_event json of
                EvTransition toState json \<Rightarrow>
                  Some (a\<lparr>ap_applying := Some (nextState toState json (sm_state (ap_mgr a)) (sm_mode (ap_mgr a)))\<rparr>)
              | EvMetrics n \<Rightarrow> Some (a\<lparr>ap_mgr := (ap_mgr a)\<lparr>sm_throughput := n\<rparr>\<rparr>)
              | EvOther \<Rightarrow> Some a)
      | _ \<Rightarrow> None)"

definition apply_collected :: "app \<Rightarrow> app option" where
  "apply_collected a =
     (case ap_applying a of
        None \<Rightarrow> None
      | Some r \<Rightarrow> Some (a\<lparr>ap_mgr := write_state r (ap_mgr a), ap_applying := None\<rparr>))"

datatype app_event =
    Subscribed
  | UiStartClient i32 bytes int bytes
  | UiStartServer bytes bytes
  | UiStop
  | UiAcknowledge
  | RunCo nat
  | Collect
  | WriteState
  | TaskBegin nat bool
  | TaskEnd nat bool

text \<open>One step of the whole system; \<open>None\<close> is a step that is not possible.\<close>

definition run_co :: "(bytes \<Rightarrow> EngineConfig option) \<Rightarrow> bool \<Rightarrow> nat \<Rightarrow> app \<Rightarrow> app option" where
  "run_co from_str rt i a =
     (if i < length (ap_cos a) then do {
        (left, b) \<leftarrow> co_step from_str rt (ap_cos a ! i) (a\<lparr>ap_cos := take i (ap_cos a) @ drop (Suc i) (ap_cos a)\<rparr>);
        Some (b\<lparr>ap_cos := left @ ap_cos b\<rparr>) }
      else None)"

definition run_task ::
  "nat \<Rightarrow> (native_callback engine \<Rightarrow> bool) \<Rightarrow> (native_callback engine \<Rightarrow> native_callback engine) \<Rightarrow> app \<Rightarrow> app option" where
  "run_task i may step a =
     (case j_instance (ap_jni a) of
        None \<Rightarrow> None
      | Some e \<Rightarrow>
          if i < length (e_tasks e) \<and> may e then Some (snd (native (\<lambda>j. ((), j\<lparr>j_instance := Some (step e)\<rparr>)) a))
          else None)"

fun app_step :: "(bytes \<Rightarrow> EngineConfig option) \<Rightarrow> bool \<Rightarrow> app_event \<Rightarrow> app \<Rightarrow> app option" where
  "app_step from_str rt Subscribed a = Some (a\<lparr>ap_subscribed := True\<rparr>)"
| "app_step from_str rt (UiStartClient fd proxy mtu dns) a = Some (SessionManager_startClient fd proxy mtu dns a)"
| "app_step from_str rt (UiStartServer socks http) a = Some (SessionManager_startServer socks http a)"
| "app_step from_str rt UiStop a = Some (SessionManager_stop a)"
| "app_step from_str rt UiAcknowledge a = Some (a\<lparr>ap_mgr := acknowledgeError (ap_mgr a)\<rparr>)"
| "app_step from_str rt (RunCo i) a = run_co from_str rt i a"
| "app_step from_str rt Collect a = collect a"
| "app_step from_str rt WriteState a = apply_collected a"
| "app_step from_str rt (TaskBegin i tun_ok) a = run_task i (\<lambda>e. t_phase (e_tasks e ! i) = Spawned) (task_begin i tun_ok) a"
| "app_step from_str rt (TaskEnd i loop_over) a = run_task i (task_may_end loop_over i) (task_end i) a"

fun app_run :: "(bytes \<Rightarrow> EngineConfig option) \<Rightarrow> bool \<Rightarrow> app_event list \<Rightarrow> app \<Rightarrow> app option" where
  "app_run from_str rt [] a = Some a"
| "app_run from_str rt (ev # evs) a = do { a \<leftarrow> app_step from_str rt ev a; app_run from_str rt evs a }"

text \<open>The application after the constructor of the manager: the callback is registered, the collector
  not yet running.\<close>

definition app_init :: app where
  "app_init =
     \<lparr>ap_mgr = SessionManager_new,
      ap_jni = snd (jni_setEventCallback True True (Some ()) \<lparr>j_instance = None, j_jvm = False, j_callback = None, j_fired = []\<rparr>),
      ap_cos = [], ap_subscribed = False, ap_buffer = [], ap_applying = None\<rparr>"

lemma app_run_append:
  "app_run f rt (xs @ ys) a = (case app_run f rt xs a of None \<Rightarrow> None | Some b \<Rightarrow> app_run f rt ys b)"
  by (induction xs arbitrary: a) (auto split: bind_splits)

section \<open>Events reach the application\<close>

text \<open>The application between two events: the collector waits, the callback is registered, and the engine
  is \<open>e\<close>.\<close>

definition app_ready :: "native_callback engine \<Rightarrow> app \<Rightarrow> bool" where
  "app_ready e a \<longleftrightarrow> ap_subscribed a \<and> ap_buffer a = [] \<and> ap_applying a = None \<and> j_jvm (ap_jni a) \<and>
     j_callback (ap_jni a) \<noteq> None \<and> j_instance (ap_jni a) = Some e"

definition emits :: "SessionState list \<Rightarrow> coroutine list" where
  "emits sts = map (\<lambda>st. CoEmit (session_state_to_json st)) sts"

text \<open>The event at position \<open>i\<close> is emitted, collected and applied.\<close>

definition deliver_event :: "nat \<Rightarrow> app_event list" where
  "deliver_event i = [RunCo i, Collect, WriteState]"

definition with_engine :: "native_callback engine \<Rightarrow> SessionState list \<Rightarrow> app \<Rightarrow> app" where
  "with_engine e sts a = a\<lparr>ap_jni := (ap_jni a)\<lparr>j_instance := Some e\<rparr>, ap_cos := ap_cos a @ emits sts\<rparr>"

lemma deliver_runs:
  assumes "app_ready e a" and "ap_cos a = xs @ CoEmit (session_state_to_json st) # ys" and "length xs = i"
  shows "app_run f rt (deliver_event i) a =
     Some (a\<lparr>ap_cos := xs @ ys, ap_mgr := handleEngineEvent (session_state_to_json st) (ap_mgr a)\<rparr>)"
  using assms
  by (simp add: deliver_event_def app_ready_def run_co_def collect_def apply_collected_def handleEngineEvent_def
      classify_transition applyTransition_def nth_append Let_def)

lemma deliver_ready:
  "app_ready e a \<Longrightarrow> app_ready e (a\<lparr>ap_cos := cs, ap_mgr := m\<rparr>)"
  by (simp add: app_ready_def)

lemma native_engine:
  assumes "app_ready e a" and "f (ap_jni a) = (r, (ap_jni a)\<lparr>j_instance := Some e'\<rparr>)"
    and "e_delivered e' = e_delivered e @ map (\<lambda>st. (cb, session_state_to_json st)) sts"
  shows "native f a = (r, with_engine e' sts a)"
  using assms by (simp add: native_def app_ready_def delivered_def with_engine_def emits_def)

lemma with_engine_ready: "app_ready e a \<Longrightarrow> app_ready e' (with_engine e' sts a)"
  by (simp add: app_ready_def with_engine_def)

lemma with_engine_frame [simp]:
  "ap_cos (with_engine e sts a) = ap_cos a @ emits sts" "ap_mgr (with_engine e sts a) = ap_mgr a"
  "j_instance (ap_jni (with_engine e sts a)) = Some e"
  by (simp_all add: with_engine_def)

text \<open>The configuration a client runs with: the one read from the text, or the default.\<close>

definition effective_config :: "(bytes \<Rightarrow> EngineConfig option) \<Rightarrow> bytes \<Rightarrow> ClientConfig" where
  "effective_config from_str text = (case from_str text of Some (ClientCfg c) \<Rightarrow> c | _ \<Rightarrow> ClientConfig_default)"

lemma jni_start_eq:
  assumes "j_instance j = Some e" and "0 \<le> sint fd"
    and "Engine_start_client fd (effective_config from_str config) e = (Inr (), e1)"
  shows "jni_startClient from_str rt fd (Some config) j = (0, j\<lparr>j_instance := Some e1\<rparr>)"
  using assms get_or_init_present [of j e rt]
  by (simp add: jni_startClient_def ffi_catch_def effective_config_def start_code_def OK_def Let_def)

text \<open>\<open>startClient\<close> up to the result of the native call: the coroutine still has to write the state.\<close>

lemma start_call_runs:
  assumes "app_ready e a" and "ap_cos a = []" and "0 \<le> sint fd"
    and "Engine_start_client fd (effective_config from_str (client_config proxy mtu dns)) e = (Inr (), e1)"
    and "e_delivered e1 = e_delivered e @ map (\<lambda>st. (fire_jvm_event, session_state_to_json st)) sts"
  shows "app_run from_str rt [UiStartClient fd proxy mtu dns, RunCo 0, RunCo 0, RunCo 0] a =
     Some (with_engine e1 [] (a\<lparr>ap_mgr := (ap_mgr a)\<lparr>sm_mode := CLIENT, sm_state := AppPreparing CLIENT\<rparr>,
       ap_cos := ClientResult 0 # emits sts\<rparr>))"
proof -
  let ?text = "client_config proxy mtu dns"
  let ?a = "a\<lparr>ap_mgr := (ap_mgr a)\<lparr>sm_mode := CLIENT, sm_state := AppPreparing CLIENT\<rparr>, ap_cos := []\<rparr>"
  have r: "app_ready e ?a" using assms(1) by (simp add: app_ready_def)
  have j: "jni_startClient from_str rt fd (Some ?text) (ap_jni ?a) = (0, (ap_jni ?a)\<lparr>j_instance := Some e1\<rparr>)"
    using assms(1) by (intro jni_start_eq [OF _ assms(3,4)]) (simp add: app_ready_def)
  have "native (jni_startClient from_str rt fd (Some ?text)) ?a = (0, with_engine e1 sts ?a)"
    by (rule native_engine [OF r, where f = "jni_startClient from_str rt fd (Some ?text)" and sts = sts, OF j assms(5)])
  then show ?thesis
    using assms(2) by (simp add: SessionManager_startClient_def launch_def run_co_def set_mode_def set_state_def
        with_engine_def emits_def)
qed

lemma start_call:
  assumes "app_ready e a" and "ap_cos a = []" and "at_rest e" and "e_callback e = Some fire_jvm_event" and "0 \<le> sint fd"
  obtains e1 where
    "app_run from_str rt [UiStartClient fd proxy mtu dns, RunCo 0, RunCo 0, RunCo 0] a =
       Some (with_engine e1 [] (a\<lparr>ap_mgr := (ap_mgr a)\<lparr>sm_mode := CLIENT, sm_state := AppPreparing CLIENT\<rparr>,
         ap_cos := ClientResult 0 # emits [Preparing Client, Connecting Client 1]\<rparr>))"
    and "client_run fire_jvm_event fd (effective_config from_str (client_config proxy mtu dns)) (e_version e) (e_version e)
       (Connecting Client 1) Spawned
       (e_delivered e @ map (\<lambda>st. (fire_jvm_event, session_state_to_json st)) [Preparing Client, Connecting Client 1]) e1"
proof -
  let ?text = "client_config proxy mtu dns"
  obtain e1 where e1: "Engine_start_client fd (effective_config from_str ?text) e = (Inr (), e1)"
    and run: "client_run fire_jvm_event fd (effective_config from_str ?text) (e_version e) (e_version e)
       (Connecting Client 1) Spawned
       (e_delivered e @ map (\<lambda>st. (fire_jvm_event, session_state_to_json st)) [Preparing Client, Connecting Client 1]) e1"
    using start_client_runs [OF assms(5,3,4)] by blast
  have d: "e_delivered e1 = e_delivered e @ map (\<lambda>st. (fire_jvm_event, session_state_to_json st)) [Preparing Client, Connecting Client 1]"
    using run by (simp add: client_run_def)
  show thesis by (rule that [OF start_call_runs [OF assms(1,2,5) e1 d] run])
qed

lemma begin_step:
  assumes "app_ready e a" and "client_run fire_jvm_event fd cfg v v (Connecting Client 1) Spawned log e"
    and "576 \<le> cfg_mtu cfg" and "cfg_mtu cfg \<le> 9000"
  shows "app_step f rt (TaskBegin 0 True) a =
     Some (with_engine (task_begin 0 True e) [Connected Client (PeerInfo (cfg_proxy_addr cfg))] a)"
proof -
  let ?f = "\<lambda>j. ((), j\<lparr>j_instance := Some (task_begin 0 True e)\<rparr>)"
  have "e_delivered (task_begin 0 True e) = e_delivered e @
      map (\<lambda>st. (fire_jvm_event, session_state_to_json st)) [Connected Client (PeerInfo (cfg_proxy_addr cfg))]"
    using begin_connects(1) [OF assms(2-4)] assms(2) by (simp add: client_run_def)
  from native_engine [OF assms(1), where f = ?f and sts = "[Connected Client (PeerInfo (cfg_proxy_addr cfg))]", OF refl this]
  have "native ?f a = ((), with_engine (task_begin 0 True e) [Connected Client (PeerInfo (cfg_proxy_addr cfg))] a)" .
  then show ?thesis using assms(1,2) by (simp add: run_task_def app_ready_def client_run_def)
qed

lemma stop_runs:
  assumes "app_ready e a" and "ap_cos a = []" and "Engine_stop e = (r, e')"
    and "e_delivered e' = e_delivered e @ map (\<lambda>st. (fire_jvm_event, session_state_to_json st)) sts"
  shows "app_run f rt [UiStop, RunCo 0, RunCo 0, RunCo 0, RunCo 0] a =
     Some (with_engine e' sts (a\<lparr>ap_mgr := (ap_mgr a)\<lparr>sm_state := AppIdle, sm_mode := IDLE\<rparr>\<rparr>))"
proof -
  let ?a = "a\<lparr>ap_mgr := (ap_mgr a)\<lparr>sm_state := AppStopping (stop_mode (ap_mgr a))\<rparr>, ap_cos := []\<rparr>"
  have r: "app_ready e ?a" using assms(1) by (simp add: app_ready_def set_state_def)
  obtain c where "jni_stop (ap_jni ?a) = (c, (ap_jni ?a)\<lparr>j_instance := Some e'\<rparr>)"
    using r assms(3) by (cases r) (simp_all add: jni_stop_def ffi_catch_def Engine_get_def app_ready_def)
  from native_engine [OF r, where f = jni_stop and sts = sts, OF this assms(4)]
  have "native jni_stop ?a = (c, with_engine e' sts ?a)" .
  then show ?thesis
    using assms(2) by (simp add: SessionManager_stop_def launch_def run_co_def set_mode_def set_state_def with_engine_def)
qed

lemma end_step:
  assumes "app_ready e a" and "client_run fire_jvm_event fd cfg v (Suc v) (Stopping Client StopUserRequest) Running log e"
  shows "app_step f rt (TaskEnd 0 False) a = Some (with_engine (task_end 0 e) [Idle] a)"
proof -
  let ?f = "\<lambda>j. ((), j\<lparr>j_instance := Some (task_end 0 e)\<rparr>)"
  have d: "e_delivered (task_end 0 e) = e_delivered e @ map (\<lambda>st. (fire_jvm_event, session_state_to_json st)) [Idle]"
    using end_idles [OF assms(2)] assms(2) by (simp add: client_run_def)
  from native_engine [OF assms(1), where f = ?f and sts = "[Idle]", OF refl d]
  have "native ?f a = ((), with_engine (task_end 0 e) [Idle] a)" .
  moreover have "task_may_end False 0 e" using task_waits_for_signal [OF assms(2)] by simp
  ultimately show ?thesis using assms by (simp add: run_task_def app_ready_def client_run_def)
qed

section \<open>Sessions seen from the application\<close>

definition engine_shows :: "app \<Rightarrow> SessionState \<Rightarrow> bool" where
  "engine_shows a st \<longleftrightarrow> (\<exists>e. j_instance (ap_jni a) = Some e \<and> Session_state (e_session e) = st)"

text \<open>Nothing is under way: no coroutine, no event, and no task of the engine that could begin.\<close>

definition quiescent :: "app \<Rightarrow> bool" where
  "quiescent a \<longleftrightarrow> ap_cos a = [] \<and> ap_buffer a = [] \<and> ap_applying a = None \<and>
     (\<forall>e. j_instance (ap_jni a) = Some e \<longrightarrow>
        (\<forall>i < length (e_tasks e). t_phase (e_tasks e ! i) \<noteq> Spawned \<and> \<not> task_may_end False i e))"

text \<open>The application starts a client and each event is shown before the next step; later it stops it.\<close>

definition connect_run :: "i32 \<Rightarrow> bytes \<Rightarrow> int \<Rightarrow> bytes \<Rightarrow> app_event list" where
  "connect_run fd proxy mtu dns =
     [UiStartClient fd proxy mtu dns, RunCo 0, RunCo 0, RunCo 0] @ [RunCo 0] @ deliver_event 0 @ deliver_event 0"

definition disconnect_run :: "app_event list" where
  "disconnect_run = [UiStop, RunCo 0, RunCo 0, RunCo 0, RunCo 0] @ deliver_event 0 @ [TaskEnd 0 False] @ deliver_event 0"

lemma connect_runs:
  assumes "app_ready e a" and "ap_cos a = []" and "at_rest e" and "e_callback e = Some fire_jvm_event" and "0 \<le> sint fd"
  obtains e1 b where "app_run from_str rt (connect_run fd proxy mtu dns) a = Some b" and "app_ready e1 b" and "ap_cos b = []"
    and "sm_state (ap_mgr b) = AppConnecting CLIENT 1" and "sm_mode (ap_mgr b) = CLIENT"
    and "client_run fire_jvm_event fd (effective_config from_str (client_config proxy mtu dns)) (e_version e) (e_version e)
       (Connecting Client 1) Spawned
       (e_delivered e @ map (\<lambda>st. (fire_jvm_event, session_state_to_json st)) [Preparing Client, Connecting Client 1]) e1"
proof -
  obtain e1 where start: "app_run from_str rt [UiStartClient fd proxy mtu dns, RunCo 0, RunCo 0, RunCo 0] a =
       Some (with_engine e1 [] (a\<lparr>ap_mgr := (ap_mgr a)\<lparr>sm_mode := CLIENT, sm_state := AppPreparing CLIENT\<rparr>,
         ap_cos := ClientResult 0 # emits [Preparing Client, Connecting Client 1]\<rparr>))"
    and run: "client_run fire_jvm_event fd (effective_config from_str (client_config proxy mtu dns)) (e_version e) (e_version e)
       (Connecting Client 1) Spawned
       (e_delivered e @ map (\<lambda>st. (fire_jvm_event, session_state_to_json st)) [Preparing Client, Connecting Client 1]) e1"
    by (rule start_call [OF assms])
  let ?m = "(ap_mgr a)\<lparr>sm_mode := CLIENT, sm_state := AppConnecting CLIENT 1\<rparr>"
  let ?a = "\<lambda>cs. with_engine e1 [] (a\<lparr>ap_mgr := ?m, ap_cos := cs\<rparr>)"
  have r: "app_ready e1 (?a cs)" for cs using assms(1) by (simp add: app_ready_def with_engine_def)
  have h: "handleEngineEvent (session_state_to_json (Preparing Client)) ?m = ?m"
    "handleEngineEvent (session_state_to_json (Connecting Client 1)) ?m = ?m"
    by (simp_all add: handle_transition current_mode_def)
  have d1: "app_run from_str rt (deliver_event 0) (?a (emits [Preparing Client, Connecting Client 1])) = Some (?a (emits [Connecting Client 1]))"
    using deliver_runs [OF r, of "emits [Preparing Client, Connecting Client 1]" "[]" "Preparing Client" "emits [Connecting Client 1]"] h(1)
    by (simp add: emits_def with_engine_def)
  have d2: "app_run from_str rt (deliver_event 0) (?a (emits [Connecting Client 1])) = Some (?a [])"
    using deliver_runs [OF r, of "emits [Connecting Client 1]" "[]" "Connecting Client 1" "[]"] h(2)
    by (simp add: emits_def with_engine_def)
  have w: "app_run from_str rt [RunCo 0] (with_engine e1 [] (a\<lparr>ap_mgr := (ap_mgr a)\<lparr>sm_mode := CLIENT, sm_state := AppPreparing CLIENT\<rparr>,
         ap_cos := ClientResult 0 # emits [Preparing Client, Connecting Client 1]\<rparr>)) =
      Some (?a (emits [Preparing Client, Connecting Client 1]))"
    by (simp add: run_co_def with_engine_def set_state_def)
  have "app_run from_str rt (connect_run fd proxy mtu dns) a = Some (?a [])"
    unfolding connect_run_def app_run_append start option.case w d1 d2 ..
  then show thesis by (rule that [OF _ r _ _ _ run]) (simp_all add: with_engine_def emits_def)
qed

text \<open>The client task comes up and its event is shown.\<close>

lemma begin_shown:
  assumes "app_ready e a" and "ap_cos a = []"
    and "client_run fire_jvm_event fd cfg v v (Connecting Client 1) Spawned log e"
    and "576 \<le> cfg_mtu cfg" and "cfg_mtu cfg \<le> 9000"
  defines "p \<equiv> PeerInfo (cfg_proxy_addr cfg)" and "e' \<equiv> task_begin 0 True e"
  obtains b where "app_run f rt (TaskBegin 0 True # deliver_event 0) a = Some b" and "app_ready e' b" and "quiescent b"
    and "sm_state (ap_mgr b) = AppConnected (current_mode (ap_mgr a)) (show_addr (cfg_proxy_addr cfg))"
    and "sm_mode (ap_mgr b) = sm_mode (ap_mgr a)" and "engine_shows b (Connected Client p)"
    and "client_run fire_jvm_event fd cfg v v (Connected Client p) Running
      (log @ [(fire_jvm_event, session_state_to_json (Connected Client p))]) e'"
proof -
  let ?a = "with_engine e' [Connected Client p] a"
  let ?b = "?a\<lparr>ap_cos := [], ap_mgr := handleEngineEvent (session_state_to_json (Connected Client p)) (ap_mgr a)\<rparr>"
  have r: "app_ready e' ?a" by (rule with_engine_ready [OF assms(1)])
  have c: "ap_cos ?a = [] @ CoEmit (session_state_to_json (Connected Client p)) # []"
    using assms(2) by (simp add: emits_def)
  have run: "client_run fire_jvm_event fd cfg v v (Connected Client p) Running
      (log @ [(fire_jvm_event, session_state_to_json (Connected Client p))]) e'"
    unfolding p_def e'_def by (rule begin_connects(1) [OF assms(3-5)])
  have "app_run f rt (deliver_event 0) ?a = Some ?b" using deliver_runs [OF r c] by simp
  then have ab: "app_run f rt (TaskBegin 0 True # deliver_event 0) a = Some ?b"
    using begin_step [OF assms(1,3-5)] by (simp add: p_def e'_def)
  have rb: "app_ready e' ?b" by (rule deliver_ready [OF r])
  have j: "j_instance (ap_jni ?b) = Some e'" using rb by (simp add: app_ready_def)
  have q: "quiescent ?b"
    using rb run task_waits_for_signal [OF run] j by (auto simp: quiescent_def app_ready_def client_run_def)
  have sh: "engine_shows ?b (Connected Client p)" using j run by (simp add: engine_shows_def client_run_def Session_state_def)
  show thesis by (rule that [OF ab rb q _ _ sh run]) (simp_all add: handle_transition p_def)
qed

text \<open>The user stops a connected client and the events are shown.\<close>

lemma disconnect_runs:
  assumes "app_ready e b" and "ap_cos b = []" and "client_run fire_jvm_event fd cfg v v (Connected Client p) Running log e"
  obtains c where "app_run f rt disconnect_run b = Some c" and "sm_state (ap_mgr c) = AppIdle" and "sm_mode (ap_mgr c) = IDLE"
    and "engine_shows c Idle" and "quiescent c"
proof -
  let ?stop = "Stopping Client StopUserRequest"
  obtain e3 log' where e3: "Engine_stop e = (Inr (), e3)"
    and r3: "client_run fire_jvm_event fd cfg v (Suc v) ?stop Running log' e3"
    and l3: "e_delivered e3 = e_delivered e @ map (\<lambda>st. (fire_jvm_event, session_state_to_json st)) [?stop]"
    using stop_signals [OF assms(3)] assms(3) by (auto simp: client_run_def)
  let ?m = "(ap_mgr b)\<lparr>sm_state := AppIdle, sm_mode := IDLE\<rparr>"
  let ?x = "with_engine e3 [?stop] (b\<lparr>ap_mgr := ?m\<rparr>)"
  have rb: "app_ready e3 ?x" using assms(1) by (simp add: app_ready_def with_engine_def)
  have s1: "app_run f rt [UiStop, RunCo 0, RunCo 0, RunCo 0, RunCo 0] b = Some ?x"
    by (rule stop_runs [OF assms(1,2) e3 l3])
  let ?y = "?x\<lparr>ap_cos := [], ap_mgr := handleEngineEvent (session_state_to_json ?stop) ?m\<rparr>"
  have s2: "app_run f rt (deliver_event 0) ?x = Some ?y"
    using deliver_runs [OF rb, of "[]" ?stop "[]"] assms(2) by (simp add: emits_def)
  have ry: "app_ready e3 ?y" by (rule deliver_ready [OF rb])
  let ?z = "with_engine (task_end 0 e3) [Idle] ?y"
  have s3: "app_run f rt [TaskEnd 0 False] ?y = Some ?z" using end_step [OF ry r3] by simp
  have rz: "app_ready (task_end 0 e3) ?z" by (rule with_engine_ready [OF ry])
  let ?c = "?z\<lparr>ap_cos := [], ap_mgr := handleEngineEvent (session_state_to_json Idle) (ap_mgr ?z)\<rparr>"
  have s4: "app_run f rt (deliver_event 0) ?z = Some ?c"
    using deliver_runs [OF rz, of "[]" Idle "[]"] by (simp add: emits_def)
  have run: "app_run f rt disconnect_run b = Some ?c"
    unfolding disconnect_run_def app_run_append s1 option.case s2 s3 s4 ..
  have q: "quiescent ?c"
    using rz r3 by (auto simp: quiescent_def app_ready_def client_run_def task_end_def set_phase_def task_may_end_def
        engine_dispatch_def Session_dispatch_def Session_state_def notify_def transition_def Let_def)
  show thesis
    by (rule that [OF run _ _ _ q]) (use end_idles [OF r3] in \<open>simp_all add: handle_transition engine_shows_def\<close>)
qed


text \<open>An application just started, and its engine.\<close>

definition demo_engine :: "native_callback engine" where
  "demo_engine = Engine_set_event_callback fire_jvm_event Engine_new"

definition demo_app :: app where
  "demo_app = app_init\<lparr>ap_subscribed := True\<rparr>"

lemma demo_app_ready:
  "app_ready demo_engine demo_app" "ap_cos demo_app = []" "at_rest demo_engine" "e_callback demo_engine = Some fire_jvm_event"
  by (simp_all add: demo_app_def app_init_def app_ready_def demo_engine_def jni_setEventCallback_def ffi_catch_def
      get_or_init_def Engine_get_def Engine_init_def at_rest_def Engine_set_event_callback_def Engine_new_def
      Session_add_listener_def Session_new_def Let_def)

text \<open>A reader of configurations that knows one text: the proxy 10.0.0.1:1080 with MTU 1400 and DNS 9.9.9.9.\<close>

definition demo_proxy :: SocketAddr where
  "demo_proxy = SocketAddr (V4 (Ipv4Addr 10 0 0 1)) 1080"

definition demo_from_str :: "bytes \<Rightarrow> EngineConfig option" where
  "demo_from_str text =
     (if text = client_config (show_addr demo_proxy) 1400 (ascii ''9.9.9.9'')
      then Some (ClientCfg (ClientConfig_of_fields demo_proxy (Some 1400) (Some (V4 (Ipv4Addr 9 9 9 9))) None)) else None)"

lemma demo_config:
  "effective_config demo_from_str (client_config (show_addr demo_proxy) 1400 (ascii ''9.9.9.9'')) =
     ClientConfig_of_fields demo_proxy (Some 1400) (Some (V4 (Ipv4Addr 9 9 9 9))) None"
  by (simp add: effective_config_def demo_from_str_def)


section \<open>A server session\<close>

definition effective_server_config :: "(bytes \<Rightarrow> EngineConfig option) \<Rightarrow> bytes \<Rightarrow> ServerConfig" where
  "effective_server_config from_str text = (case from_str text of Some (ServerCfg c) \<Rightarrow> c | _ \<Rightarrow> ServerConfig_default)"

text \<open>A server session between its calls: its only task and what the callback has been given.\<close>

definition server_run :: "'cb \<Rightarrow> ServerConfig \<Rightarrow> nat \<Rightarrow> SessionState \<Rightarrow> TaskPhase \<Rightarrow> ('cb \<times> bytes) list \<Rightarrow> 'cb engine \<Rightarrow> bool" where
  "server_run cb cfg v st phase log e \<longleftrightarrow>
     ses_state (e_session e) = st \<and> ses_listeners (e_session e) = [()] \<and> e_receivers e = 1 \<and> e_version e = v \<and>
     e_callback e = Some cb \<and> e_delivered e = log \<and>
     e_tasks e = [\<lparr>t_mode = Server, t_phase = phase, t_seen = v, t_peer = cfg_socks_bind cfg, t_fd = 0, t_mtu = 0\<rparr>]"

lemma start_server_runs:
  assumes "at_rest e" and "e_callback e = Some cb"
  obtains e1 where "Engine_start_server cfg e = (Inr (), e1)"
    and "server_run cb cfg (e_version e) (Connecting Server 1) Spawned
      (e_delivered e @ map (\<lambda>st. (cb, session_state_to_json st)) [Preparing Server, Connecting Server 1]) e1"
proof -
  have "\<exists>e1. Engine_start_server cfg e = (Inr (), e1) \<and> server_run cb cfg (e_version e) (Connecting Server 1) Spawned
      (e_delivered e @ map (\<lambda>st. (cb, session_state_to_json st)) [Preparing Server, Connecting Server 1]) e1"
    using assms by (cases "ses_state (e_session e)")
      (simp_all add: Engine_start_server_def start_server_actions_def lifecycle_defs transition_def at_rest_def server_run_def)
  then show thesis using that by blast
qed

lemma begin_serves:
  assumes "server_run cb cfg v (Connecting Server 1) Spawned log e"
  shows "server_run cb cfg v (Connected Server (PeerInfo (cfg_socks_bind cfg))) Running
      (log @ [(cb, session_state_to_json (Connected Server (PeerInfo (cfg_socks_bind cfg))))]) (task_begin 0 ok e)"
  using assms by (simp add: server_run_def task_begin_def engine_dispatch_def Session_dispatch_def Session_state_def
      notify_def set_phase_def transition_def Let_def)

lemma jni_start_server_eq:
  assumes "j_instance j = Some e" and "Engine_start_server (effective_server_config from_str config) e = (Inr (), e1)"
  shows "jni_startServer from_str rt (Some config) j = (0, j\<lparr>j_instance := Some e1\<rparr>)"
  using assms get_or_init_present [of j e rt]
  by (simp add: jni_startServer_def ffi_catch_def effective_server_config_def start_code_def OK_def Let_def)

text \<open>The application starts a server and each event is shown before the next step.\<close>

definition serve_run :: "bytes \<Rightarrow> bytes \<Rightarrow> app_event list" where
  "serve_run socks http =
     [UiStartServer socks http, RunCo 0, RunCo 0, RunCo 0, RunCo 0] @ deliver_event 0 @ deliver_event 0 @
     [TaskBegin 0 True] @ deliver_event 0"

lemma serve_call:
  assumes "app_ready e a" and "ap_cos a = []" and "at_rest e" and "e_callback e = Some fire_jvm_event"
  obtains e1 log where
    "app_run from_str rt [UiStartServer socks http, RunCo 0, RunCo 0, RunCo 0, RunCo 0] a =
       Some (with_engine e1 [] (a\<lparr>ap_mgr := (ap_mgr a)\<lparr>sm_mode := SERVER, sm_state := AppConnected SERVER socks\<rparr>,
         ap_cos := emits [Preparing Server, Connecting Server 1]\<rparr>))"
    and "server_run fire_jvm_event (effective_server_config from_str (server_config socks http)) (e_version e)
       (Connecting Server 1) Spawned log e1"
proof -
  let ?text = "server_config socks http" and ?sts = "[Preparing Server, Connecting Server 1]"
  obtain e1 where e1: "Engine_start_server (effective_server_config from_str ?text) e = (Inr (), e1)"
    and run: "server_run fire_jvm_event (effective_server_config from_str ?text) (e_version e) (Connecting Server 1) Spawned
      (e_delivered e @ map (\<lambda>st. (fire_jvm_event, session_state_to_json st)) ?sts) e1"
    by (rule start_server_runs [OF assms(3,4)])
  let ?a = "a\<lparr>ap_mgr := (ap_mgr a)\<lparr>sm_mode := SERVER, sm_state := AppPreparing SERVER\<rparr>, ap_cos := []\<rparr>"
  have r: "app_ready e ?a" using assms(1) by (simp add: app_ready_def)
  have j: "jni_startServer from_str rt (Some ?text) (ap_jni ?a) = (0, (ap_jni ?a)\<lparr>j_instance := Some e1\<rparr>)"
    using assms(1) by (intro jni_start_server_eq [OF _ e1]) (simp add: app_ready_def)
  have d: "e_delivered e1 = e_delivered e @ map (\<lambda>st. (fire_jvm_event, session_state_to_json st)) ?sts"
    using run by (simp add: server_run_def)
  have "native (jni_startServer from_str rt (Some ?text)) ?a = (0, with_engine e1 ?sts ?a)"
    by (rule native_engine [OF r, where f = "jni_startServer from_str rt (Some ?text)" and sts = ?sts, OF j d])
  then show thesis
    by (intro that [OF _ run])
      (use assms(2) in \<open>simp add: SessionManager_startServer_def launch_def run_co_def set_mode_def set_state_def
        with_engine_def emits_def\<close>)
qed

lemma serve_runs:
  assumes "app_ready e a" and "ap_cos a = []" and "at_rest e" and "e_callback e = Some fire_jvm_event"
    and "cfg = effective_server_config from_str (server_config socks http)"
  obtains e1 b log where "app_run from_str rt (serve_run socks http) a = Some b" and "app_ready e1 b" and "quiescent b"
    and "sm_state (ap_mgr b) = AppConnected SERVER (show_addr (cfg_socks_bind cfg))" and "sm_mode (ap_mgr b) = SERVER"
    and "server_run fire_jvm_event cfg (e_version e) (Connected Server (PeerInfo (cfg_socks_bind cfg))) Running log e1"
proof -
  let ?p = "Connected Server (PeerInfo (cfg_socks_bind cfg))"
  let ?m = "(ap_mgr a)\<lparr>sm_mode := SERVER, sm_state := AppConnected SERVER socks\<rparr>"
  let ?n = "(ap_mgr a)\<lparr>sm_mode := SERVER, sm_state := AppConnecting SERVER 1\<rparr>"
  obtain e1 log where start: "app_run from_str rt [UiStartServer socks http, RunCo 0, RunCo 0, RunCo 0, RunCo 0] a =
       Some (with_engine e1 [] (a\<lparr>ap_mgr := ?m, ap_cos := emits [Preparing Server, Connecting Server 1]\<rparr>))"
    and run: "server_run fire_jvm_event cfg (e_version e) (Connecting Server 1) Spawned log e1"
    unfolding assms(5) by (rule serve_call [OF assms(1-4)])
  let ?a = "\<lambda>m cs. with_engine e1 [] (a\<lparr>ap_mgr := m, ap_cos := cs\<rparr>)"
  have r: "app_ready e1 (?a m cs)" for m cs using assms(1) by (simp add: app_ready_def with_engine_def)
  have h: "handleEngineEvent (session_state_to_json (Preparing Server)) ?m = ?m"
    "handleEngineEvent (session_state_to_json (Connecting Server 1)) ?m = ?n"
    by (simp_all add: handle_transition current_mode_def)
  have d1: "app_run from_str rt (deliver_event 0) (?a ?m (emits [Preparing Server, Connecting Server 1])) =
      Some (?a ?m (emits [Connecting Server 1]))"
    using deliver_runs [OF r [of "emits [Preparing Server, Connecting Server 1]" ?m],
        of "[]" "Preparing Server" "emits [Connecting Server 1]"] h(1)
    by (simp add: emits_def with_engine_def)
  have d2: "app_run from_str rt (deliver_event 0) (?a ?m (emits [Connecting Server 1])) = Some (?a ?n [])"
    using deliver_runs [OF r [of "emits [Connecting Server 1]" ?m], of "[]" "Connecting Server 1" "[]"] h(2)
    by (simp add: emits_def with_engine_def)
  let ?e = "task_begin 0 True e1" and ?f = "\<lambda>j. ((), j\<lparr>j_instance := Some (task_begin 0 True e1)\<rparr>)"
  note run2 = begin_serves [OF run, of True]
  have d: "e_delivered ?e = e_delivered e1 @ map (\<lambda>st. (fire_jvm_event, session_state_to_json st)) [?p]"
    using run run2 by (simp add: server_run_def)
  let ?b = "with_engine ?e [?p] (?a ?n [])"
  have n: "native ?f (?a ?n []) = ((), ?b)" by (rule native_engine [OF r, where f = ?f and sts = "[?p]", OF refl d])
  have t: "app_run from_str rt [TaskBegin 0 True] (?a ?n []) = Some ?b"
    using n run r [of "[]" ?n] by (simp add: run_task_def app_ready_def server_run_def)
  have rb: "app_ready ?e ?b" by (rule with_engine_ready [OF r])
  let ?c = "?b\<lparr>ap_cos := [], ap_mgr := handleEngineEvent (session_state_to_json ?p) ?n\<rparr>"
  have d3: "app_run from_str rt (deliver_event 0) ?b = Some ?c"
    using deliver_runs [OF rb, of "[]" ?p "[]"] by (simp add: emits_def)
  have all: "app_run from_str rt (serve_run socks http) a = Some ?c"
    unfolding serve_run_def app_run_append start option.case d1 d2 t d3 ..
  have rc: "app_ready ?e ?c" by (rule deliver_ready [OF rb])
  have q: "quiescent ?c"
    using rc run2 by (auto simp: quiescent_def app_ready_def server_run_def task_may_end_def)
  show thesis by (rule that [OF all rc q _ _ run2]) (simp_all add: handle_transition current_mode_def)
qed

section \<open>Where the two sides part\<close>

text \<open>The engine is fast: all its events are shown before the coroutine of \<open>startClient\<close> writes its state.\<close>

definition overtaken_run :: "i32 \<Rightarrow> bytes \<Rightarrow> int \<Rightarrow> bytes \<Rightarrow> app_event list" where
  "overtaken_run fd proxy mtu dns =
     [UiStartClient fd proxy mtu dns, RunCo 0, RunCo 0, RunCo 0] @ deliver_event 1 @ deliver_event 1 @
     [TaskBegin 0 True] @ deliver_event 1 @ [RunCo 0]"

text \<open>C26: \<open>startClient\<close> can overwrite the news that the client is connected. The native call returns
  before its coroutine writes \<open>Connecting\<close>, and the engine's events are shown by another coroutine. When
  the client task comes up in between, the application first shows \<open>Connected\<close> and then \<open>Connecting\<close>. The
  engine stays connected, nothing is under way on either side, so the application shows \<open>Connecting\<close>
  until the user does something.\<close>

theorem connected_state_overwritten:
  assumes "app_ready e a" and "ap_cos a = []" and "at_rest e" and "e_callback e = Some fire_jvm_event" and "0 \<le> sint fd"
    and "cfg = effective_config from_str (client_config proxy mtu dns)" and "576 \<le> cfg_mtu cfg" and "cfg_mtu cfg \<le> 9000"
  shows "\<exists>b. app_run from_str rt (overtaken_run fd proxy mtu dns) a = Some b \<and>
     sm_state (ap_mgr b) = AppConnecting CLIENT 1 \<and>
     engine_shows b (Connected Client (PeerInfo (cfg_proxy_addr cfg))) \<and> quiescent b"
proof -
  let ?p = "PeerInfo (cfg_proxy_addr cfg)" and ?w = "ClientResult 0"
  let ?m = "(ap_mgr a)\<lparr>sm_mode := CLIENT, sm_state := AppPreparing CLIENT\<rparr>"
  let ?n = "(ap_mgr a)\<lparr>sm_mode := CLIENT, sm_state := AppConnecting CLIENT 1\<rparr>"
  obtain e1 log where start: "app_run from_str rt [UiStartClient fd proxy mtu dns, RunCo 0, RunCo 0, RunCo 0] a =
       Some (with_engine e1 [] (a\<lparr>ap_mgr := ?m, ap_cos := ?w # emits [Preparing Client, Connecting Client 1]\<rparr>))"
    and run: "client_run fire_jvm_event fd cfg (e_version e) (e_version e) (Connecting Client 1) Spawned log e1"
    unfolding assms(6) by (rule start_call [OF assms(1-5)])
  let ?a = "\<lambda>m cs. with_engine e1 [] (a\<lparr>ap_mgr := m, ap_cos := cs\<rparr>)"
  have r: "app_ready e1 (?a m cs)" for m cs using assms(1) by (simp add: app_ready_def with_engine_def)
  have h: "handleEngineEvent (session_state_to_json (Preparing Client)) ?m = ?m"
    "handleEngineEvent (session_state_to_json (Connecting Client 1)) ?m = ?n"
    by (simp_all add: handle_transition current_mode_def)
  have d1: "app_run from_str rt (deliver_event 1) (?a ?m (?w # emits [Preparing Client, Connecting Client 1])) =
      Some (?a ?m (?w # emits [Connecting Client 1]))"
    using deliver_runs [OF r [of "?w # emits [Preparing Client, Connecting Client 1]" ?m],
        of "[?w]" "Preparing Client" "emits [Connecting Client 1]"] h(1)
    by (simp add: emits_def with_engine_def)
  have d2: "app_run from_str rt (deliver_event 1) (?a ?m (?w # emits [Connecting Client 1])) = Some (?a ?n [?w])"
    using deliver_runs [OF r [of "?w # emits [Connecting Client 1]" ?m], of "[?w]" "Connecting Client 1" "[]"] h(2)
    by (simp add: emits_def with_engine_def)
  let ?e = "task_begin 0 True e1" and ?b = "with_engine (task_begin 0 True e1) [Connected Client ?p] (?a ?n [?w])"
  have t: "app_run from_str rt [TaskBegin 0 True] (?a ?n [?w]) = Some ?b"
    using begin_step [OF r run assms(7,8)] by simp
  have rb: "app_ready ?e ?b" by (rule with_engine_ready [OF r])
  let ?c = "?b\<lparr>ap_cos := [?w], ap_mgr := handleEngineEvent (session_state_to_json (Connected Client ?p)) ?n\<rparr>"
  have d3: "app_run from_str rt (deliver_event 1) ?b = Some ?c"
    using deliver_runs [OF rb, of "[?w]" "Connected Client ?p" "[]"] by (simp add: emits_def)
  let ?d = "(set_state (AppConnecting CLIENT 1) ?c)\<lparr>ap_cos := []\<rparr>"
  have w: "app_run from_str rt [RunCo 0] ?c = Some ?d" by (simp add: run_co_def set_state_def)
  have run2: "client_run fire_jvm_event fd cfg (e_version e) (e_version e) (Connected Client ?p) Running
      (log @ [(fire_jvm_event, session_state_to_json (Connected Client ?p))]) ?e"
    by (rule begin_connects(1) [OF run assms(7,8)])
  have "quiescent ?d"
    using rb run2 task_waits_for_signal [OF run2] by (auto simp: quiescent_def app_ready_def client_run_def set_state_def)
  moreover have "engine_shows ?d (Connected Client ?p)"
    using run2 by (simp add: engine_shows_def client_run_def Session_state_def set_state_def)
  moreover have "app_run from_str rt (overtaken_run fd proxy mtu dns) a = Some ?d"
    unfolding overtaken_run_def app_run_append start option.case d1 d2 t d3 w ..
  ultimately show ?thesis by (intro exI [of _ ?d]) (simp add: set_state_def)
qed

theorem connected_state_overwritten_witness:
  "\<exists>b. app_run (\<lambda>_. None) True (overtaken_run 3 (ascii ''bad'') 1280 []) demo_app = Some b \<and>
     sm_state (ap_mgr b) = AppConnecting CLIENT 1 \<and>
     engine_shows b (Connected Client (PeerInfo (SocketAddr (V4 (Ipv4Addr 192 168 43 1)) 1080))) \<and> quiescent b"
proof -
  have fd: "0 \<le> sint (3 :: i32)" by simp
  have c: "ClientConfig_default = effective_config (\<lambda>_. None) (client_config (ascii ''bad'') 1280 [])"
    by (simp add: effective_config_def)
  have m: "576 \<le> cfg_mtu ClientConfig_default" "cfg_mtu ClientConfig_default \<le> 9000"
    and p: "cfg_proxy_addr ClientConfig_default = SocketAddr (V4 (Ipv4Addr 192 168 43 1)) 1080"
    by (simp_all add: ClientConfig_default_def DEFAULT_MTU_def)
  from connected_state_overwritten [OF demo_app_ready fd c m, of True, unfolded p] show ?thesis .
qed

text \<open>C27: a stop that comes too early is shown but not done. If the user stops while the client is still
  connecting, the engine refuses, the application ignores the refusal and shows \<open>Idle\<close>. The client task
  then comes up all the same: the engine is connected, and the application shows a connection it has no
  mode for (\<open>IDLE\<close>).\<close>

theorem early_stop_undone:
  assumes "app_ready e a" and "ap_cos a = []" and "at_rest e" and "e_callback e = Some fire_jvm_event" and "0 \<le> sint fd"
    and "cfg = effective_config from_str (client_config proxy mtu dns)" and "576 \<le> cfg_mtu cfg" and "cfg_mtu cfg \<le> 9000"
  shows "\<exists>b c. app_run from_str rt (connect_run fd proxy mtu dns @ [UiStop, RunCo 0, RunCo 0, RunCo 0, RunCo 0]) a = Some b \<and>
     sm_state (ap_mgr b) = AppIdle \<and> engine_shows b (Connecting Client 1) \<and>
     app_run from_str rt (TaskBegin 0 True # deliver_event 0) b = Some c \<and>
     sm_state (ap_mgr c) = AppConnected IDLE (show_addr (cfg_proxy_addr cfg)) \<and>
     engine_shows c (Connected Client (PeerInfo (cfg_proxy_addr cfg))) \<and> quiescent c"
proof -
  obtain e1 b1 log where b1: "app_run from_str rt (connect_run fd proxy mtu dns) a = Some b1" "app_ready e1 b1" "ap_cos b1 = []"
    and r1: "client_run fire_jvm_event fd cfg (e_version e) (e_version e) (Connecting Client 1) Spawned log e1"
    unfolding assms(6) by (rule connect_runs [OF assms(1-5)])
  let ?b = "with_engine e1 [] (b1\<lparr>ap_mgr := (ap_mgr b1)\<lparr>sm_state := AppIdle, sm_mode := IDLE\<rparr>\<rparr>)"
  have st: "app_run from_str rt [UiStop, RunCo 0, RunCo 0, RunCo 0, RunCo 0] b1 = Some ?b"
    by (rule stop_runs [OF b1(2,3) stop_refused [OF r1]]) simp
  have rb: "app_ready e1 ?b" using b1(2) by (simp add: app_ready_def with_engine_def)
  have cb: "ap_cos ?b = []" using b1(3) by (simp add: emits_def)
  obtain c where "app_run from_str rt (TaskBegin 0 True # deliver_event 0) ?b = Some c" and "quiescent c"
    and "sm_state (ap_mgr c) = AppConnected (current_mode (ap_mgr ?b)) (show_addr (cfg_proxy_addr cfg))"
    and "engine_shows c (Connected Client (PeerInfo (cfg_proxy_addr cfg)))"
    by (rule begin_shown [OF rb cb r1 assms(7,8)])
  moreover have "app_run from_str rt (connect_run fd proxy mtu dns @ [UiStop, RunCo 0, RunCo 0, RunCo 0, RunCo 0]) a = Some ?b"
    unfolding app_run_append b1(1) option.case st ..
  moreover have "engine_shows ?b (Connecting Client 1)"
    using r1 by (simp add: engine_shows_def client_run_def Session_state_def)
  ultimately show ?thesis by (intro exI [of _ ?b] exI [of _ c]) (simp add: current_mode_def)
qed

theorem early_stop_undone_witness:
  "\<exists>b c. app_run demo_from_str True
       (connect_run 3 (show_addr demo_proxy) 1400 (ascii ''9.9.9.9'') @ [UiStop, RunCo 0, RunCo 0, RunCo 0, RunCo 0]) demo_app = Some b \<and>
     sm_state (ap_mgr b) = AppIdle \<and> app_run demo_from_str True (TaskBegin 0 True # deliver_event 0) b = Some c \<and>
     sm_state (ap_mgr c) = AppConnected IDLE (show_addr demo_proxy)"
proof -
  have fd: "0 \<le> sint (3 :: i32)" by simp
  let ?cfg = "ClientConfig_of_fields demo_proxy (Some 1400) (Some (V4 (Ipv4Addr 9 9 9 9))) None"
  have m: "576 \<le> cfg_mtu ?cfg" "cfg_mtu ?cfg \<le> 9000" and p: "cfg_proxy_addr ?cfg = demo_proxy"
    by (simp_all add: ClientConfig_of_fields_def)
  from early_stop_undone [OF demo_app_ready fd demo_config [symmetric] m, of True, unfolded p]
  show ?thesis by blast
qed

section \<open>What the application can show\<close>

definition event_ok :: "bytes \<Rightarrow> bool" where
  "event_ok json \<longleftrightarrow> (\<exists>st. engine_state st \<and> json = session_state_to_json st)"

text \<open>A failure is either one the engine reports, shown as recoverable, or a call the engine refused.\<close>

fun shown_ok :: "AppState \<Rightarrow> bool" where
  "shown_ok (AppConnecting _ attempt) \<longleftrightarrow> attempt = 1"
| "shown_ok (AppReconnecting _ _ _) \<longleftrightarrow> False"
| "shown_ok (AppFailed _ err recoverable) \<longleftrightarrow>
     (if recoverable then err = ascii ''TunOpenFailed'' else \<exists>r. r \<noteq> 0 \<and> err = engine_error r)"
| "shown_ok _ \<longleftrightarrow> True"

definition jni_inv :: "unit jni \<Rightarrow> bool" where
  "jni_inv j \<longleftrightarrow> (\<forall>e. j_instance j = Some e \<longrightarrow> engine_inv e)"

definition app_inv :: "app \<Rightarrow> bool" where
  "app_inv a \<longleftrightarrow> jni_inv (ap_jni a) \<and> (\<forall>json. CoEmit json \<in> set (ap_cos a) \<longrightarrow> event_ok json) \<and>
     (\<forall>json \<in> set (ap_buffer a). event_ok json) \<and> (\<forall>r. ap_applying a = Some r \<longrightarrow> shown_ok (fst r)) \<and>
     shown_ok (sm_state (ap_mgr a)) \<and> sm_throughput (ap_mgr a) = 0 \<and> sm_clientCount (ap_mgr a) = 0"

lemma run_actions_inv:
  "engine_inv e \<Longrightarrow> \<forall>a \<in> set as. action_ok a \<Longrightarrow> engine_inv (snd (run_actions as seen e))"
proof (induction as arbitrary: seen e)
  case (Cons a as)
  obtain r e' where r: "run_action a seen e = (r, e')" by fastforce
  then have "engine_inv e'" using run_action_inv [of e a seen r e'] Cons.prems by simp
  then show ?case using Cons r by (cases r) simp_all
qed simp

lemma Engine_new_inv: "engine_inv Engine_new"
  by (simp add: engine_inv_def Engine_new_def Session_add_listener_def Session_new_def)

lemma engine_calls_inv:
  assumes "engine_inv e"
  shows "engine_inv (snd (Engine_start_client fd cfg e))" "engine_inv (snd (Engine_start_server scfg e))"
    "engine_inv (snd (Engine_stop e))"
  using assms call_actions_ok [of _ "CallStartClient fd cfg"] call_actions_ok [of _ "CallStartServer scfg"] call_actions_ok [of _ CallStop]
  by (auto simp: Engine_start_client_def Engine_start_server_def Engine_stop_def intro!: run_actions_inv)

lemma get_or_init_inv:
  assumes "jni_inv j" and "get_or_init rt j = (r, j')"
  shows "jni_inv j' \<and> (\<forall>e. r = Inr e \<longrightarrow> engine_inv e)"
  using assms Engine_new_inv
  by (auto simp: get_or_init_def Engine_get_def Engine_init_def jni_inv_def split: option.splits if_splits)

lemma jni_calls_inv:
  assumes "jni_inv j"
  shows "jni_inv (snd (jni_startClient f rt fd c j))" "jni_inv (snd (jni_startServer f rt c j))" "jni_inv (snd (jni_stop j))"
proof -
  obtain r j' where g: "get_or_init rt j = (r, j')" by fastforce
  note gi = get_or_init_inv [OF assms g]
  show "jni_inv (snd (jni_startClient f rt fd c j))"
    using assms g gi engine_calls_inv(1)
    by (cases r) (auto simp: jni_startClient_def ffi_catch_def jni_inv_def Let_def split_beta)
  show "jni_inv (snd (jni_startServer f rt c j))"
    using assms g gi engine_calls_inv(2)
    by (cases r) (auto simp: jni_startServer_def ffi_catch_def jni_inv_def Let_def split_beta)
  show "jni_inv (snd (jni_stop j))"
  proof (cases "j_instance j")
    case (Some e)
    then have e: "engine_inv (snd (Engine_stop e))" using assms engine_calls_inv(3) by (simp add: jni_inv_def)
    obtain q e' where "Engine_stop e = (q, e')" by fastforce
    with Some e show ?thesis by (cases q) (simp_all add: jni_stop_def ffi_catch_def Engine_get_def jni_inv_def)
  qed (use assms in \<open>simp add: jni_stop_def ffi_catch_def Engine_get_def\<close>)
qed

lemma native_inv:
  assumes "app_inv a" and "jni_inv (snd (f (ap_jni a)))"
  shows "app_inv (snd (native f a))"
proof -
  obtain r j where j: "f (ap_jni a) = (r, j)" by fastforce
  have "event_ok json" if "json \<in> set (delivered j)" for json
    using that assms(2) j
    by (cases "j_instance j") (auto simp: delivered_def jni_inv_def engine_inv_def event_ok_def split_beta)
  then show ?thesis
    using assms j by (auto simp: native_def app_inv_def dest: in_set_dropD)
qed

lemma co_step_inv:
  assumes "app_inv a" and "co_step f rt co a = Some (left, b)" and "\<And>json. co = CoEmit json \<Longrightarrow> event_ok json"
  shows "app_inv b \<and> (\<forall>json. CoEmit json \<notin> set left)"
proof -
  have j: "jni_inv (ap_jni a)" using assms(1) by (simp add: app_inv_def)
  have n: "app_inv (snd (native (jni_startClient f rt fd c) a))" "app_inv (snd (native (jni_startServer f rt c) a))"
    "app_inv (snd (native jni_stop a))" for fd c
    using native_inv [OF assms(1)] jni_calls_inv [OF j] by blast+
  show ?thesis
  proof (cases co)
    case (ClientCall fd config)
    then show ?thesis using assms(2) n(1) [of fd "Some config"] by (auto split: prod.splits)
  next
    case (ServerCall socks http)
    then show ?thesis using assms(2) n(2) [of "Some (server_config socks http)"] by (auto split: prod.splits)
  next
    case StopCall
    then show ?thesis using assms(2) n(3) by (auto split: prod.splits)
  qed (use assms in \<open>auto simp: app_inv_def set_state_def set_mode_def split: if_splits\<close>)
qed

lemma nextState_ok:
  assumes "event_ok json" and "classify_event json = EvTransition t json'" and "shown_ok current"
  shows "shown_ok (fst (nextState t json' current mode))"
proof -
  obtain st where st: "engine_state st" "json = session_state_to_json st" using assms(1) by (auto simp: event_ok_def)
  let ?s = "\<lparr>sm_state = current, sm_mode = mode, sm_throughput = 0, sm_clientCount = 0\<rparr>"
  have "fst (nextState t json' current mode) = sm_state (handleEngineEvent json ?s)"
    using assms(2) by (simp add: handleEngineEvent_def applyTransition_def write_state_def split_beta)
  then show ?thesis
    using st assms(3) by (cases st) (auto simp: handle_transition)
qed

lemma collect_inv:
  assumes "app_inv a" and "collect a = Some b"
  shows "app_inv b"
proof -
  obtain json rest where b: "ap_applying a = None" "ap_buffer a = json # rest"
    using assms(2) by (auto simp: collect_def split: option.splits list.splits)
  then have ok: "event_ok json" using assms(1) by (simp add: app_inv_def)
  then obtain t where t: "classify_event json = EvTransition t json"
    using classify_transition by (auto simp: event_ok_def)
  have "shown_ok (fst (nextState t json (sm_state (ap_mgr a)) (sm_mode (ap_mgr a))))"
    using nextState_ok [OF ok t] assms(1) by (simp add: app_inv_def)
  then show ?thesis using assms b t by (auto simp: collect_def app_inv_def)
qed

lemma task_inv:
  assumes "app_inv a" and "run_task i may step a = Some b" and "\<And>e. engine_inv e \<Longrightarrow> engine_inv (step e)"
  shows "app_inv b"
proof -
  obtain e where e: "j_instance (ap_jni a) = Some e"
    and b: "b = snd (native (\<lambda>j. ((), j\<lparr>j_instance := Some (step e)\<rparr>)) a)"
    using assms(2) by (auto simp: run_task_def split: option.splits if_splits)
  have "engine_inv (step e)" using assms(1,3) e by (simp add: app_inv_def jni_inv_def)
  then show ?thesis unfolding b by (intro native_inv [OF assms(1)]) (simp add: jni_inv_def)
qed

lemma run_co_inv:
  assumes "app_inv a" and "run_co f rt i a = Some b"
  shows "app_inv b"
proof -
  let ?a = "a\<lparr>ap_cos := take i (ap_cos a) @ drop (Suc i) (ap_cos a)\<rparr>"
  obtain left c where i: "i < length (ap_cos a)" and c: "co_step f rt (ap_cos a ! i) ?a = Some (left, c)"
    and b: "b = c\<lparr>ap_cos := left @ ap_cos c\<rparr>"
    using assms(2) by (auto simp: run_co_def bind_eq_Some_conv split: if_splits)
  have "app_inv ?a" using assms(1) by (auto simp: app_inv_def dest: in_set_takeD in_set_dropD)
  moreover have "event_ok json" if "ap_cos a ! i = CoEmit json" for json
    using assms(1) nth_mem [OF i] that by (simp add: app_inv_def)
  ultimately show ?thesis using co_step_inv [OF _ c] b by (auto simp: app_inv_def)
qed

lemma app_step_inv:
  assumes "app_inv a" and "app_step f rt ev a = Some b"
  shows "app_inv b"
proof (cases ev)
  case (RunCo i)
  then show ?thesis using run_co_inv [OF assms(1)] assms(2) by simp
next
  case Collect
  then show ?thesis using collect_inv [OF assms(1)] assms(2) by simp
next
  case (TaskBegin i tun_ok)
  have "engine_inv (task_begin i tun_ok e)" if "engine_inv e" for e
    using that by (auto simp: task_begin_def Let_def intro!: set_phase_inv engine_dispatch_inv)
  then show ?thesis using assms(2) TaskBegin by (auto intro: task_inv [OF assms(1)])
next
  case (TaskEnd i loop_over)
  have "engine_inv (task_end i e)" if "engine_inv e" for e
    using that by (auto simp: task_end_def intro!: set_phase_inv engine_dispatch_inv)
  then show ?thesis using assms(2) TaskEnd by (auto intro: task_inv [OF assms(1)])
qed (use assms in \<open>auto simp: app_inv_def SessionManager_startClient_def SessionManager_startServer_def SessionManager_stop_def
    launch_def acknowledgeError_def apply_collected_def write_state_def split: option.splits prod.splits\<close>)

lemma app_run_inv: "app_inv a \<Longrightarrow> app_run f rt evs a = Some b \<Longrightarrow> app_inv b"
  by (induction evs arbitrary: a) (auto simp: bind_eq_Some_conv dest: app_step_inv)

lemma app_init_inv: "app_inv app_init"
proof -
  have "jni_inv (ap_jni app_init)"
    using Engine_new_inv
    by (simp add: app_init_def jni_setEventCallback_def ffi_catch_def get_or_init_def Engine_get_def Engine_init_def
        jni_inv_def Engine_set_event_callback_def engine_inv_def)
  then show ?thesis by (simp add: app_inv_def) (simp add: app_init_def SessionManager_new_def)
qed

text \<open>C28: what the application can ever show, whatever the user, the coroutines and the engine do and in
  whatever order. It never shows a reconnection or an attempt other than the first. A failure of the
  session is always \<open>TunOpenFailed\<close> and always marked as recoverable, although the engine reports it as
  not recoverable; every other failure is the code of a refused call. The throughput and the number of
  clients are always zero: no event of the engine carries them.\<close>

theorem app_shows_only:
  assumes "app_run from_str rt evs app_init = Some a"
  shows "shown_ok (sm_state (ap_mgr a)) \<and> sm_throughput (ap_mgr a) = 0 \<and> sm_clientCount (ap_mgr a) = 0"
  using app_run_inv [OF app_init_inv assms] by (simp add: app_inv_def)

theorem app_shows_only_witness:
  "\<exists>a. app_run (\<lambda>_. None) True [UiStop, RunCo 0] app_init = Some a \<and> sm_state (ap_mgr a) = AppStopping IDLE \<and>
     sm_throughput (ap_mgr a) = 0"
proof -
  let ?a = "(set_state (AppStopping IDLE) app_init)\<lparr>ap_cos := [StopCall]\<rparr>"
  have r: "app_run (\<lambda>_. None) True [UiStop, RunCo 0] app_init = Some ?a"
    by (simp add: SessionManager_stop_def launch_def run_co_def set_state_def stop_mode_def app_init_def SessionManager_new_def)
  then show ?thesis using app_shows_only [OF r] by (intro exI [of _ ?a]) (simp add: set_state_def)
qed

end
