(* ===== verification/App_Network.thy ===== *)
theory App_Network
  imports App_Engine
begin

unbundle bit_operations_syntax

text \<open>
  How a client finds its proxy: \<open>NetworkDiscovery.kt\<close>, \<open>QrCodeHelper.kt\<close> and the QR functions of
  \<open>HomeViewModel.kt\<close>. What Android tells about networks and interfaces is passed in as data; whether a
  port accepts a connection within the time limits is the parameter \<open>probe\<close>.
\<close>

section \<open>The gateway\<close>

record ProxyInfo =
  pi_host :: bytes
  pi_port :: int

definition ProxyInfo_toString :: "ProxyInfo \<Rightarrow> bytes" where
  "ProxyInfo_toString p = pi_host p @ [58] @ show_int (pi_port p)"

text \<open>The link properties of the active network: the address of the DHCP server, and for each route
  whether it is the default route and the address of its gateway.\<close>

record link_properties =
  lp_dhcpServerAddress :: "bytes option"
  lp_routes :: "(bool \<times> bytes option) list"

text \<open>The parts of an \<open>Int\<close>; \<open>shr\<close> keeps the sign.\<close>

definition intToIp :: "i32 \<Rightarrow> bytes" where
  "intToIp i =
     show_int (sint (i AND 0xFF)) @ [46] @ show_int (sint (signed_drop_bit 8 i AND 0xFF)) @ [46] @
     show_int (sint (signed_drop_bit 16 i AND 0xFF)) @ [46] @ show_int (sint (signed_drop_bit 24 i AND 0xFF))"

definition wifi_gateway :: "i32 option \<Rightarrow> bytes option" where
  "wifi_gateway dhcp = (case dhcp of Some g \<Rightarrow> if g \<noteq> 0 then Some (intToIp g) else None | None \<Rightarrow> None)"

definition getGatewayIp :: "bool \<Rightarrow> link_properties option \<Rightarrow> i32 option \<Rightarrow> bytes option" where
  "getGatewayIp sdk_r lp dhcp =
     (case lp of
        None \<Rightarrow> None
      | Some lp \<Rightarrow>
          (case (if sdk_r then lp_dhcpServerAddress lp else None) of
             Some a \<Rightarrow> Some a
           | None \<Rightarrow>
               (case find (\<lambda>(is_default, gateway). is_default \<and> gateway \<noteq> None) (lp_routes lp) of
                  Some (_, Some g) \<Rightarrow> Some g
                | _ \<Rightarrow> wifi_gateway dhcp)))"

definition PROBE_PORTS :: "int list" where
  "PROBE_PORTS = [1080, 8080]"

definition findServer :: "(bytes \<Rightarrow> int \<Rightarrow> bool) \<Rightarrow> bool \<Rightarrow> link_properties option \<Rightarrow> i32 option \<Rightarrow> ProxyInfo option" where
  "findServer probe sdk_r lp dhcp = do {
     gw \<leftarrow> getGatewayIp sdk_r lp dhcp;
     map_option (\<lambda>port. \<lparr>pi_host = gw, pi_port = port\<rparr>) (find (probe gw) PROBE_PORTS) }"

section \<open>The addresses of the server\<close>

text \<open>An interface, with each of its addresses: whether it is an IPv4 address, whether it is a loopback
  address, and its text.\<close>

record network_interface =
  ni_isUp :: bool
  ni_isLoopback :: bool
  ni_addresses :: "(bool \<times> bool \<times> bytes option) list"

text \<open>\<open>None\<close>: the interfaces cannot be listed.\<close>

definition getServerAddresses :: "network_interface list option \<Rightarrow> bytes list" where
  "getServerAddresses ifs =
     (case ifs of
        None \<Rightarrow> []
      | Some ifs \<Rightarrow>
          List.map_filter (\<lambda>(_, _, text). text)
            (filter (\<lambda>(v4, loopback, _). v4 \<and> \<not> loopback)
              (concat (map ni_addresses (filter (\<lambda>i. ni_isUp i \<and> \<not> ni_isLoopback i) ifs)))))"

definition getServerQrContent :: "network_interface list option \<Rightarrow> bytes option" where
  "getServerQrContent ifs =
     (case getServerAddresses ifs of [] \<Rightarrow> None | a # _ \<Rightarrow> Some (a @ ascii '':1080''))"

text \<open>The QR code: the matrix comes from the encoder, which may fail; a pixel is black where it is set.\<close>

datatype color = BLACK | WHITE

definition generateQrBitmap ::
  "(bytes \<Rightarrow> nat \<Rightarrow> (nat \<Rightarrow> nat \<Rightarrow> bool) option) \<Rightarrow> bytes \<Rightarrow> nat \<Rightarrow> color list list option" where
  "generateQrBitmap encode content sizePx =
     map_option (\<lambda>matrix. map (\<lambda>x. map (\<lambda>y. if matrix x y then BLACK else WHITE) [0..<sizePx]) [0..<sizePx])
       (encode content sizePx)"

section \<open>Scanning\<close>

text \<open>\<open>toInt\<close>: an optional sign, at least one digit, and a value that fits 32 bits.\<close>

definition toInt :: "bytes \<Rightarrow> int option" where
  "toInt s =
     (let (neg, ds) = (case s of b # bs \<Rightarrow> if b = 45 then (True, bs) else if b = 43 then (False, bs) else (False, s)
                               | [] \<Rightarrow> (False, []));
          n = fold (\<lambda>d acc. acc * 10 + (uint d - 48)) ds 0;
          v = (if neg then - n else n)
      in if ds \<noteq> [] \<and> list_all regex_digit ds \<and> - (2 ^ 31) \<le> v \<and> v < 2 ^ 31 then Some v else None)"

text \<open>What a scanned text leads to: the proxy the permission is asked for, or nothing at all.\<close>

definition connectFromQr :: "bytes \<Rightarrow> bytes option" where
  "connectFromQr scanned = do {
     lastColon \<leftarrow> rfind 58 scanned;
     port \<leftarrow> toInt (drop (Suc lastColon) scanned);
     Some (take lastColon scanned @ [58] @ show_int port) }"

section \<open>From the server's screen to the client\<close>

lemma digits_value_dec:
  "fold (\<lambda>d acc. acc * 10 + (uint (d :: u8) - 48)) (dec n) 0 = int n \<and> list_all regex_digit (dec n)"
proof (induction n rule: dec.induct)
  case (1 n)
  have u: "uint (48 + word_of_nat m :: u8) - 48 = int m \<and> regex_digit (48 + word_of_nat m)" if "m < 10" for m
  proof -
    have "m = 0 \<or> m = 1 \<or> m = 2 \<or> m = 3 \<or> m = 4 \<or> m = 5 \<or> m = 6 \<or> m = 7 \<or> m = 8 \<or> m = 9"
      using that by presburger
    then show ?thesis by (elim disjE) (simp_all add: regex_digit_def)
  qed
  show ?case
  proof (cases "n < 10")
    case True
    then show ?thesis using u [of n] by (subst (1 2) dec.simps) simp
  next
    case False
    moreover have "int (n div 10) * 10 + int (n mod 10) = int n"
      unfolding of_nat_div of_nat_mod of_nat_numeral by (rule div_mult_mod_eq)
    ultimately show ?thesis using 1 u [of "n mod 10"] by (subst (1 2) dec.simps) simp
  qed
qed

lemma toInt_dec: "n < 65536 \<Longrightarrow> toInt (dec n) = Some (int n)"
proof -
  assume n: "n < 65536"
  obtain b bs where d: "dec n = b # bs" using dec_shape [of n] by (cases "dec n") auto
  have "regex_digit b" using digits_value_dec [of n] d by simp
  then have "b \<noteq> 45" and "b \<noteq> 43" by (auto simp: regex_digit_def)
  then show ?thesis using digits_value_dec [of n] n d by (simp add: toInt_def)
qed

lemma connectFromQr_addr:
  assumes "p < 65536"
  shows "connectFromQr (host @ [58] @ dec p) = Some (host @ [58] @ dec p)"
proof -
  have "rfind 58 (host @ 58 # dec p) = Some (length host)" using dec_shape [of p] by (intro rfind_last) simp
  then show ?thesis using toInt_dec [OF assms] by (simp add: connectFromQr_def show_int_def)
qed

lemma connectFromQr_show_addr: "connectFromQr (show_addr a) = Some (show_addr a)"
proof (cases "sa_ip a")
  case (V4 ip)
  then show ?thesis using connectFromQr_addr [of "unat (sa_port a)" "show_ipv4 ip"] unat_u16_less [of "sa_port a"]
    by (simp add: show_addr_def)
next
  case (V6 ip)
  then show ?thesis
    using connectFromQr_addr [of "unat (sa_port a)" "91 # show_ipv6 ip @ [93]"] unat_u16_less [of "sa_port a"]
    by (simp add: show_addr_def)
qed

lemma show_ipv4_no_colon: "58 \<notin> set (show_ipv4 ip)"
  using dec_shape by (cases ip) (simp add: show_ipv4_def)

lemma dec_1080: "dec 1080 = ascii ''1080''"
  by (simp add: dec.simps ascii_def)

text \<open>The address of a socket has a bracket or exactly one colon.\<close>

lemma show_addr_shape: "hd (show_addr a) = 91 \<or> (\<exists>x y. show_addr a = x @ 58 # y \<and> 58 \<notin> set x \<and> 58 \<notin> set y)"
  using show_ipv4_no_colon dec_shape by (cases "sa_ip a") (auto simp: show_addr_def)

text \<open>A colon in front of the last one and no bracket: no socket address is written like that.\<close>

lemma bare_ipv6_no_addr:
  assumes "58 \<in> set host" and "hd host \<noteq> 91"
  shows "host @ [58] @ ds \<noteq> show_addr a"
proof
  assume e: "host @ [58] @ ds = show_addr a"
  have "hd (show_addr a) \<noteq> 91" unfolding e [symmetric] using assms by (cases host) auto
  then obtain x y where a: "show_addr a = x @ 58 # y" "58 \<notin> set x" "58 \<notin> set y" using show_addr_shape by blast
  obtain p q where h: "host = p @ 58 # q" using assms(1) by (meson split_list)
  have "filter (\<lambda>b. b = 58) (host @ [58] @ ds) = filter (\<lambda>b. b = 58) (x @ 58 # y)" using e a by simp
  moreover have "filter (\<lambda>b. b = 58) x = []" "filter (\<lambda>b. b = 58) y = []" using a by (auto simp: filter_empty_conv)
  ultimately show False using h by simp
qed

text \<open>Android gives the gateway of a Wi-Fi network with its first byte lowest.\<close>

definition dhcp_gateway :: "u8 \<Rightarrow> u8 \<Rightarrow> u8 \<Rightarrow> u8 \<Rightarrow> i32" where
  "dhcp_gateway a b c d = ucast a OR push_bit 8 (ucast b) OR push_bit 16 (ucast c) OR push_bit 24 (ucast d)"

lemma mask_8: "(0xFF :: i32) = mask 8"
  by (simp add: mask_eq_exp_minus_1)

lemma dhcp_gateway_bytes:
  "dhcp_gateway a b c d AND 0xFF = ucast a" "signed_drop_bit 8 (dhcp_gateway a b c d) AND 0xFF = ucast b"
  "signed_drop_bit 16 (dhcp_gateway a b c d) AND 0xFF = ucast c" "signed_drop_bit 24 (dhcp_gateway a b c d) AND 0xFF = ucast d"
proof -
  have z: "\<not> bit (x :: u8) n" if "8 \<le> n" for x n using that bit_imp_le_length [of x n] by auto
  show "dhcp_gateway a b c d AND 0xFF = ucast a" "signed_drop_bit 8 (dhcp_gateway a b c d) AND 0xFF = ucast b"
    "signed_drop_bit 16 (dhcp_gateway a b c d) AND 0xFF = ucast c" "signed_drop_bit 24 (dhcp_gateway a b c d) AND 0xFF = ucast d"
    unfolding mask_8 dhcp_gateway_def
    by (rule bit_word_eqI; auto simp: bit_simps bit_signed_drop_bit_iff z not_less not_le min_def max_def
        split: if_splits dest: bit_imp_le_length)+
qed

lemma intToIp_gateway: "intToIp (dhcp_gateway a b c d) = show_ipv4 (Ipv4Addr a b c d)"
proof -
  have "sint (ucast x :: i32) = int (unat x)" for x :: u8
  proof -
    have "signed_take_bit 31 (uint x) = uint x"
      using uint_lt2p [of x] by (intro signed_take_bit_int_eq_self order_trans [OF _ uint_ge_0 [of x]]) simp_all
    then show ?thesis by (simp add: sint_uint uint_up_ucast is_up uint_nat [symmetric])
  qed
  then show ?thesis by (simp add: intToIp_def dhcp_gateway_bytes show_int_def show_ipv4_def)
qed



end
