(* ===== verification/App_Settings.thy ===== *)
theory App_Settings
  imports Userspace_Stack Text
begin

text \<open>
  The settings of the application: \<open>AppSettings.kt\<close>, \<open>SettingsRepository.kt\<close> and
  \<open>SettingsViewModel.kt\<close>. The DataStore belongs to AndroidX: its content is the record \<open>Preferences\<close>, and
  what is used of it is that an edit is one step and edits are done in the order they were asked for. The
  coroutines of the view model run between the user's actions, so a run is a sequence of both.
\<close>

section \<open>Stored settings\<close>

record AppSettings =
  as_dnsServer :: bytes
  as_mtu :: int
  as_mcpEndpointEnabled :: bool

record Preferences =
  KEY_DNS :: "bytes option"
  KEY_MTU :: "int option"
  KEY_MCP :: "bool option"

definition no_preferences :: Preferences where
  "no_preferences = \<lparr>KEY_DNS = None, KEY_MTU = None, KEY_MCP = None\<rparr>"

definition repository_settings :: "Preferences \<Rightarrow> AppSettings" where
  "repository_settings p =
     \<lparr>as_dnsServer = (case KEY_DNS p of Some d \<Rightarrow> d | None \<Rightarrow> ascii ''1.1.1.1''),
      as_mtu = (case KEY_MTU p of Some m \<Rightarrow> m | None \<Rightarrow> 1280),
      as_mcpEndpointEnabled = (case KEY_MCP p of Some b \<Rightarrow> b | None \<Rightarrow> False)\<rparr>"

definition repository_save :: "AppSettings \<Rightarrow> Preferences \<Rightarrow> Preferences" where
  "repository_save s p =
     p\<lparr>KEY_DNS := Some (as_dnsServer s), KEY_MTU := Some (as_mtu s), KEY_MCP := Some (as_mcpEndpointEnabled s)\<rparr>"

section \<open>The screen\<close>

record SettingsUiState =
  su_dnsServer :: bytes
  su_mtu :: int
  su_mcpEndpointEnabled :: bool
  su_isDirty :: bool
  su_savedEvent :: bool

definition SettingsUiState_default :: SettingsUiState where
  "SettingsUiState_default =
     \<lparr>su_dnsServer = ascii ''1.1.1.1'', su_mtu = 1280, su_mcpEndpointEnabled = False, su_isDirty = False, su_savedEvent = False\<rparr>"

definition coerceIn :: "int \<Rightarrow> int \<Rightarrow> int \<Rightarrow> int" where
  "coerceIn lo hi v = (if v < lo then lo else if v > hi then hi else v)"

definition loaded :: "AppSettings \<Rightarrow> SettingsUiState" where
  "loaded s = SettingsUiState_default\<lparr>su_dnsServer := as_dnsServer s, su_mtu := as_mtu s,
     su_mcpEndpointEnabled := as_mcpEndpointEnabled s\<rparr>"

definition onDnsChanged :: "bytes \<Rightarrow> SettingsUiState \<Rightarrow> SettingsUiState" where
  "onDnsChanged v u = u\<lparr>su_dnsServer := v, su_isDirty := True, su_savedEvent := False\<rparr>"

definition onMtuChanged :: "int \<Rightarrow> SettingsUiState \<Rightarrow> SettingsUiState" where
  "onMtuChanged v u = u\<lparr>su_mtu := coerceIn 576 9000 v, su_isDirty := True, su_savedEvent := False\<rparr>"

definition onMcpToggled :: "bool \<Rightarrow> SettingsUiState \<Rightarrow> SettingsUiState" where
  "onMcpToggled b u = u\<lparr>su_mcpEndpointEnabled := b, su_isDirty := True, su_savedEvent := False\<rparr>"

definition consumeSavedEvent :: "SettingsUiState \<Rightarrow> SettingsUiState" where
  "consumeSavedEvent u = u\<lparr>su_savedEvent := False\<rparr>"

definition shown_settings :: "SettingsUiState \<Rightarrow> AppSettings" where
  "shown_settings u =
     \<lparr>as_dnsServer = su_dnsServer u, as_mtu = su_mtu u, as_mcpEndpointEnabled = su_mcpEndpointEnabled u\<rparr>"

text \<open>The view model and the store: whether the first load is still to come, the edits asked for and the
  finished edits the screen does not show yet.\<close>

record settings_sys =
  ss_ui :: SettingsUiState
  ss_prefs :: Preferences
  ss_loading :: bool
  ss_saves :: "AppSettings list"
  ss_saved :: nat

datatype settings_event =
    Loaded | DnsChanged bytes | MtuChanged int | McpToggled bool | Save | SaveWritten | SaveShown | SavedConsumed

fun settings_step :: "settings_event \<Rightarrow> settings_sys \<Rightarrow> settings_sys" where
  "settings_step Loaded s =
     (if ss_loading s then s\<lparr>ss_ui := loaded (repository_settings (ss_prefs s)), ss_loading := False\<rparr> else s)"
| "settings_step (DnsChanged v) s = s\<lparr>ss_ui := onDnsChanged v (ss_ui s)\<rparr>"
| "settings_step (MtuChanged v) s = s\<lparr>ss_ui := onMtuChanged v (ss_ui s)\<rparr>"
| "settings_step (McpToggled b) s = s\<lparr>ss_ui := onMcpToggled b (ss_ui s)\<rparr>"
| "settings_step Save s = s\<lparr>ss_saves := ss_saves s @ [shown_settings (ss_ui s)]\<rparr>"
| "settings_step SaveWritten s =
     (case ss_saves s of
        [] \<Rightarrow> s
      | x # xs \<Rightarrow> s\<lparr>ss_prefs := repository_save x (ss_prefs s), ss_saves := xs, ss_saved := Suc (ss_saved s)\<rparr>)"
| "settings_step SaveShown s =
     (case ss_saved s of
        0 \<Rightarrow> s
      | Suc n \<Rightarrow> s\<lparr>ss_ui := (ss_ui s)\<lparr>su_isDirty := False, su_savedEvent := True\<rparr>, ss_saved := n\<rparr>)"
| "settings_step SavedConsumed s = s\<lparr>ss_ui := consumeSavedEvent (ss_ui s)\<rparr>"

definition settings_open :: "Preferences \<Rightarrow> settings_sys" where
  "settings_open p = \<lparr>ss_ui = SettingsUiState_default, ss_prefs = p, ss_loading = True, ss_saves = [], ss_saved = 0\<rparr>"

section \<open>What is stored\<close>

lemma repository_roundtrip: "repository_settings (repository_save s p) = s"
  by (simp add: repository_settings_def repository_save_def)

definition mtu_ok :: "int \<Rightarrow> bool" where
  "mtu_ok m \<longleftrightarrow> 576 \<le> m \<and> m \<le> 9000"

definition settings_inv :: "settings_sys \<Rightarrow> bool" where
  "settings_inv s \<longleftrightarrow> mtu_ok (su_mtu (ss_ui s)) \<and> mtu_ok (as_mtu (repository_settings (ss_prefs s))) \<and>
     (\<forall>x \<in> set (ss_saves s). mtu_ok (as_mtu x))"

lemma settings_step_inv: "settings_inv s \<Longrightarrow> settings_inv (settings_step ev s)"
  by (cases ev)
    (auto simp: settings_inv_def loaded_def onDnsChanged_def onMtuChanged_def onMcpToggled_def consumeSavedEvent_def
      shown_settings_def mtu_ok_def coerceIn_def repository_roundtrip split: list.splits nat.splits)

lemma settings_run_inv: "settings_inv s \<Longrightarrow> settings_inv (fold settings_step evs s)"
  by (induction evs arbitrary: s) (auto simp: settings_step_inv)

lemma mtu_ok_accepted:
  assumes "mtu_ok m"
  shows "UserspaceStack_new net (word_of_int m) = Inr (Inner_new net (word_of_int m))" and "unat (word_of_int m :: u16) = nat m"
proof -
  have "uint (word_of_int m :: u16) = m" using assms by (simp add: mtu_ok_def uint_word_of_int)
  then show "UserspaceStack_new net (word_of_int m) = Inr (Inner_new net (word_of_int m))"
    and "unat (word_of_int m :: u16) = nat m"
    using assms by (simp_all add: UserspaceStack_new_def mtu_ok_def word_less_def unat_eq_nat_uint)
qed

lemma new_stack_mtu: "UserspaceStack_mtu (Inner_new net mtu) = mtu"
  by (simp add: UserspaceStack_mtu_def TunVirtualDevice_capabilities_def Inner_new_def TunVirtualDevice_new_def)



end
