(* ===== verification/App_Services.thy ===== *)
theory App_Services
  imports App_Network App_Settings
begin

text \<open>
  The Android services and view models around the session manager: \<open>GravitalVpnService.kt\<close>,
  \<open>GravitalServerService.kt\<close>, \<open>HomeViewModel.kt\<close>, \<open>DiagnosticViewModel.kt\<close> and \<open>GravitalShareApp.kt\<close>.
  A service is a record with the coroutines it has launched and that have not run yet; what
  \<open>VpnService.Builder\<close> makes of an address is the parameter \<open>establish\<close>.
\<close>

section \<open>The VPN service\<close>

datatype vpn_action = VPN_START "bytes option" | VPN_STOP | VPN_OTHER

datatype vpn_job = VpnStart bytes | VpnStop

text \<open>\<open>vs_active\<close> is the proxy the notification names as active.\<close>

record VpnService =
  vs_tunFd :: i32
  vs_jobs :: "vpn_job list"
  vs_foreground :: bool
  vs_active :: "bytes option"
  vs_stopSelf :: bool

definition VpnService_new :: VpnService where
  "VpnService_new = \<lparr>vs_tunFd = -1, vs_jobs = [], vs_foreground = False, vs_active = None, vs_stopSelf = False\<rparr>"

definition startVpn :: "bytes option \<Rightarrow> VpnService \<Rightarrow> VpnService" where
  "startVpn extra s =
     (let proxyAddr = (case extra of Some p \<Rightarrow> p | None \<Rightarrow> ascii ''192.168.43.1:1080'')
      in s\<lparr>vs_foreground := True, vs_active := None, vs_jobs := vs_jobs s @ [VpnStart proxyAddr]\<rparr>)"

definition stopVpn :: "VpnService \<Rightarrow> VpnService" where
  "stopVpn s =
     s\<lparr>vs_jobs := vs_jobs s @ [VpnStop], vs_tunFd := (if 0 \<le> sint (vs_tunFd s) then -1 else vs_tunFd s),
       vs_foreground := False, vs_stopSelf := True\<rparr>"

definition vpn_onStartCommand :: "vpn_action \<Rightarrow> VpnService \<Rightarrow> VpnService" where
  "vpn_onStartCommand action s =
     (case action of VPN_START extra \<Rightarrow> startVpn extra s | VPN_STOP \<Rightarrow> stopVpn s | VPN_OTHER \<Rightarrow> s)"

definition vpn_onRevoke :: "VpnService \<Rightarrow> VpnService" where
  "vpn_onRevoke = stopVpn"

text \<open>\<open>scope.cancel()\<close>: what has not run never will.\<close>

definition vpn_onDestroy :: "VpnService \<Rightarrow> VpnService" where
  "vpn_onDestroy s = s\<lparr>vs_jobs := []\<rparr>"

text \<open>One launched coroutine. \<open>establish\<close> gives the descriptor, or \<open>None\<close> if there is no permission.\<close>

fun vpn_job_run :: "(bytes \<Rightarrow> int \<Rightarrow> i32 option) \<Rightarrow> Preferences \<Rightarrow> vpn_job \<Rightarrow> VpnService \<times> app \<Rightarrow> VpnService \<times> app" where
  "vpn_job_run establish prefs (VpnStart proxyAddr) (s, a) =
     (let settings = repository_settings prefs
      in case establish (as_dnsServer settings) (as_mtu settings) of
           None \<Rightarrow> (s\<lparr>vs_stopSelf := True\<rparr>, a)
         | Some fd \<Rightarrow> (s\<lparr>vs_tunFd := fd, vs_active := Some proxyAddr\<rparr>,
             SessionManager_startClient fd proxyAddr (as_mtu settings) (as_dnsServer settings) a))"
| "vpn_job_run establish prefs VpnStop (s, a) = (s, SessionManager_stop a)"

definition vpn_run_job :: "(bytes \<Rightarrow> int \<Rightarrow> i32 option) \<Rightarrow> Preferences \<Rightarrow> VpnService \<times> app \<Rightarrow> VpnService \<times> app" where
  "vpn_run_job establish prefs sa =
     (case vs_jobs (fst sa) of [] \<Rightarrow> sa | j # js \<Rightarrow> vpn_job_run establish prefs j ((fst sa)\<lparr>vs_jobs := js\<rparr>, snd sa))"

section \<open>The server service\<close>

datatype server_action = SERVER_START "bytes option" "bytes option" | SERVER_STOP | SERVER_OTHER

datatype server_job = ServerStartJob bytes bytes | ServerStopJob

record ServerService =
  gs_jobs :: "server_job list"
  gs_foreground :: bool
  gs_stopSelf :: bool

definition server_onStartCommand :: "server_action \<Rightarrow> ServerService \<Rightarrow> ServerService" where
  "server_onStartCommand action s =
     (case action of
        SERVER_START socks http \<Rightarrow>
          s\<lparr>gs_foreground := True,
            gs_jobs := gs_jobs s @ [ServerStartJob (case socks of Some a \<Rightarrow> a | None \<Rightarrow> ascii ''0.0.0.0:1080'')
              (case http of Some a \<Rightarrow> a | None \<Rightarrow> ascii ''0.0.0.0:8080'')]\<rparr>
      | SERVER_STOP \<Rightarrow> s\<lparr>gs_jobs := gs_jobs s @ [ServerStopJob], gs_foreground := False, gs_stopSelf := True\<rparr>
      | SERVER_OTHER \<Rightarrow> s)"

definition server_onDestroy :: "ServerService \<Rightarrow> ServerService" where
  "server_onDestroy s = s\<lparr>gs_jobs := []\<rparr>"

fun server_job_run :: "server_job \<Rightarrow> app \<Rightarrow> app" where
  "server_job_run (ServerStartJob socks http) a = SessionManager_startServer socks http a"
| "server_job_run ServerStopJob a = SessionManager_stop a"

definition server_run_job :: "ServerService \<times> app \<Rightarrow> ServerService \<times> app" where
  "server_run_job sa =
     (case gs_jobs (fst sa) of [] \<Rightarrow> sa | j # js \<Rightarrow> ((fst sa)\<lparr>gs_jobs := js\<rparr>, server_job_run j (snd sa)))"

section \<open>What both services promise\<close>

text \<open>Both services leave the call of the session manager to a coroutine. In time it is a stop like any
  other; after the service is destroyed it never happens.\<close>

locale session_service =
  fixes stop :: "'s \<Rightarrow> 's"
    and destroy :: "'s \<Rightarrow> 's"
    and jobs :: "'s \<Rightarrow> 'j list"
    and run_job :: "'s \<times> app \<Rightarrow> 's \<times> app"
  assumes stop_job: "jobs s = [] \<Longrightarrow> snd (run_job (stop s, a)) = SessionManager_stop a"
    and destroy_jobs: "jobs (destroy s) = []"
    and no_job: "jobs s = [] \<Longrightarrow> run_job (s, a) = (s, a)"
begin

lemma stop_told:
  "jobs s = [] \<Longrightarrow> app_run f rt (tl disconnect_run) (snd (run_job (stop s, a))) = app_run f rt disconnect_run a"
  by (simp add: stop_job disconnect_run_def)

lemma stop_lost: "run_job (destroy (stop s), a) = (destroy (stop s), a)"
  by (simp add: no_job destroy_jobs)

end

interpretation vpn: session_service "vpn_onStartCommand VPN_STOP" vpn_onDestroy vs_jobs "vpn_run_job establish prefs"
  by unfold_locales (simp_all add: vpn_onStartCommand_def stopVpn_def vpn_onDestroy_def vpn_run_job_def)

interpretation srv: session_service "server_onStartCommand SERVER_STOP" server_onDestroy gs_jobs server_run_job
  by unfold_locales (simp_all add: server_onStartCommand_def server_onDestroy_def server_run_job_def)

section \<open>The home screen\<close>

record HomeUiState =
  hu_mode :: AppMode
  hu_sessionState :: AppState
  hu_throughputBps :: int
  hu_connectedClients :: int
  hu_discovering :: bool
  hu_discoveryError :: bool

text \<open>The search for a server: the flags of \<open>Discovery\<close>, whether its job runs, and the proxies for which
  the permission has been asked. The text of the error is fixed; the flag tells whether there is one.\<close>

record HomeViewModel =
  hv_discovering :: bool
  hv_error :: bool
  hv_job :: bool
  hv_requests :: "bytes list"

definition home_uiState :: "SessionManager \<Rightarrow> HomeViewModel \<Rightarrow> HomeUiState" where
  "home_uiState m h =
     \<lparr>hu_mode = sm_mode m, hu_sessionState = sm_state m, hu_throughputBps = sm_throughput m,
      hu_connectedClients = sm_clientCount m, hu_discovering = hv_discovering h, hu_discoveryError = hv_error h\<rparr>"

definition startClientMode :: "HomeViewModel \<Rightarrow> HomeViewModel" where
  "startClientMode h = h\<lparr>hv_job := True, hv_discovering := True, hv_error := False\<rparr>"

text \<open>The search is over, if it has not been cancelled.\<close>

definition discovery_done :: "ProxyInfo option \<Rightarrow> HomeViewModel \<Rightarrow> HomeViewModel" where
  "discovery_done proxy h =
     (if \<not> hv_job h then h
      else case proxy of
        None \<Rightarrow> h\<lparr>hv_job := False, hv_discovering := False, hv_error := True\<rparr>
      | Some p \<Rightarrow> h\<lparr>hv_job := False, hv_discovering := False, hv_error := False,
          hv_requests := hv_requests h @ [ProxyInfo_toString p]\<rparr>)"

definition cancelDiscovery :: "HomeViewModel \<Rightarrow> HomeViewModel" where
  "cancelDiscovery h = h\<lparr>hv_job := False, hv_discovering := False, hv_error := False\<rparr>"

definition dismissDiscoveryError :: "HomeViewModel \<Rightarrow> HomeViewModel" where
  "dismissDiscoveryError h = h\<lparr>hv_discovering := False, hv_error := False\<rparr>"

definition home_connectFromQr :: "bytes \<Rightarrow> HomeViewModel \<Rightarrow> HomeViewModel" where
  "home_connectFromQr scanned h =
     (case connectFromQr scanned of
        None \<Rightarrow> h
      | Some p \<Rightarrow> h\<lparr>hv_discovering := False, hv_error := False, hv_requests := hv_requests h @ [p]\<rparr>)"

definition connectWithProxy :: "bytes \<Rightarrow> VpnService \<Rightarrow> VpnService" where
  "connectWithProxy proxyAddr = vpn_onStartCommand (VPN_START (Some proxyAddr))"

definition startServerMode :: "ServerService \<Rightarrow> ServerService" where
  "startServerMode = server_onStartCommand (SERVER_START None None)"

text \<open>\<open>stop\<close> tells the session manager and, for a connected server, the server service, whose coroutine
  tells the session manager again.\<close>

definition home_stop :: "ServerService \<times> app \<Rightarrow> ServerService \<times> app" where
  "home_stop sa =
     (case sa of (s, a) \<Rightarrow>
        (case sm_state (ap_mgr a) of AppConnected SERVER _ \<Rightarrow> server_onStartCommand SERVER_STOP s | _ \<Rightarrow> s,
         SessionManager_stop a))"

text \<open>A search ends with a request for the proxy found, or with an error; a cancelled one ends with neither.
  A scanned text that is no address is passed over without a message.\<close>

lemma home_requests:
  "hv_requests (discovery_done r (startClientMode h)) =
     hv_requests h @ (case r of Some p \<Rightarrow> [ProxyInfo_toString p] | None \<Rightarrow> [])"
  "hv_error (discovery_done r (startClientMode h)) \<longleftrightarrow> r = None" "\<not> hv_discovering (discovery_done r (startClientMode h))"
  "discovery_done r (cancelDiscovery h) = cancelDiscovery h"
  "home_connectFromQr (show_addr a) h = dismissDiscoveryError (h\<lparr>hv_requests := hv_requests h @ [show_addr a]\<rparr>)"
  "58 \<notin> set scanned \<Longrightarrow> home_connectFromQr scanned h = h"
  by (simp_all add: discovery_done_def startClientMode_def cancelDiscovery_def home_connectFromQr_def connectFromQr_show_addr
      dismissDiscoveryError_def split: option.splits) (simp add: connectFromQr_def rfind_None [THEN iffD2])

section \<open>The diagnostic screen and the start of the application\<close>

definition takeLast :: "nat \<Rightarrow> 'a list \<Rightarrow> 'a list" where
  "takeLast n xs = drop (length xs - n) xs"

definition log_event :: "bytes \<Rightarrow> bytes list \<Rightarrow> bytes list" where
  "log_event ev ls = takeLast 500 (ls @ [ev])"

definition clearLogs :: "bytes list \<Rightarrow> bytes list" where
  "clearLogs ls = []"

fun state_name :: "AppState \<Rightarrow> bytes" where
  "state_name AppIdle = ascii ''Idle''"
| "state_name (AppPreparing _) = ascii ''Preparing''"
| "state_name (AppConnecting _ _) = ascii ''Connecting''"
| "state_name (AppConnected _ _) = ascii ''Connected''"
| "state_name (AppReconnecting _ _ _) = ascii ''Reconnecting''"
| "state_name (AppStopping _) = ascii ''Stopping''"
| "state_name (AppFailed _ _ _) = ascii ''Failed''"

fun mode_name :: "AppMode \<Rightarrow> bytes" where
  "mode_name IDLE = ascii ''IDLE''"
| "mode_name CLIENT = ascii ''CLIENT''"
| "mode_name SERVER = ascii ''SERVER''"

definition buildMetrics :: "SessionManager \<Rightarrow> bytes list \<Rightarrow> (bytes \<times> bytes) list" where
  "buildMetrics m ls =
     [(ascii ''Estado'', state_name (sm_state m)), (ascii ''Modo'', mode_name (sm_mode m)), (ascii ''Eventos'', dec (length ls))]"

definition exported_text :: "bytes list \<Rightarrow> bytes" where
  "exported_text ls =
     (let text = (case ls of [] \<Rightarrow> [] | x # xs \<Rightarrow> x @ concat (map (\<lambda>y. 10 # y) xs))
      in if text = [] then ascii ''(sin eventos)'' else text)"

definition FFI_VERSION_EXPECTED :: i32 where
  "FFI_VERSION_EXPECTED = 1"

text \<open>Whether the application reports that it has started.\<close>

definition app_onCreate :: "i32 \<Rightarrow> bool" where
  "app_onCreate ffiVersion = (ffiVersion = FFI_VERSION_EXPECTED)"

text \<open>The versions compiled into the two sides agree, and the log keeps the latest 500 events.\<close>

lemma ffi_versions_agree: "app_onCreate jni_ffiVersion"
  by (simp add: app_onCreate_def FFI_VERSION_EXPECTED_def jni_ffiVersion_def FFI_VERSION_def)

lemma takeLast_takeLast: "takeLast n (takeLast n xs @ [x]) = takeLast n (xs @ [x])"
  by (cases "length xs \<le> n") (auto simp: takeLast_def Suc_diff_le)

lemma log_keeps_latest: "fold log_event evs [] = takeLast 500 evs"
proof (induction evs rule: rev_induct)
  case (snoc e evs)
  then show ?case by (simp add: log_event_def takeLast_takeLast)
qed (simp add: takeLast_def)

section \<open>From an intent to a session and back\<close>

text \<open>An intent becomes a running client with the user's settings. The service is told to start with
  the address of a proxy; its coroutine takes the stored settings, gets a TUN descriptor and starts the
  session. If each event is shown before the next step, the application ends connected to that proxy,
  and so does the engine, whose task has the descriptor and the stored MTU. The only thing asked of
  \<open>serde_json\<close> is that it reads the fields of the text the application writes. Any MTU that the settings
  screen can store will do.\<close>

lemma vpn_start_connects:
  assumes "app_ready e a" and "ap_cos a = []" and "at_rest e" and "e_callback e = Some fire_jvm_event"
    and "vs_jobs s = []" and "repository_settings prefs = \<lparr>as_dnsServer = dns, as_mtu = mtu, as_mcpEndpointEnabled = mcp\<rparr>"
    and "mtu_ok mtu" and "establish dns mtu = Some fd" and "0 \<le> sint fd"
    and "from_str (client_config (show_addr proxy) mtu dns) =
      Some (ClientCfg (ClientConfig_of_fields proxy (Some (word_of_int mtu)) (Some dns_ip) None))"
  shows "\<exists>s' a' b e'. vpn_run_job establish prefs (vpn_onStartCommand (VPN_START (Some (show_addr proxy))) s, a) = (s', a') \<and>
     vs_tunFd s' = fd \<and> vs_active s' = Some (show_addr proxy) \<and>
     app_run from_str rt (tl (connect_run fd (show_addr proxy) mtu dns) @ TaskBegin 0 True # deliver_event 0) a' = Some b \<and>
     sm_state (ap_mgr b) = AppConnected CLIENT (show_addr proxy) \<and> sm_mode (ap_mgr b) = CLIENT \<and>
     engine_shows b (Connected Client (PeerInfo proxy)) \<and> quiescent b \<and>
     j_instance (ap_jni b) = Some e' \<and> map t_fd (e_tasks e') = [fd] \<and> map (int \<circ> unat \<circ> t_mtu) (e_tasks e') = [mtu]"
proof -
  let ?p = "show_addr proxy" and ?cfg = "ClientConfig_of_fields proxy (Some (word_of_int mtu)) (Some dns_ip) None"
  have cfg: "effective_config from_str (client_config ?p mtu dns) = ?cfg" using assms(10) by (simp add: effective_config_def)
  have c: "cfg_proxy_addr ?cfg = proxy" "cfg_mtu ?cfg = word_of_int mtu" by (simp_all add: ClientConfig_of_fields_def)
  have m: "576 \<le> cfg_mtu ?cfg" "cfg_mtu ?cfg \<le> 9000"
    unfolding c(2) using mtu_ok_accepted(1) [OF assms(7), of "()"] by (auto simp: UserspaceStack_new_def split: if_splits)
  obtain e1 b1 log where b1: "app_run from_str rt (connect_run fd ?p mtu dns) a = Some b1" "app_ready e1 b1" "ap_cos b1 = []"
      "sm_state (ap_mgr b1) = AppConnecting CLIENT 1" "sm_mode (ap_mgr b1) = CLIENT"
    and r1: "client_run fire_jvm_event fd ?cfg (e_version e) (e_version e) (Connecting Client 1) Spawned log e1"
    unfolding cfg [symmetric] by (rule connect_runs [OF assms(1-4,9)])
  obtain b where b: "app_run from_str rt (TaskBegin 0 True # deliver_event 0) b1 = Some b" "app_ready (task_begin 0 True e1) b"
      "quiescent b" "sm_state (ap_mgr b) = AppConnected (current_mode (ap_mgr b1)) (show_addr (cfg_proxy_addr ?cfg))"
      "sm_mode (ap_mgr b) = sm_mode (ap_mgr b1)" "engine_shows b (Connected Client (PeerInfo (cfg_proxy_addr ?cfg)))"
    and r2: "client_run fire_jvm_event fd ?cfg (e_version e) (e_version e) (Connected Client (PeerInfo (cfg_proxy_addr ?cfg))) Running
      (log @ [(fire_jvm_event, session_state_to_json (Connected Client (PeerInfo (cfg_proxy_addr ?cfg))))]) (task_begin 0 True e1)"
    by (rule begin_shown [OF b1(2,3) r1 m])
  let ?a = "SessionManager_startClient fd ?p mtu dns a"
  have "app_run from_str rt (tl (connect_run fd ?p mtu dns)) ?a = Some b1"
    using b1(1) by (simp add: connect_run_def)
  then have run: "app_run from_str rt (tl (connect_run fd ?p mtu dns) @ TaskBegin 0 True # deliver_event 0) ?a = Some b"
    unfolding app_run_append using b(1) by simp
  have task: "j_instance (ap_jni b) = Some (task_begin 0 True e1)" "map t_fd (e_tasks (task_begin 0 True e1)) = [fd]"
      "map (int \<circ> unat \<circ> t_mtu) (e_tasks (task_begin 0 True e1)) = [mtu]"
    using b(2) r2 mtu_ok_accepted(2) [OF assms(7)] assms(7) by (simp_all add: app_ready_def client_run_def c(2) mtu_ok_def)
  let ?s = "(startVpn (Some ?p) s)\<lparr>vs_jobs := [], vs_tunFd := fd, vs_active := Some ?p\<rparr>"
  have job: "vpn_run_job establish prefs (vpn_onStartCommand (VPN_START (Some ?p)) s, a) = (?s, ?a)"
    using assms(5,6,8) by (simp add: vpn_run_job_def vpn_onStartCommand_def startVpn_def Let_def)
  show ?thesis
    using job run task b(3-6) b1(4,5) c(1)
    by (intro exI [of _ ?s] exI [of _ ?a] exI [of _ b] exI [of _ "task_begin 0 True e1"] conjI) (simp_all add: current_mode_def)
qed



text \<open>C29: stopping works only if the service lives long enough. While a client is connected, the VPN
  service is told to stop, or loses its permission. It leaves the foreground and asks to be destroyed at
  once; the call of the session manager is left to a coroutine. If that runs, both the application and
  the engine become idle. If the service is destroyed first, the coroutine is cancelled: the session
  manager is never told, the engine stays connected, and the service has forgotten the descriptor. The
  server service loses a stop in the same way.\<close>

theorem vpn_stop_needs_time:
  assumes "app_ready e a" and "ap_cos a = []" and "client_run fire_jvm_event fd cfg v v (Connected Client p) Running log e"
    and "vs_jobs s = []" and "gs_jobs t = []"
  shows "vpn_onRevoke s = vpn_onStartCommand VPN_STOP s \<and> sint (vs_tunFd (vpn_onStartCommand VPN_STOP s)) < 0 \<and>
     \<not> vs_foreground (vpn_onStartCommand VPN_STOP s) \<and>
     (\<exists>b. app_run from_str rt (tl disconnect_run) (snd (vpn_run_job establish prefs (vpn_onStartCommand VPN_STOP s, a))) = Some b \<and>
        sm_state (ap_mgr b) = AppIdle \<and> engine_shows b Idle \<and> quiescent b) \<and>
     snd (vpn_run_job establish prefs (vpn_onDestroy (vpn_onStartCommand VPN_STOP s), a)) = a \<and>
     engine_shows a (Connected Client p) \<and> quiescent a \<and>
     snd (server_run_job (server_onStartCommand SERVER_STOP t, a)) = SessionManager_stop a \<and>
     snd (server_run_job (server_onDestroy (server_onStartCommand SERVER_STOP t), a)) = a"
proof -
  obtain b where b: "app_run from_str rt disconnect_run a = Some b" "sm_state (ap_mgr b) = AppIdle" "engine_shows b Idle" "quiescent b"
    by (rule disconnect_runs [OF assms(1-3)])
  have "engine_shows a (Connected Client p)" and "quiescent a"
    using assms(1-3) task_waits_for_signal [OF assms(3)]
    by (auto simp: engine_shows_def quiescent_def app_ready_def client_run_def Session_state_def)
  moreover have "sint (vs_tunFd (vpn_onStartCommand VPN_STOP s)) < 0" and "\<not> vs_foreground (vpn_onStartCommand VPN_STOP s)"
    and "vpn_onRevoke s = vpn_onStartCommand VPN_STOP s"
    by (simp_all add: vpn_onRevoke_def vpn_onStartCommand_def stopVpn_def)
  ultimately show ?thesis
    using b vpn.stop_told [OF assms(4), of from_str rt establish prefs a] srv.stop_job [OF assms(5), of a]
    by (simp add: vpn.stop_lost srv.stop_lost)
qed

theorem vpn_stop_needs_time_witness:
  "\<exists>a. engine_shows a (Connected Client (PeerInfo demo_proxy)) \<and>
     (\<exists>b. app_run demo_from_str True (tl disconnect_run)
          (snd (vpn_run_job (\<lambda>_ _. None) no_preferences (vpn_onStartCommand VPN_STOP (VpnService_new\<lparr>vs_tunFd := 3\<rparr>), a))) = Some b \<and>
        engine_shows b Idle)"
proof -
  let ?cfg = "ClientConfig_of_fields demo_proxy (Some 1400) (Some (V4 (Ipv4Addr 9 9 9 9))) None"
  let ?t = "client_config (show_addr demo_proxy) 1400 (ascii ''9.9.9.9'')"
  have fd: "0 \<le> sint (3 :: i32)" by simp
  have m: "576 \<le> cfg_mtu ?cfg" "cfg_mtu ?cfg \<le> 9000" and p: "cfg_proxy_addr ?cfg = demo_proxy"
    by (simp_all add: ClientConfig_of_fields_def)
  obtain e1 b1 log where b1: "app_ready e1 b1" "ap_cos b1 = []"
    and r1: "client_run fire_jvm_event 3 ?cfg (e_version demo_engine) (e_version demo_engine) (Connecting Client 1) Spawned log e1"
    unfolding demo_config [symmetric] by (rule connect_runs [OF demo_app_ready fd, of demo_from_str True "show_addr demo_proxy" 1400 "ascii ''9.9.9.9''"])
  obtain a where a: "app_ready (task_begin 0 True e1) a" "quiescent a"
    and r2: "client_run fire_jvm_event 3 ?cfg (e_version demo_engine) (e_version demo_engine) (Connected Client (PeerInfo (cfg_proxy_addr ?cfg)))
      Running (log @ [(fire_jvm_event, session_state_to_json (Connected Client (PeerInfo (cfg_proxy_addr ?cfg))))]) (task_begin 0 True e1)"
    by (rule begin_shown [OF b1 r1 m, of demo_from_str True])
  have c: "ap_cos a = []" using a(2) by (simp add: quiescent_def)
  have j: "vs_jobs (VpnService_new\<lparr>vs_tunFd := 3\<rparr>) = []" by (simp add: VpnService_new_def)
  have g: "gs_jobs \<lparr>gs_jobs = [], gs_foreground = True, gs_stopSelf = False\<rparr> = []" by simp
  from vpn_stop_needs_time [OF a(1) c r2 j g, of demo_from_str True "\<lambda>_ _. None" no_preferences, unfolded p] show ?thesis by blast
qed

text \<open>A connected server is stopped twice.\<close>

lemma server_stopped_twice:
  assumes "sm_state (ap_mgr a) = AppConnected SERVER p" and "ap_cos a = []" and "gs_jobs s = []"
  shows "\<exists>s' a'. home_stop (s, a) = (s', a') \<and> gs_jobs s' = [ServerStopJob] \<and>
     ap_cos (server_job_run ServerStopJob a') = [StopMark, StopMark]"
  using assms by (simp add: home_stop_def server_onStartCommand_def SessionManager_stop_def launch_def)

end
