(* ===== verification/App_Screens.thy ===== *)
theory App_Screens
  imports App_Services
begin

text \<open>
  The logic of the screens: \<open>HomeScreen.kt\<close>, \<open>SettingsScreen.kt\<close> and \<open>DiagnosticScreen.kt\<close>. What Compose
  draws is left out; what a screen shows and offers is a function of the state of its view model, and
  what a tap does is a step of the whole application. A screen is drawn from the current state. Texts are
  UTF-8; cutting and capitalising them is modelled for ASCII, which the events of the engine are.
\<close>

section \<open>What the home screen shows\<close>

datatype status_color = StatusGray | StatusAmber | StatusGreen | StatusOrange | StatusRed

fun orbColor :: "AppState \<Rightarrow> status_color" where
  "orbColor AppIdle = StatusGray"
| "orbColor (AppPreparing _) = StatusAmber"
| "orbColor (AppConnecting _ _) = StatusAmber"
| "orbColor (AppConnected _ _) = StatusGreen"
| "orbColor (AppReconnecting _ _ _) = StatusOrange"
| "orbColor (AppStopping _) = StatusGray"
| "orbColor (AppFailed _ _ _) = StatusRed"

text \<open>The dots of the labels are one character.\<close>

definition ellipsis :: bytes where
  "ellipsis = [226, 128, 166]"

fun primaryLabel :: "AppState \<Rightarrow> bytes" where
  "primaryLabel AppIdle = ascii ''Listo para conectar''"
| "primaryLabel (AppPreparing _) = ascii ''Preparando'' @ ellipsis"
| "primaryLabel (AppConnecting _ _) = ascii ''Conectando'' @ ellipsis"
| "primaryLabel (AppConnected _ _) = ascii ''Conectado''"
| "primaryLabel (AppReconnecting _ _ _) = ascii ''Reconectando'' @ ellipsis"
| "primaryLabel (AppStopping _) = ascii ''Cerrando'' @ ellipsis"
| "primaryLabel (AppFailed _ _ _) = ascii ''Error de conexi'' @ [195, 179] @ ascii ''n''"

definition status_text :: "HomeUiState \<Rightarrow> bytes \<times> status_color" where
  "status_text u =
     (if hu_discovering u then (ascii ''Buscando en la red'' @ ellipsis, StatusAmber)
      else (primaryLabel (hu_sessionState u), orbColor (hu_sessionState u)))"

definition isPulsing :: "AppState \<Rightarrow> bool \<Rightarrow> bool" where
  "isPulsing state discovering \<longleftrightarrow>
     discovering \<or> (case state of AppPreparing _ \<Rightarrow> True | AppReconnecting _ _ _ \<Rightarrow> True | AppConnecting _ _ \<Rightarrow> True | _ \<Rightarrow> False)"

datatype secondary_info = ConnectedInfo bytes int | AttemptInfo int | ChooseInfo | NoInfo

text \<open>\<open>qr\<close> is what \<open>getServerQrContent\<close> gives: in server mode the address others can reach is shown.\<close>

definition secondary_info :: "bytes option \<Rightarrow> HomeUiState \<Rightarrow> secondary_info" where
  "secondary_info qr u =
     (case hu_sessionState u of
        AppConnected _ proxyAddr \<Rightarrow>
          ConnectedInfo
            (if hu_mode u = SERVER then (case qr of Some a \<Rightarrow> a | None \<Rightarrow> proxyAddr) else proxyAddr)
            (hu_throughputBps u)
      | AppReconnecting _ attempt _ \<Rightarrow> AttemptInfo attempt
      | AppIdle \<Rightarrow> if \<not> hu_discovering u then ChooseInfo else NoInfo
      | _ \<Rightarrow> NoInfo)"

text \<open>The throughput, rounded half up as \<open>String.format\<close> does; \<open>point\<close> is the decimal separator of the
  user's locale. A \<open>Double\<close> keeps every digit of a number below \<open>10 ^ 15\<close>.\<close>

definition throughput_label :: "bytes \<Rightarrow> int \<Rightarrow> bytes option" where
  "throughput_label point t =
     (if t > 0 then
        Some (if t > 1000000 then
                (let tenths = (nat t + 50000) div 100000
                 in dec (tenths div 10) @ point @ dec (tenths mod 10) @ ascii '' MB/s'')
              else if t > 1000 then dec ((nat t + 500) div 1000) @ ascii '' KB/s''
              else show_int t @ ascii '' B/s'')
      else None)"

definition clients_text :: "int \<Rightarrow> bytes" where
  "clients_text n =
     (let s = (if n \<noteq> 1 then ascii ''s'' else [])
      in show_int n @ ascii '' dispositivo'' @ s @ ascii '' conectado'' @ s)"

section \<open>What the home screen offers\<close>

datatype tap =
    TapCancelDiscovery | TapConnect | TapShare | TapStop | TapRetry | TapDismissError | TapScan | TapAcknowledge | TapShowQr

definition action_area :: "HomeUiState \<Rightarrow> tap list" where
  "action_area u =
     (if hu_discovering u then [TapCancelDiscovery]
      else case hu_sessionState u of
             AppIdle \<Rightarrow> [TapConnect, TapShare]
           | AppStopping _ \<Rightarrow> []
           | _ \<Rightarrow> [TapStop])"

definition stop_label :: "AppState \<Rightarrow> bytes" where
  "stop_label s = (case s of AppConnected _ _ \<Rightarrow> ascii ''Detener'' | _ \<Rightarrow> ascii ''Cancelar'')"

definition cards :: "HomeUiState \<Rightarrow> tap list" where
  "cards u =
     (if hu_discoveryError u then [TapDismissError, TapRetry, TapScan] else []) @
     (case hu_sessionState u of AppFailed _ _ _ \<Rightarrow> [TapAcknowledge] | _ \<Rightarrow> []) @
     (case hu_sessionState u of AppConnected _ _ \<Rightarrow> if hu_mode u = SERVER then [TapShowQr] else [] | _ \<Rightarrow> [])"

definition offered :: "HomeUiState \<Rightarrow> tap list" where
  "offered u = action_area u @ cards u"

section \<open>The device in the user's hand\<close>

text \<open>The screen keeps the proxy a permission is asked for and whether the QR code is open. The requests of
  the view model are a queue the screen empties.\<close>

record device =
  dv_pendingProxy :: "bytes option"
  dv_showServerQr :: bool
  dv_home :: HomeViewModel
  dv_vpn :: VpnService
  dv_server :: ServerService
  dv_app :: app

definition dv_ui :: "device \<Rightarrow> HomeUiState" where
  "dv_ui d = home_uiState (ap_mgr (dv_app d)) (dv_home d)"

fun on_tap :: "tap \<Rightarrow> device \<Rightarrow> device" where
  "on_tap TapCancelDiscovery d = d\<lparr>dv_home := cancelDiscovery (dv_home d)\<rparr>"
| "on_tap TapConnect d = d\<lparr>dv_home := startClientMode (dv_home d)\<rparr>"
| "on_tap TapRetry d = d\<lparr>dv_home := startClientMode (dv_home d)\<rparr>"
| "on_tap TapShare d = d\<lparr>dv_server := startServerMode (dv_server d)\<rparr>"
| "on_tap TapStop d =
     (case home_stop (dv_server d, dv_app d) of (s, a) \<Rightarrow> d\<lparr>dv_server := s, dv_app := a\<rparr>)"
| "on_tap TapDismissError d = d\<lparr>dv_home := dismissDiscoveryError (dv_home d)\<rparr>"
| "on_tap TapScan d = d"
| "on_tap TapAcknowledge d = d\<lparr>dv_app := (dv_app d)\<lparr>ap_mgr := acknowledgeError (ap_mgr (dv_app d))\<rparr>\<rparr>"
| "on_tap TapShowQr d = d\<lparr>dv_showServerQr := True\<rparr>"

text \<open>The dialog is shown only if there is an address; otherwise it is closed at once.\<close>

definition qr_dialog :: "bytes option \<Rightarrow> device \<Rightarrow> bytes option \<times> device" where
  "qr_dialog qr d =
     (if dv_showServerQr d
      then (case qr of Some content \<Rightarrow> (Some content, d) | None \<Rightarrow> (None, d\<lparr>dv_showServerQr := False\<rparr>))
      else (None, d))"

definition on_qr_dismiss :: "device \<Rightarrow> device" where
  "on_qr_dismiss d = d\<lparr>dv_showServerQr := False\<rparr>"

text \<open>A request for the permission: \<open>VpnService.prepare\<close> gives an intent if the user has to be asked.\<close>

definition on_request :: "bool \<Rightarrow> device \<Rightarrow> device option" where
  "on_request must_ask d =
     (case hv_requests (dv_home d) of
        [] \<Rightarrow> None
      | proxyAddr # rest \<Rightarrow>
          let d = d\<lparr>dv_home := (dv_home d)\<lparr>hv_requests := rest\<rparr>\<rparr>
          in Some (if must_ask then d\<lparr>dv_pendingProxy := Some proxyAddr\<rparr>
                   else d\<lparr>dv_vpn := connectWithProxy proxyAddr (dv_vpn d)\<rparr>))"

definition on_permission :: "bool \<Rightarrow> device \<Rightarrow> device" where
  "on_permission granted d =
     (let d = (case dv_pendingProxy d of
                 Some p \<Rightarrow> if granted then d\<lparr>dv_vpn := connectWithProxy p (dv_vpn d)\<rparr> else d
               | None \<Rightarrow> d)
      in d\<lparr>dv_pendingProxy := None\<rparr>)"

definition is_blank :: "bytes \<Rightarrow> bool" where
  "is_blank s = list_all (\<lambda>b. b = 32 \<or> 9 \<le> b \<and> b \<le> 13 \<or> 28 \<le> b \<and> b \<le> 31) s"

definition on_scan :: "bytes option \<Rightarrow> device \<Rightarrow> device" where
  "on_scan contents d =
     (case contents of
        Some s \<Rightarrow> if is_blank s then d else d\<lparr>dv_home := home_connectFromQr s (dv_home d)\<rparr>
      | None \<Rightarrow> d)"

datatype device_event =
    Tap tap | SearchDone "ProxyInfo option" | Request bool | Permission bool | Scanned "bytes option" | QrDismiss | VpnJob | ServerJob
  | InApp app_event

text \<open>One step; \<open>None\<close> is a step that is not possible, like a tap on something that is not there.\<close>

fun device_step ::
  "(bytes \<Rightarrow> EngineConfig option) \<Rightarrow> bool \<Rightarrow> (bytes \<Rightarrow> int \<Rightarrow> i32 option) \<Rightarrow> Preferences \<Rightarrow> device_event \<Rightarrow> device \<Rightarrow> device option" where
  "device_step from_str rt establish prefs (Tap t) d = (if t \<in> set (offered (dv_ui d)) then Some (on_tap t d) else None)"
| "device_step from_str rt establish prefs (SearchDone r) d = Some (d\<lparr>dv_home := discovery_done r (dv_home d)\<rparr>)"
| "device_step from_str rt establish prefs (Request must_ask) d = on_request must_ask d"
| "device_step from_str rt establish prefs (Permission granted) d = Some (on_permission granted d)"
| "device_step from_str rt establish prefs (Scanned contents) d = Some (on_scan contents d)"
| "device_step from_str rt establish prefs QrDismiss d = Some (on_qr_dismiss d)"
| "device_step from_str rt establish prefs VpnJob d =
     (case vpn_run_job establish prefs (dv_vpn d, dv_app d) of (s, a) \<Rightarrow> Some (d\<lparr>dv_vpn := s, dv_app := a\<rparr>))"
| "device_step from_str rt establish prefs ServerJob d =
     (case server_run_job (dv_server d, dv_app d) of (s, a) \<Rightarrow> Some (d\<lparr>dv_server := s, dv_app := a\<rparr>))"
| "device_step from_str rt establish prefs (InApp ev) d = map_option (\<lambda>a. d\<lparr>dv_app := a\<rparr>) (app_step from_str rt ev (dv_app d))"

fun device_run ::
  "(bytes \<Rightarrow> EngineConfig option) \<Rightarrow> bool \<Rightarrow> (bytes \<Rightarrow> int \<Rightarrow> i32 option) \<Rightarrow> Preferences \<Rightarrow> device_event list \<Rightarrow> device \<Rightarrow> device option" where
  "device_run from_str rt establish prefs [] d = Some d"
| "device_run from_str rt establish prefs (ev # evs) d = do {
     d \<leftarrow> device_step from_str rt establish prefs ev d;
     device_run from_str rt establish prefs evs d }"

lemma device_run_append:
  "device_run f rt est p (xs @ ys) d = (case device_run f rt est p xs d of None \<Rightarrow> None | Some c \<Rightarrow> device_run f rt est p ys c)"
  by (induction xs arbitrary: d) (auto split: bind_splits)

lemma device_run_app:
  "device_run f rt est p (map InApp evs) d = map_option (\<lambda>a. d\<lparr>dv_app := a\<rparr>) (app_run f rt evs (dv_app d))"
proof (induction evs arbitrary: d)
  case (Cons ev evs)
  then show ?case by (cases "app_step f rt ev (dv_app d)") (simp_all add: option.map_comp o_def)
qed simp

section \<open>From a tap to a session\<close>

text \<open>The user taps connect, the search finds a server, and the permission is there or is given.\<close>

definition ask_steps :: "bool \<Rightarrow> device_event list" where
  "ask_steps must_ask = (if must_ask then [Request True, Permission True] else [Request False])"

definition connect_steps :: "tap \<Rightarrow> ProxyInfo \<Rightarrow> bool \<Rightarrow> device_event list" where
  "connect_steps t info must_ask = [Tap t, SearchDone (Some info)] @ ask_steps must_ask"

definition after_ask :: "bytes \<Rightarrow> bool \<Rightarrow> device \<Rightarrow> device" where
  "after_ask proxyAddr must_ask d =
     d\<lparr>dv_home := (dv_home d)\<lparr>hv_discovering := False, hv_error := False, hv_job := False\<rparr>,
       dv_vpn := connectWithProxy proxyAddr (dv_vpn d),
       dv_pendingProxy := (if must_ask then None else dv_pendingProxy d)\<rparr>"

lemma connect_steps_run:
  assumes "t \<in> {TapConnect, TapRetry}" and "t \<in> set (offered (dv_ui d))" and "hv_requests (dv_home d) = []"
  shows "device_run f rt est prefs (connect_steps t info must_ask) d = Some (after_ask (ProxyInfo_toString info) must_ask d)"
  using assms
  by (auto simp: connect_steps_def ask_steps_def after_ask_def discovery_done_def startClientMode_def on_request_def
      on_permission_def Let_def)

text \<open>C12: a tap becomes a connection. On the idle home screen the user taps connect, the search finds a
  server and the permission is there already or is given when asked for. The service then takes the
  stored settings and starts the session; if each event is shown before the next step, the screen ends
  with \<open>Conectado\<close>, the address of that server and a stop button, and the engine is connected to it. If
  the user refuses the permission, neither the service nor the engine hears of it.\<close>

theorem tap_connects:
  assumes "app_ready e (dv_app d)" and "ap_cos (dv_app d) = []" and "at_rest e" and "e_callback e = Some fire_jvm_event"
    and "vs_jobs (dv_vpn d) = []" and "repository_settings prefs = \<lparr>as_dnsServer = dns, as_mtu = mtu, as_mcpEndpointEnabled = mcp\<rparr>"
    and "mtu_ok mtu" and "establish dns mtu = Some fd" and "0 \<le> sint fd"
    and "from_str (client_config (show_addr proxy) mtu dns) =
      Some (ClientCfg (ClientConfig_of_fields proxy (Some (word_of_int mtu)) (Some dns_ip) None))"
    and "sm_state (ap_mgr (dv_app d)) = AppIdle" and "\<not> hv_discovering (dv_home d)" and "hv_requests (dv_home d) = []"
    and "ProxyInfo_toString info = show_addr proxy"
  shows "(\<exists>d'. device_run from_str rt establish prefs (connect_steps TapConnect info must_ask @ [VpnJob] @
        map InApp (tl (connect_run fd (show_addr proxy) mtu dns) @ TaskBegin 0 True # deliver_event 0)) d = Some d' \<and>
      status_text (dv_ui d') = (ascii ''Conectado'', StatusGreen) \<and>
      secondary_info qr (dv_ui d') = ConnectedInfo (show_addr proxy) (sm_throughput (ap_mgr (dv_app d'))) \<and>
      offered (dv_ui d') = [TapStop] \<and> engine_shows (dv_app d') (Connected Client (PeerInfo proxy)) \<and>
      quiescent (dv_app d') \<and> vs_active (dv_vpn d') = Some (show_addr proxy)) \<and>
     (\<exists>d'. device_run from_str rt establish prefs
        [Tap TapConnect, SearchDone (Some info), Request True, Permission False] d = Some d' \<and>
      dv_vpn d' = dv_vpn d \<and> dv_app d' = dv_app d \<and> offered (dv_ui d') = [TapConnect, TapShare])"
proof
  have tap: "TapConnect \<in> set (offered (dv_ui d))"
    using assms(11,12) by (simp add: offered_def action_area_def dv_ui_def home_uiState_def)
  let ?d = "after_ask (show_addr proxy) must_ask d"
  have asked: "device_run from_str rt establish prefs (connect_steps TapConnect info must_ask) d = Some ?d"
    using connect_steps_run [OF _ tap assms(13)] assms(14) by simp
  from vpn_start_connects [where establish = establish and from_str = from_str, OF assms(1-10)]
  obtain s' a' b where job: "vpn_run_job establish prefs (vpn_onStartCommand (VPN_START (Some (show_addr proxy))) (dv_vpn d), dv_app d) = (s', a')"
    and act: "vs_active s' = Some (show_addr proxy)"
    and run: "app_run from_str rt (tl (connect_run fd (show_addr proxy) mtu dns) @ TaskBegin 0 True # deliver_event 0) a' = Some b"
    and b: "sm_state (ap_mgr b) = AppConnected CLIENT (show_addr proxy)" "sm_mode (ap_mgr b) = CLIENT"
      "engine_shows b (Connected Client (PeerInfo proxy))" "quiescent b"
    by blast
  let ?e = "?d\<lparr>dv_vpn := s', dv_app := b\<rparr>"
  have v: "device_run from_str rt establish prefs [VpnJob] ?d = Some (?d\<lparr>dv_vpn := s', dv_app := a'\<rparr>)"
    using job by (simp add: after_ask_def connectWithProxy_def)
  have "device_run from_str rt establish prefs (connect_steps TapConnect info must_ask @ [VpnJob] @
      map InApp (tl (connect_run fd (show_addr proxy) mtu dns) @ TaskBegin 0 True # deliver_event 0)) d = Some ?e"
    unfolding device_run_append asked option.case v device_run_app using run by simp
  then show "\<exists>d'. device_run from_str rt establish prefs (connect_steps TapConnect info must_ask @ [VpnJob] @
        map InApp (tl (connect_run fd (show_addr proxy) mtu dns) @ TaskBegin 0 True # deliver_event 0)) d = Some d' \<and>
      status_text (dv_ui d') = (ascii ''Conectado'', StatusGreen) \<and>
      secondary_info qr (dv_ui d') = ConnectedInfo (show_addr proxy) (sm_throughput (ap_mgr (dv_app d'))) \<and>
      offered (dv_ui d') = [TapStop] \<and> engine_shows (dv_app d') (Connected Client (PeerInfo proxy)) \<and>
      quiescent (dv_app d') \<and> vs_active (dv_vpn d') = Some (show_addr proxy)"
    using b act by (intro exI [of _ ?e])
      (simp add: dv_ui_def home_uiState_def status_text_def secondary_info_def offered_def action_area_def cards_def after_ask_def)
  show "\<exists>d'. device_run from_str rt establish prefs
        [Tap TapConnect, SearchDone (Some info), Request True, Permission False] d = Some d' \<and>
      dv_vpn d' = dv_vpn d \<and> dv_app d' = dv_app d \<and> offered (dv_ui d') = [TapConnect, TapShare]"
    using tap assms(11,13)
    by (simp add: discovery_done_def startClientMode_def on_request_def on_permission_def Let_def dv_ui_def home_uiState_def
        offered_def action_area_def cards_def)
qed

text \<open>An idle device whose settings have an MTU of 1400.\<close>

definition demo_prefs :: Preferences where
  "demo_prefs = \<lparr>KEY_DNS = Some (ascii ''9.9.9.9''), KEY_MTU = Some 1400, KEY_MCP = None\<rparr>"

definition demo_device :: device where
  "demo_device =
     \<lparr>dv_pendingProxy = None, dv_showServerQr = False,
      dv_home = \<lparr>hv_discovering = False, hv_error = False, hv_job = False, hv_requests = []\<rparr>,
      dv_vpn = VpnService_new, dv_server = \<lparr>gs_jobs = [], gs_foreground = False, gs_stopSelf = False\<rparr>, dv_app = demo_app\<rparr>"

definition demo_info :: ProxyInfo where
  "demo_info = \<lparr>pi_host = show_ipv4 (Ipv4Addr 10 0 0 1), pi_port = 1080\<rparr>"

theorem tap_connects_witness:
  "\<exists>d'. device_run demo_from_str True (\<lambda>dns mtu. if mtu = 1400 then Some 3 else None) demo_prefs
       (connect_steps TapConnect demo_info True @ [VpnJob] @
        map InApp (tl (connect_run 3 (show_addr demo_proxy) 1400 (ascii ''9.9.9.9'')) @ TaskBegin 0 True # deliver_event 0))
       demo_device = Some d' \<and>
     status_text (dv_ui d') = (ascii ''Conectado'', StatusGreen) \<and> offered (dv_ui d') = [TapStop]"
proof -
  let ?est = "\<lambda>(dns :: bytes) (mtu :: int). if mtu = 1400 then Some 3 else (None :: i32 option)"
  have a: "app_ready demo_engine (dv_app demo_device)" "ap_cos (dv_app demo_device) = []"
    using demo_app_ready by (simp_all add: demo_device_def)
  have j: "vs_jobs (dv_vpn demo_device) = []" by (simp add: demo_device_def VpnService_new_def)
  have p: "repository_settings demo_prefs = \<lparr>as_dnsServer = ascii ''9.9.9.9'', as_mtu = 1400, as_mcpEndpointEnabled = False\<rparr>"
    by (simp add: repository_settings_def demo_prefs_def)
  have m: "mtu_ok 1400" by (simp add: mtu_ok_def)
  have est: "?est (ascii ''9.9.9.9'') 1400 = Some 3" and fd: "0 \<le> sint (3 :: i32)" by simp_all
  have f: "demo_from_str (client_config (show_addr demo_proxy) 1400 (ascii ''9.9.9.9'')) =
      Some (ClientCfg (ClientConfig_of_fields demo_proxy (Some (word_of_int 1400)) (Some (V4 (Ipv4Addr 9 9 9 9))) None))"
    by (simp add: demo_from_str_def)
  have st: "sm_state (ap_mgr (dv_app demo_device)) = AppIdle"
    by (simp add: demo_device_def demo_app_def app_init_def SessionManager_new_def)
  have h: "\<not> hv_discovering (dv_home demo_device)" "hv_requests (dv_home demo_device) = []"
    by (simp_all add: demo_device_def)
  have i: "ProxyInfo_toString demo_info = show_addr demo_proxy"
    by (simp add: ProxyInfo_toString_def demo_info_def show_addr_def demo_proxy_def show_int_def)
  from tap_connects [OF a demo_app_ready(3,4) j p m, where establish = ?est and from_str = demo_from_str, OF est fd f st h i, of True True]
  show ?thesis by blast
qed

section \<open>A client on top of a server\<close>

text \<open>A second session does not end the first: the servers go on, because the reset sends \<open>false\<close> on the
  shutdown channel and they wait for \<open>true\<close>.\<close>

definition over_server ::
  "i32 \<Rightarrow> ClientConfig \<Rightarrow> nat \<Rightarrow> SessionState \<Rightarrow> TaskPhase \<Rightarrow> bool \<Rightarrow> native_callback engine \<Rightarrow> bool" where
  "over_server fd cfg v st phase shut e \<longleftrightarrow>
     ses_state (e_session e) = st \<and> ses_listeners (e_session e) = [()] \<and> e_receivers e = 2 \<and>
     e_shutdown e = shut \<and> (shut \<longrightarrow> e_version e = Suc v) \<and> (\<not> shut \<longrightarrow> e_version e = v) \<and> e_callback e = Some fire_jvm_event \<and>
     length (e_tasks e) = 2 \<and> t_mode (e_tasks e ! 0) = Server \<and> t_phase (e_tasks e ! 0) = Running \<and> t_seen (e_tasks e ! 0) < v \<and>
     e_tasks e ! 1 = \<lparr>t_mode = Client, t_phase = phase, t_seen = v, t_peer = cfg_proxy_addr cfg, t_fd = fd, t_mtu = cfg_mtu cfg\<rparr>"

lemma start_over_server:
  assumes "server_run fire_jvm_event scfg v (Connected Server p) Running log e" and "0 \<le> sint fd"
  obtains e1 where "Engine_start_client fd cfg e = (Inr (), e1)"
    and "over_server fd cfg (Suc v) (Connecting Client 1) Spawned False e1"
    and "e_delivered e1 = e_delivered e @ map (\<lambda>st. (fire_jvm_event, session_state_to_json st)) [Preparing Client, Connecting Client 1]"
proof -
  have "\<exists>e1. Engine_start_client fd cfg e = (Inr (), e1) \<and>
      over_server fd cfg (Suc v) (Connecting Client 1) Spawned False e1 \<and>
      e_delivered e1 = e_delivered e @ map (\<lambda>st. (fire_jvm_event, session_state_to_json st)) [Preparing Client, Connecting Client 1]"
    using assms by (simp add: lifecycle_defs transition_def server_run_def over_server_def nth_append)
  then show thesis using that by blast
qed

lemma client_begins_over_server:
  assumes "over_server fd cfg v (Connecting Client 1) Spawned False e" and "576 \<le> cfg_mtu cfg" and "cfg_mtu cfg \<le> 9000"
  shows "over_server fd cfg v (Connected Client (PeerInfo (cfg_proxy_addr cfg))) Running False (task_begin 1 True e)"
proof -
  have "\<not> isl (UserspaceStack_new () (cfg_mtu cfg))" using assms(2,3) by (simp add: UserspaceStack_new_def linorder_not_less)
  then show ?thesis
    using assms(1) by (auto simp: over_server_def task_begin_def engine_dispatch_def Session_dispatch_def Session_state_def
        notify_def set_phase_def transition_def Let_def)
qed

lemma stop_over_server:
  assumes "over_server fd cfg v (Connected Client p) Running False e"
  obtains e1 where "Engine_stop e = (Inr (), e1)" and "over_server fd cfg v (Stopping Client StopUserRequest) Running True e1"
proof -
  have "\<exists>e1. Engine_stop e = (Inr (), e1) \<and> over_server fd cfg v (Stopping Client StopUserRequest) Running True e1"
    using assms by (auto simp: lifecycle_defs transition_def over_server_def)
  then show thesis using that by blast
qed

lemma over_server_tasks:
  assumes "over_server fd cfg v st Running shut e"
  shows "task_may_end False 0 e \<longleftrightarrow> shut" and "task_may_end False 1 e \<longleftrightarrow> shut"
  using assms by (auto simp: over_server_def task_may_end_def)

lemma client_ends_over_server:
  assumes "over_server fd cfg v (Stopping Client r) Running True e"
  shows "Session_state (e_session (task_end 1 e)) = Idle" and "t_mode (e_tasks (task_end 1 e) ! 0) = Server"
    and "t_phase (e_tasks (task_end 1 e) ! 0) = Running"
  using assms by (auto simp: over_server_def task_end_def engine_dispatch_def Session_dispatch_def Session_state_def
      notify_def set_phase_def transition_def Let_def)

text \<open>C16: a server can be left running behind a client. The card of a failed search stays on the screen when
  the user goes on to share instead, so that its retry button can be tapped while the server is
  connected. If the search now finds a server, the session manager starts a client. The engine does not
  end the server for that: it forgets the session, and the session becomes a connected client while the
  proxies are still open to the network and have no reason to end. Stopping the client makes the session
  idle, and so shown, before the proxies are closed.\<close>

theorem client_started_over_server:
  assumes "app_ready e (dv_app d)" and "ap_cos (dv_app d) = []"
    and "server_run fire_jvm_event scfg v (Connected Server p) Running log e"
    and "sm_state (ap_mgr (dv_app d)) = AppConnected SERVER q" and "hv_error (dv_home d)" and "\<not> hv_discovering (dv_home d)"
    and "hv_requests (dv_home d) = []" and "vs_jobs (dv_vpn d) = []"
    and "repository_settings prefs = \<lparr>as_dnsServer = dns, as_mtu = mtu, as_mcpEndpointEnabled = mcp\<rparr>"
    and "establish dns mtu = Some fd" and "0 \<le> sint fd"
    and "cfg = effective_config from_str (client_config (ProxyInfo_toString info) mtu dns)"
    and "576 \<le> cfg_mtu cfg" and "cfg_mtu cfg \<le> 9000"
  shows "\<exists>d' e1 e2 e3. device_run from_str rt establish prefs
       (connect_steps TapRetry info must_ask @ [VpnJob] @ map InApp [RunCo 0, RunCo 0, RunCo 0]) d = Some d' \<and>
     j_instance (ap_jni (dv_app d')) = Some e1 \<and> e2 = task_begin 1 True e1 \<and>
     Session_state (e_session e2) = Connected Client (PeerInfo (cfg_proxy_addr cfg)) \<and>
     t_mode (e_tasks e2 ! 0) = Server \<and> t_phase (e_tasks e2 ! 0) = Running \<and> \<not> task_may_end False 0 e2 \<and>
     Engine_stop e2 = (Inr (), e3) \<and> task_may_end False 1 e3 \<and>
     Session_state (e_session (task_end 1 e3)) = Idle \<and> t_phase (e_tasks (task_end 1 e3) ! 0) = Running"
proof -
  let ?x = "ProxyInfo_toString info"
  have tap: "TapRetry \<in> set (offered (dv_ui d))"
    using assms(5) by (simp add: offered_def cards_def dv_ui_def home_uiState_def)
  let ?d = "after_ask ?x must_ask d"
  have asked: "device_run from_str rt establish prefs (connect_steps TapRetry info must_ask) d = Some ?d"
    using connect_steps_run [OF _ tap assms(7)] by simp
  let ?a = "SessionManager_startClient fd ?x mtu dns (dv_app d)"
  obtain s' where job: "device_run from_str rt establish prefs [VpnJob] ?d = Some (?d\<lparr>dv_vpn := s', dv_app := ?a\<rparr>)"
    using assms(8-10) by (simp add: after_ask_def connectWithProxy_def vpn_run_job_def vpn_onStartCommand_def startVpn_def Let_def)
  obtain e1 where e1: "Engine_start_client fd cfg e = (Inr (), e1)" and o1: "over_server fd cfg (Suc v) (Connecting Client 1) Spawned False e1"
    and del: "e_delivered e1 = e_delivered e @ map (\<lambda>st. (fire_jvm_event, session_state_to_json st)) [Preparing Client, Connecting Client 1]"
    by (rule start_over_server [OF assms(3,11)])
  note run = start_call_runs [OF assms(1,2,11) e1 [unfolded assms(12)] del, of rt]
  have run': "app_run from_str rt [RunCo 0, RunCo 0, RunCo 0] ?a =
      app_run from_str rt [UiStartClient fd ?x mtu dns, RunCo 0, RunCo 0, RunCo 0] (dv_app d)" by simp
  obtain d' where d': "device_run from_str rt establish prefs
      (connect_steps TapRetry info must_ask @ [VpnJob] @ map InApp [RunCo 0, RunCo 0, RunCo 0]) d = Some d'"
    and j: "j_instance (ap_jni (dv_app d')) = Some e1"
    unfolding device_run_append asked option.case job device_run_app using run run' by (simp del: app_run.simps)
  note o2 = client_begins_over_server [OF o1 assms(13,14)]
  obtain e3 where e3: "Engine_stop (task_begin 1 True e1) = (Inr (), e3)"
    and o3: "over_server fd cfg (Suc v) (Stopping Client StopUserRequest) Running True e3"
    by (rule stop_over_server [OF o2])
  have "Session_state (e_session (task_begin 1 True e1)) = Connected Client (PeerInfo (cfg_proxy_addr cfg))"
    "t_mode (e_tasks (task_begin 1 True e1) ! 0) = Server" "t_phase (e_tasks (task_begin 1 True e1) ! 0) = Running"
    using o2 by (simp_all add: over_server_def Session_state_def)
  then show ?thesis
    using d' j e3 over_server_tasks [OF o2] over_server_tasks [OF o3] client_ends_over_server [OF o3] by blast
qed

text \<open>The way there: a search fails, the user shares instead, and taps retry on the card that is still there.\<close>

definition share_steps :: "device_event list" where
  "share_steps = [Tap TapConnect, SearchDone None, Tap TapShare, ServerJob] @
     map InApp (tl (serve_run (ascii ''0.0.0.0:1080'') (ascii ''0.0.0.0:8080'')))"

lemma demo_shares:
  obtains d e scfg log where "device_run demo_from_str True est prefs share_steps demo_device = Some d"
    and "app_ready e (dv_app d)" and "ap_cos (dv_app d) = []"
    and "server_run fire_jvm_event scfg (e_version demo_engine) (Connected Server (PeerInfo (cfg_socks_bind scfg))) Running log e"
    and "sm_state (ap_mgr (dv_app d)) = AppConnected SERVER (show_addr (cfg_socks_bind scfg))"
    and "hv_error (dv_home d)" and "\<not> hv_discovering (dv_home d)" and "hv_requests (dv_home d) = []" and "vs_jobs (dv_vpn d) = []"
proof -
  let ?s = "ascii ''0.0.0.0:1080''" and ?h = "ascii ''0.0.0.0:8080''"
  let ?scfg = "effective_server_config demo_from_str (server_config ?s ?h)"
  obtain e b log where b: "app_run demo_from_str True (serve_run ?s ?h) demo_app = Some b" "app_ready e b" "quiescent b"
      "sm_state (ap_mgr b) = AppConnected SERVER (show_addr (cfg_socks_bind ?scfg))"
    and r: "server_run fire_jvm_event ?scfg (e_version demo_engine) (Connected Server (PeerInfo (cfg_socks_bind ?scfg))) Running log e"
    by (rule serve_runs [OF demo_app_ready refl])
  have b': "app_run demo_from_str True (tl (serve_run ?s ?h)) (SessionManager_startServer ?s ?h demo_app) = Some b"
    using b(1) by (simp add: serve_run_def)
  let ?d = "demo_device\<lparr>dv_home := \<lparr>hv_discovering = False, hv_error = True, hv_job = False, hv_requests = []\<rparr>,
      dv_server := \<lparr>gs_jobs = [], gs_foreground = True, gs_stopSelf = False\<rparr>,
      dv_app := SessionManager_startServer ?s ?h demo_app\<rparr>"
  have idle: "sm_state (ap_mgr demo_app) = AppIdle" by (simp add: demo_app_def app_init_def SessionManager_new_def)
  have "device_run demo_from_str True est prefs [Tap TapConnect, SearchDone None, Tap TapShare, ServerJob] demo_device = Some ?d"
    using idle by (simp add: demo_device_def offered_def action_area_def dv_ui_def home_uiState_def startClientMode_def discovery_done_def
        startServerMode_def server_onStartCommand_def server_run_job_def)
  then have run: "device_run demo_from_str True est prefs share_steps demo_device = Some (?d\<lparr>dv_app := b\<rparr>)"
    unfolding share_steps_def device_run_append device_run_app using b' by (simp del: device_run.simps)
  show thesis
    by (rule that [OF run, of e ?scfg log]) (use b r in \<open>simp_all add: quiescent_def demo_device_def VpnService_new_def\<close>)
qed

theorem client_started_over_server_witness:
  "\<exists>d d' e1. device_run demo_from_str True (\<lambda>_ _. Some 3) demo_prefs share_steps demo_device = Some d \<and>
     device_run demo_from_str True (\<lambda>_ _. Some 3) demo_prefs
       (connect_steps TapRetry demo_info False @ [VpnJob] @ map InApp [RunCo 0, RunCo 0, RunCo 0]) d = Some d' \<and>
     j_instance (ap_jni (dv_app d')) = Some e1 \<and>
     Session_state (e_session (task_begin 1 True e1)) = Connected Client (PeerInfo demo_proxy) \<and>
     t_mode (e_tasks (task_begin 1 True e1) ! 0) = Server \<and> \<not> task_may_end False 0 (task_begin 1 True e1)"
proof -
  let ?cfg = "ClientConfig_of_fields demo_proxy (Some 1400) (Some (V4 (Ipv4Addr 9 9 9 9))) None"
  let ?est = "\<lambda>(dns :: bytes) (mtu :: int). Some (3 :: i32)"
  obtain d e scfg log where run: "device_run demo_from_str True ?est demo_prefs share_steps demo_device = Some d"
    and d: "app_ready e (dv_app d)" "ap_cos (dv_app d) = []"
      "server_run fire_jvm_event scfg (e_version demo_engine) (Connected Server (PeerInfo (cfg_socks_bind scfg))) Running log e"
      "sm_state (ap_mgr (dv_app d)) = AppConnected SERVER (show_addr (cfg_socks_bind scfg))"
      "hv_error (dv_home d)" "\<not> hv_discovering (dv_home d)" "hv_requests (dv_home d) = []" "vs_jobs (dv_vpn d) = []"
    by (rule demo_shares)
  have p: "repository_settings demo_prefs = \<lparr>as_dnsServer = ascii ''9.9.9.9'', as_mtu = 1400, as_mcpEndpointEnabled = False\<rparr>"
    by (simp add: repository_settings_def demo_prefs_def)
  have est: "?est (ascii ''9.9.9.9'') 1400 = Some 3" and fd: "0 \<le> sint (3 :: i32)" by simp_all
  have i: "ProxyInfo_toString demo_info = show_addr demo_proxy"
    by (simp add: ProxyInfo_toString_def demo_info_def show_addr_def demo_proxy_def show_int_def)
  have c: "?cfg = effective_config demo_from_str (client_config (ProxyInfo_toString demo_info) 1400 (ascii ''9.9.9.9''))"
    unfolding i by (rule demo_config [symmetric])
  have m: "576 \<le> cfg_mtu ?cfg" "cfg_mtu ?cfg \<le> 9000" and a: "cfg_proxy_addr ?cfg = demo_proxy"
    by (simp_all add: ClientConfig_of_fields_def)
  from client_started_over_server [OF d p, where establish = ?est, OF est fd c m, of True False, unfolded a] run
  show ?thesis by blast
qed

end
