(* ===== verification/App_Mtu_Field.thy ===== *)
theory App_Mtu_Field
  imports App_Settings App_Network
begin

text \<open>
  The fields of \<open>SettingsScreen.kt\<close>: what the text field of the MTU makes of the keys of its user. Keys are
  ASCII characters.
\<close>

section \<open>The settings screen\<close>

text \<open>The text field of the MTU shows the number of the state and hands over every new text; what is no
  number counts as 1280. A key inserts or deletes one character, wherever the cursor is.\<close>

definition mtu_text :: "SettingsUiState \<Rightarrow> bytes" where
  "mtu_text u = show_int (su_mtu u)"

definition onMtuText :: "bytes \<Rightarrow> SettingsUiState \<Rightarrow> SettingsUiState" where
  "onMtuText text u = onMtuChanged (case toInt text of Some v \<Rightarrow> v | None \<Rightarrow> 1280) u"

datatype key = InsertAt nat u8 | DeleteAt nat

fun edit_text :: "key \<Rightarrow> bytes \<Rightarrow> bytes" where
  "edit_text (InsertAt i c) t = take i t @ [c] @ drop i t"
| "edit_text (DeleteAt i) t = take i t @ drop (Suc i) t"

definition type_key :: "key \<Rightarrow> SettingsUiState \<Rightarrow> SettingsUiState" where
  "type_key k u = onMtuText (edit_text k (mtu_text u)) u"

definition save_enabled :: "SettingsUiState \<Rightarrow> bool" where
  "save_enabled u = su_isDirty u"

text \<open>When the settings have been saved, the screen says so and then takes the mark away.\<close>

definition saved_effect :: "SettingsUiState \<Rightarrow> bytes option \<times> SettingsUiState" where
  "saved_effect u = (if su_savedEvent u then (Some (ascii ''Ajustes guardados''), consumeSavedEvent u) else (None, u))"

definition dig :: "nat \<Rightarrow> u8" where
  "dig d = 48 + word_of_nat d"

lemma dig_digit:
  assumes "d < 10"
  shows "regex_digit (dig d)" and "uint (dig d) - 48 = int d" and "dig d \<noteq> 45" and "dig d \<noteq> 43"
proof -
  have "d = 0 \<or> d = 1 \<or> d = 2 \<or> d = 3 \<or> d = 4 \<or> d = 5 \<or> d = 6 \<or> d = 7 \<or> d = 8 \<or> d = 9"
    using assms by presburger
  then show "regex_digit (dig d)" and "uint (dig d) - 48 = int d" and "dig d \<noteq> 45" and "dig d \<noteq> 43"
    by (elim disjE; simp add: dig_def regex_digit_def)+
qed

lemma regex_digit_value: "regex_digit c \<Longrightarrow> 0 \<le> uint c - 48 \<and> uint c - 48 \<le> 9"
  by (simp add: regex_digit_def word_le_def)

text \<open>The value of a text of digits, with a sign or without.\<close>

definition num :: "bytes \<Rightarrow> int" where
  "num ds = fold (\<lambda>d acc. acc * 10 + (uint d - 48)) ds 0"

lemma toInt_1500:
  assumes "toInt s = Some 1500"
  shows "list_all regex_digit s \<and> num s = 1500 \<or> (\<exists>r. s = 43 # r \<and> list_all regex_digit r \<and> num r = 1500) \<or>
    (\<exists>r. s = 45 # r \<and> list_all regex_digit r \<and> num r = - 1500)"
  using assms by (auto simp: toInt_def num_def Let_def split: list.splits if_splits)

lemma dec_digits:
  "100 \<le> n \<Longrightarrow> n < 1000 \<Longrightarrow> dec n = [dig (n div 100), dig (n div 10 mod 10), dig (n mod 10)]"
  "1000 \<le> n \<Longrightarrow> n < 10000 \<Longrightarrow> dec n = [dig (n div 1000), dig (n div 100 mod 10), dig (n div 10 mod 10), dig (n mod 10)]"
  by (simp_all add: dec.simps dig_def div_mult2_eq [symmetric]) linarith+

lemma mtu_digits:
  assumes "mtu_ok m"
  obtains a b c where "a < 10" "b < 10" "c < 10" "m = 100 * int a + 10 * int b + int c" "m < 1000"
      "show_int m = [dig a, dig b, dig c]"
    | a b c d where "a < 10" "b < 10" "c < 10" "d < 10" "m = 1000 * int a + 100 * int b + 10 * int c + int d" "1000 \<le> m"
      "show_int m = [dig a, dig b, dig c, dig d]"
proof -
  define n where "n = nat m"
  have n: "m = int n" "576 \<le> n" "n \<le> 9000" using assms by (auto simp: n_def mtu_ok_def)
  have split: "k = 10 * (k div 10) + k mod 10" for k :: nat by simp
  have d2: "n div 10 div 10 = n div 100" and d3: "n div 100 div 10 = n div 1000" by (simp_all add: div_mult2_eq [symmetric])
  have s: "show_int m = dec n" using n(1) by (simp add: show_int_def)
  show thesis
  proof (cases "n < 1000")
    case True
    have "n = 100 * (n div 100) + 10 * (n div 10 mod 10) + n mod 10"
      using split [of n] split [of "n div 10"] unfolding d2 by linarith
    then have "m = 100 * int (n div 100) + 10 * int (n div 10 mod 10) + int (n mod 10)" using n(1) by linarith
    then show thesis using that(1) [of "n div 100" "n div 10 mod 10" "n mod 10"] True n s dec_digits(1) [of n] by simp
  next
    case False
    have "n = 1000 * (n div 1000) + 100 * (n div 100 mod 10) + 10 * (n div 10 mod 10) + n mod 10"
      using split [of n] split [of "n div 10"] split [of "n div 100"] unfolding d2 d3 by linarith
    then have "m = 1000 * int (n div 1000) + 100 * int (n div 100 mod 10) + 10 * int (n div 10 mod 10) + int (n mod 10)"
      using n(1) by linarith
    then show thesis using that(2) [of "n div 1000" "n div 100 mod 10" "n div 10 mod 10" "n mod 10"] False n s dec_digits(2) [of n] by simp
  qed
qed

lemma num_simps [simp]:
  "num [] = 0" "num [a] = uint a - 48" "num [a, b] = 10 * (uint a - 48) + (uint b - 48)"
  "num [a, b, c] = 100 * (uint a - 48) + 10 * (uint b - 48) + (uint c - 48)"
  "num [a, b, c, d] = 1000 * (uint a - 48) + 100 * (uint b - 48) + 10 * (uint c - 48) + (uint d - 48)"
  "num [a, b, c, d, e] = 10000 * (uint a - 48) + 1000 * (uint b - 48) + 100 * (uint c - 48) + 10 * (uint d - 48) + (uint e - 48)"
  by (simp_all add: num_def)

lemma take_drop_small:
  "take i [a, b, c] @ x @ drop i [a, b, c] \<in> {x @ [a, b, c], [a] @ x @ [b, c], [a, b] @ x @ [c], [a, b, c] @ x}"
  "take i [a, b, c, d] @ x @ drop i [a, b, c, d] \<in>
     {x @ [a, b, c, d], [a] @ x @ [b, c, d], [a, b] @ x @ [c, d], [a, b, c] @ x @ [d], [a, b, c, d] @ x}"
  "take i [a, b, c] @ drop (Suc i) [a, b, c] \<in> {[b, c], [a, c], [a, b], [a, b, c]}"
  "take i [a, b, c, d] @ drop (Suc i) [a, b, c, d] \<in> {[b, c, d], [a, c, d], [a, b, d], [a, b, c], [a, b, c, d]}"
  by (simp_all add: take_Cons drop_Cons split: nat.split)

lemma toInt_dig:
  assumes "a < 10" and "toInt (dig a # r) = Some 1500"
  shows "list_all regex_digit r \<and> num (dig a # r) = 1500"
  using toInt_1500 [OF assms(2)] dig_digit [OF assms(1)] by auto

lemma toInt_first:
  assumes "toInt (x # r) = Some 1500"
  shows "(0 \<le> uint x - 48 \<and> uint x - 48 \<le> 9 \<and> num (x # r) = 1500) \<or> num r = 1500 \<or> num r = - 1500"
  using toInt_1500 [OF assms] regex_digit_value [of x] by auto

lemma insert_digit_arith:
  fixes A B C D X :: int
  assumes "0 \<le> A" "A \<le> 9" "0 \<le> B" "B \<le> 9" "0 \<le> C" "C \<le> 9" "0 \<le> X" "X \<le> 9"
  shows "576 \<le> 100 * A + 10 * B + C \<Longrightarrow>
      1000 * X + 100 * A + 10 * B + C \<noteq> 1500 \<and> 1000 * A + 100 * X + 10 * B + C \<noteq> 1500 \<and>
      1000 * A + 100 * B + 10 * X + C \<noteq> 1500 \<and> 1000 * A + 100 * B + 10 * C + X \<noteq> 1500"
    and "0 \<le> D \<Longrightarrow> D \<le> 9 \<Longrightarrow> 1000 \<le> 1000 * A + 100 * B + 10 * C + D \<Longrightarrow> 1000 * A + 100 * B + 10 * C + D \<noteq> 1500 \<Longrightarrow>
      10000 * X + 1000 * A + 100 * B + 10 * C + D \<noteq> 1500 \<and> 10000 * A + 1000 * X + 100 * B + 10 * C + D \<noteq> 1500 \<and>
      10000 * A + 1000 * B + 100 * X + 10 * C + D \<noteq> 1500 \<and> 10000 * A + 1000 * B + 100 * C + 10 * X + D \<noteq> 1500 \<and>
      10000 * A + 1000 * B + 100 * C + 10 * D + X \<noteq> 1500"
proof -
  have x: "X = 0 \<or> X = 1 \<or> 2 \<le> X" and a: "A = 0 \<or> A = 1 \<or> 2 \<le> A" using assms(1,7) by linarith+
  show "576 \<le> 100 * A + 10 * B + C \<Longrightarrow>
      1000 * X + 100 * A + 10 * B + C \<noteq> 1500 \<and> 1000 * A + 100 * X + 10 * B + C \<noteq> 1500 \<and>
      1000 * A + 100 * B + 10 * X + C \<noteq> 1500 \<and> 1000 * A + 100 * B + 10 * C + X \<noteq> 1500"
    using x a assms by (intro conjI notI; elim disjE; linarith)
  show "0 \<le> D \<Longrightarrow> D \<le> 9 \<Longrightarrow> 1000 \<le> 1000 * A + 100 * B + 10 * C + D \<Longrightarrow> 1000 * A + 100 * B + 10 * C + D \<noteq> 1500 \<Longrightarrow>
      10000 * X + 1000 * A + 100 * B + 10 * C + D \<noteq> 1500 \<and> 10000 * A + 1000 * X + 100 * B + 10 * C + D \<noteq> 1500 \<and>
      10000 * A + 1000 * B + 100 * X + 10 * C + D \<noteq> 1500 \<and> 10000 * A + 1000 * B + 100 * C + 10 * X + D \<noteq> 1500 \<and>
      10000 * A + 1000 * B + 100 * C + 10 * D + X \<noteq> 1500"
    using x a assms by (intro conjI notI; elim disjE; linarith)
qed

lemma digit_list_value: "list_all regex_digit s \<Longrightarrow> 0 \<le> num s \<and> num s < 10 ^ length s"
proof (induction s rule: rev_induct)
  case (snoc d s)
  have "num (s @ [d]) = num s * 10 + (uint d - 48)" by (simp add: num_def)
  then show ?case using snoc regex_digit_value [of d] by auto
qed (simp add: num_def)

lemma short_not_1500:
  assumes "list_all regex_digit s" and "length s \<le> 3" and "s \<noteq> []"
  shows "toInt s \<noteq> Some 1500"
proof
  assume "toInt s = Some 1500"
  moreover have "hd s \<noteq> 43" "hd s \<noteq> 45" using assms(1,3) by (cases s; auto simp: regex_digit_def)+
  ultimately have "num s = 1500" using toInt_1500 [of s] by auto
  moreover have "(10 :: int) ^ length s \<le> 10 ^ 3" using assms(2) by (intro power_increasing) simp_all
  ultimately show False using digit_list_value [OF assms(1)] by simp
qed

text \<open>One key never makes 1500 of another number.\<close>

lemma insert_not_1500:
  assumes "mtu_ok m" and "m \<noteq> 1500"
  shows "toInt (take i (show_int m) @ [x] @ drop i (show_int m)) \<noteq> Some 1500"
proof
  assume t: "toInt (take i (show_int m) @ [x] @ drop i (show_int m)) = Some 1500"
  have m: "576 \<le> m" using assms(1) by (simp add: mtu_ok_def)
  show False
  proof (rule mtu_digits [OF assms(1)])
    fix a b c assume d: "a < 10" "b < 10" "c < 10" "m = 100 * int a + 10 * int b + int c" "m < 1000" "show_int m = [dig a, dig b, dig c]"
    note dd = dig_digit(2) [OF d(1)] dig_digit(2) [OF d(2)] dig_digit(2) [OF d(3)]
    note ar = insert_digit_arith(1) [of "int a" "int b" "int c" "uint x - 48"]
    from t take_drop_small(1) [of i "dig a" "dig b" "dig c" "[x]"] consider
        "toInt [x, dig a, dig b, dig c] = Some 1500" | "toInt [dig a, x, dig b, dig c] = Some 1500"
      | "toInt [dig a, dig b, x, dig c] = Some 1500" | "toInt [dig a, dig b, dig c, x] = Some 1500"
      unfolding d(6) by auto
    then show False
      by cases (use toInt_first [of x] toInt_dig [OF d(1)] regex_digit_value [of x] ar dd d(1-5) m in force)+
  next
    fix a b c e assume d: "a < 10" "b < 10" "c < 10" "e < 10" "m = 1000 * int a + 100 * int b + 10 * int c + int e" "1000 \<le> m"
      "show_int m = [dig a, dig b, dig c, dig e]"
    note dd = dig_digit(2) [OF d(1)] dig_digit(2) [OF d(2)] dig_digit(2) [OF d(3)] dig_digit(2) [OF d(4)]
    note ar = insert_digit_arith(2) [of "int a" "int b" "int c" "uint x - 48" "int e"]
    from t take_drop_small(2) [of i "dig a" "dig b" "dig c" "dig e" "[x]"] consider
        "toInt [x, dig a, dig b, dig c, dig e] = Some 1500" | "toInt [dig a, x, dig b, dig c, dig e] = Some 1500"
      | "toInt [dig a, dig b, x, dig c, dig e] = Some 1500" | "toInt [dig a, dig b, dig c, x, dig e] = Some 1500"
      | "toInt [dig a, dig b, dig c, dig e, x] = Some 1500"
      unfolding d(7) by auto
    then show False
      by cases (use toInt_first [of x] toInt_dig [OF d(1)] regex_digit_value [of x] ar dd d(1-6) assms(2) in force)+
  qed
qed

lemma toInt_show_mtu:
  assumes "mtu_ok m"
  shows "toInt (show_int m) = Some m"
proof -
  have "nat m < 65536" "0 \<le> m" using assms by (auto simp: mtu_ok_def)
  then show ?thesis using toInt_dec [of "nat m"] by (simp add: show_int_def)
qed

lemma delete_not_1500:
  assumes "mtu_ok m" and "m \<noteq> 1500"
  shows "toInt (take i (show_int m) @ drop (Suc i) (show_int m)) \<noteq> Some 1500"
proof -
  let ?s = "show_int m"
  have digits: "list_all regex_digit ?s" and len: "3 \<le> length ?s" "length ?s \<le> 4"
    by (rule mtu_digits [OF assms(1)]; simp add: dig_digit)+
  have "toInt ?s = Some m" by (rule toInt_show_mtu [OF assms(1)])
  moreover have "toInt (take i ?s @ drop (Suc i) ?s) \<noteq> Some 1500" if "i < length ?s"
  proof (rule short_not_1500)
    have "length (take i ?s @ drop (Suc i) ?s) = length ?s - 1" using that by simp
    then show "length (take i ?s @ drop (Suc i) ?s) \<le> 3" and "take i ?s @ drop (Suc i) ?s \<noteq> []" using len by auto
    show "list_all regex_digit (take i ?s @ drop (Suc i) ?s)"
      using digits by (auto simp: list_all_iff dest: in_set_takeD in_set_dropD)
  qed
  ultimately show ?thesis using assms(2) by (cases "i < length ?s") auto
qed

lemma type_key_mtu:
  assumes "mtu_ok (su_mtu u)" and "su_mtu u \<noteq> 1500"
  shows "mtu_ok (su_mtu (type_key k u)) \<and> su_mtu (type_key k u) \<noteq> 1500"
proof -
  have "toInt (edit_text k (show_int (su_mtu u))) \<noteq> Some 1500"
    using insert_not_1500 [OF assms] delete_not_1500 [OF assms] by (cases k) simp_all
  then show ?thesis
    by (auto simp: type_key_def onMtuText_def mtu_text_def onMtuChanged_def coerceIn_def mtu_ok_def split: option.splits)
qed

text \<open>C39: the MTU of Ethernet cannot be typed in. Every key gives the field a new text, the number in it is
  at once brought into the range from 576 to 9000, and the field shows the result; so no sequence of
  single keys, wherever the cursor is, ends with 1500 unless it began there: the texts on the way, such as
  \<open>15\<close> or \<open>150\<close>, are below the range. A pasted 1500 is taken. Whatever is typed, the number stays one the
  stack accepts.\<close>

theorem mtu_not_typed:
  assumes "mtu_ok (su_mtu u)" and "su_mtu u \<noteq> 1500"
  shows "mtu_ok (su_mtu (fold type_key ks u)) \<and> mtu_text (fold type_key ks u) \<noteq> ascii ''1500'' \<and>
     mtu_text (onMtuText (ascii ''1500'') u) = ascii ''1500''"
proof -
  have "mtu_ok (su_mtu (fold type_key ks u)) \<and> su_mtu (fold type_key ks u) \<noteq> 1500"
    using assms by (induction ks arbitrary: u) (auto simp: type_key_mtu)
  moreover have "toInt (ascii ''1500'') = Some 1500" by (simp add: toInt_def ascii_def regex_digit_def)
  ultimately show ?thesis
    using toInt_show_mtu [of "su_mtu (fold type_key ks u)"] dec_digits(2) [of 1500]
    by (auto simp: mtu_text_def onMtuText_def onMtuChanged_def coerceIn_def show_int_def dig_def ascii_def)
qed

theorem mtu_not_typed_witness:
  "let ks = [DeleteAt 3, DeleteAt 2, DeleteAt 1, InsertAt 0 49, InsertAt 1 53, InsertAt 2 48, InsertAt 3 48];
       u = fold type_key ks SettingsUiState_default in mtu_ok (su_mtu u) \<and> mtu_text u \<noteq> ascii ''1500''"
proof -
  have "mtu_ok (su_mtu SettingsUiState_default)" "su_mtu SettingsUiState_default \<noteq> 1500"
    by (simp_all add: SettingsUiState_default_def mtu_ok_def)
  from mtu_not_typed [OF this] show ?thesis by (simp only: Let_def) blast
qed

end
