(* ===== verification/App_Log.thy ===== *)
theory App_Log
  imports App_Services
begin

text \<open>
  The lines of \<open>DiagnosticScreen.kt\<close> and the log of the application, \<open>GravitalLog.kt\<close>. Cutting and capitalising
  a text is modelled for ASCII, which the events of the engine are. The JSON text of an event is made by
  \<open>kotlinx.serialization\<close>; here an event is the object it is given.
\<close>

section \<open>A line of the diagnostic screen\<close>

text \<open>The pattern is the one of the session manager.\<close>

definition extractField :: "bytes \<Rightarrow> bytes \<Rightarrow> bytes option" where
  "extractField json key = find_first (string_value key) json"

definition upper :: "u8 \<Rightarrow> u8" where
  "upper b = (if 97 \<le> b \<and> b \<le> 122 then b - 32 else b)"

datatype level_color = ColorError | ColorTertiary | ColorOnSurface | ColorFaded

record log_line =
  ll_ts :: bytes
  ll_level :: bytes
  ll_kind :: bytes
  ll_color :: level_color

definition LogLine :: "bytes \<Rightarrow> log_line" where
  "LogLine json =
     (let level = extractField json (ascii ''lvl'');
          kind = (case extractField json (ascii ''kind'') of Some k \<Rightarrow> k | None \<Rightarrow> take 60 json);
          ts = (case extractField json (ascii ''ts'') of Some t \<Rightarrow> takeLast 8 t | None \<Rightarrow> []);
          levelColor =
            (if level = Some (ascii ''error'') then ColorError
             else if level = Some (ascii ''warn'') then ColorTertiary
             else if level = Some (ascii ''info'') then ColorOnSurface
             else ColorFaded)
      in \<lparr>ll_ts = ts, ll_level = take 4 (map upper (case level of Some l \<Rightarrow> l | None \<Rightarrow> ascii ''?'')),
          ll_kind = kind, ll_color = levelColor\<rparr>)"

text \<open>The screen, newest line at the bottom, or the message that there is none.\<close>

definition diagnostic_lines :: "bytes list \<Rightarrow> log_line list option" where
  "diagnostic_lines logLines = (if logLines = [] then None else Some (map LogLine logLines))"

section \<open>All lines are alike\<close>

lemma find_first_skip:
  assumes "34 \<notin> set xs"
  shows "find_first (string_value key) (xs @ ys) = find_first (string_value key) ys"
  using assms by (induction xs) (auto simp: string_value_def after_key_def quoted_def)

lemma strip_prefix_value:
  assumes "34 \<notin> set k" and "34 \<notin> set v"
  shows "strip_prefix (k @ [34]) (v @ 34 # r) = (if v = k then Some r else None)"
  using assms
proof (induction k arbitrary: v)
  case Nil
  then show ?case by (cases v) auto
next
  case (Cons x k)
  then show ?case by (cases v) auto
qed

lemmas field_search = extractField_def transition_json_def quoted_def ascii_def string_value_def after_key_def
  find_first_skip
  strip_prefix_value [of "[108, 118, 108]", simplified] strip_prefix_value [of "[116, 115]", simplified]

text \<open>The events of the engine have no level and no time.\<close>

lemma transition_other_field:
  assumes "key \<in> {ascii ''lvl'', ascii ''ts''}"
  shows "34 \<notin> set v \<Longrightarrow> extractField (transition_json (ascii ''Connected'') [(ascii ''peer'', v)]) key = None"
    and "34 \<notin> set v \<Longrightarrow> extractField (transition_json (ascii ''Failed'') [(ascii ''error'', v)]) key = None"
    and "t \<in> {ascii ''Idle'', ascii ''Preparing'', ascii ''Connecting'', ascii ''Reconnecting'', ascii ''Stopping''} \<Longrightarrow>
      extractField (transition_json t []) key = None"
  using assms by (auto simp: field_search)

lemma LogLine_transition:
  "LogLine (session_state_to_json st) =
     \<lparr>ll_ts = [], ll_level = ascii ''?'', ll_kind = ascii ''session.transition'', ll_color = ColorFaded\<rparr>"
proof -
  have k: "extractField (transition_json t extra) (ascii ''kind'') = Some (ascii ''session.transition'')" for t extra
    using transition_kind [of t extra] by (simp add: extractField_def extractJsonField_def)
  obtain t extra where j: "session_state_to_json st = transition_json t extra"
    by (cases st) (auto simp: session_state_to_json.simps)
  have n: "extractField (session_state_to_json st) key = None" if "key \<in> {ascii ''lvl'', ascii ''ts''}" for key
    using transition_other_field [OF that] show_addr_no_quote show_failure_no_quote
    by (cases st) (simp_all add: session_state_to_json.simps)
  have "take 4 (map upper (ascii ''?'')) = ascii ''?''" by (simp add: ascii_def upper_def)
  then show ?thesis
    using n [of "ascii ''lvl''"] n [of "ascii ''ts''"] k [of t extra] by (simp add: LogLine_def j Let_def)
qed



section \<open>The log of the application\<close>

datatype LogLevel = TRACE | DEBUG | INFO | WARN | ERROR

fun level_label :: "LogLevel \<Rightarrow> bytes" where
  "level_label TRACE = ascii ''trace''"
| "level_label DEBUG = ascii ''debug''"
| "level_label INFO = ascii ''info''"
| "level_label WARN = ascii ''warn''"
| "level_label ERROR = ascii ''error''"

text \<open>Values of a payload. A number that is only printed is given by its text, and any other object by
  its \<open>toString\<close>.\<close>

datatype any_value = AnyString bytes | AnyInt int | AnyLong int | AnyBoolean bool | AnyDouble bytes | AnyNull | AnyOther bytes

datatype json_element =
    JsonString bytes | JsonNumber bytes | JsonBool bool | JsonNull | JsonObject "(bytes \<times> json_element) list"

text \<open>\<open>put\<close> of a \<open>JsonObjectBuilder\<close>: a key keeps the place it was first put in.\<close>

fun json_put :: "bytes \<Rightarrow> json_element \<Rightarrow> (bytes \<times> json_element) list \<Rightarrow> (bytes \<times> json_element) list" where
  "json_put k v [] = [(k, v)]"
| "json_put k v ((k', v') # kvs) = (if k = k' then (k, v) # kvs else (k', v') # json_put k v kvs)"

fun payload_value :: "any_value \<Rightarrow> json_element" where
  "payload_value (AnyString s) = JsonString s"
| "payload_value (AnyInt n) = JsonNumber (show_int n)"
| "payload_value (AnyLong n) = JsonNumber (show_int n)"
| "payload_value (AnyBoolean b) = JsonBool b"
| "payload_value (AnyDouble t) = JsonNumber t"
| "payload_value AnyNull = JsonNull"
| "payload_value (AnyOther t) = JsonString t"

definition substringAfterLast :: "u8 \<Rightarrow> bytes \<Rightarrow> bytes" where
  "substringAfterLast c s = (case rfind c s of Some i \<Rightarrow> drop (Suc i) s | None \<Rightarrow> s)"

definition GravitalLog_name :: bytes where
  "GravitalLog_name = ascii ''io.gravital.share.telemetry.GravitalLog''"

text \<open>\<open>stack\<close> is the names of the classes of the stack trace, from the innermost call.\<close>

definition currentCallerModule :: "bytes list \<Rightarrow> bytes" where
  "currentCallerModule stack =
     (case find (\<lambda>c. starts_with c (ascii ''io.gravital'') \<and> c \<noteq> GravitalLog_name) stack of
        Some c \<Rightarrow> substringAfterLast 46 c
      | None \<Rightarrow> ascii ''unknown'')"

definition generateId :: "u64 \<Rightarrow> u64 \<Rightarrow> bytes" where
  "generateId nanoTime millis =
     (let n = sint (nanoTime XOR millis) in if n < 0 then 45 # hex_nat (nat (- n)) else hex_nat (nat n))"

record log_env =
  le_now :: bytes
  le_nanoTime :: u64
  le_millis :: u64
  le_stack :: "bytes list"

definition log_json :: "log_env \<Rightarrow> LogLevel \<Rightarrow> bytes \<Rightarrow> bytes \<Rightarrow> (bytes \<times> any_value) list \<Rightarrow> json_element" where
  "log_json env lvl kind traceId payload =
     (let obj = json_put (ascii ''ts'') (JsonString (le_now env)) [];
          obj = json_put (ascii ''schema'') (JsonString (ascii ''gs.event.v1'')) obj;
          obj = json_put (ascii ''lvl'') (JsonString (level_label lvl)) obj;
          obj = json_put (ascii ''kind'') (JsonString kind) obj;
          obj = json_put (ascii ''trace_id'')
            (JsonString (if traceId = [] then generateId (le_nanoTime env) (le_millis env) else traceId)) obj;
          obj = json_put (ascii ''module'') (JsonString (currentCallerModule (le_stack env))) obj;
          obj = json_put (ascii ''payload'')
            (JsonObject (fold (\<lambda>(k, v). json_put k (payload_value v)) payload [])) obj
      in JsonObject obj)"

datatype priority = LogD | LogI | LogW | LogE

definition log_emit ::
  "log_env \<Rightarrow> LogLevel \<Rightarrow> bytes \<Rightarrow> bytes \<Rightarrow> (bytes \<times> any_value) list \<Rightarrow> priority \<times> json_element" where
  "log_emit env lvl kind traceId payload =
     (case lvl of TRACE \<Rightarrow> LogD | DEBUG \<Rightarrow> LogD | INFO \<Rightarrow> LogI | WARN \<Rightarrow> LogW | ERROR \<Rightarrow> LogE, log_json env lvl kind traceId payload)"

definition log_info :: "log_env \<Rightarrow> bytes \<Rightarrow> bytes \<Rightarrow> (bytes \<times> any_value) list \<Rightarrow> priority \<times> json_element" where
  "log_info env = log_emit env INFO"

definition log_warn :: "log_env \<Rightarrow> bytes \<Rightarrow> bytes \<Rightarrow> (bytes \<times> any_value) list \<Rightarrow> priority \<times> json_element" where
  "log_warn env = log_emit env WARN"

definition log_error :: "log_env \<Rightarrow> bytes \<Rightarrow> bytes \<Rightarrow> (bytes \<times> any_value) list \<Rightarrow> priority \<times> json_element" where
  "log_error env = log_emit env ERROR"

definition log_debug :: "log_env \<Rightarrow> bytes \<Rightarrow> bytes \<Rightarrow> (bytes \<times> any_value) list \<Rightarrow> priority \<times> json_element" where
  "log_debug env = log_emit env DEBUG"

text \<open>A payload is a map, so its keys are distinct: it is written in its order. An event has every field of
  the schema of the engine but the span.\<close>

lemma json_put_new: "k \<notin> fst ` set kvs \<Longrightarrow> json_put k v kvs = kvs @ [(k, v)]"
  by (induction kvs) auto

lemma payload_kept:
  "distinct (map fst kvs @ map fst payload) \<Longrightarrow>
     fold (\<lambda>(k, v). json_put k (payload_value v)) payload kvs = kvs @ map (\<lambda>(k, v). (k, payload_value v)) payload"
proof (induction payload arbitrary: kvs)
  case (Cons p payload)
  obtain k v where p: "p = (k, v)" by (cases p)
  have "json_put k (payload_value v) kvs = kvs @ [(k, payload_value v)]" using Cons.prems p by (intro json_put_new) auto
  then show ?case using Cons.IH [of "kvs @ [(k, payload_value v)]"] Cons.prems p by auto
qed simp

lemma log_json_fields:
  assumes "distinct (map fst payload)"
  shows "\<exists>trace. trace \<noteq> [] \<and> log_json env lvl kind traceId payload = JsonObject
     [(ascii ''ts'', JsonString (le_now env)), (ascii ''schema'', JsonString (ascii ''gs.event.v1'')),
      (ascii ''lvl'', JsonString (level_label lvl)), (ascii ''kind'', JsonString kind), (ascii ''trace_id'', JsonString trace),
      (ascii ''module'', JsonString (currentCallerModule (le_stack env))),
      (ascii ''payload'', JsonObject (map (\<lambda>(k, v). (k, payload_value v)) payload))]"
proof -
  have h: "hex_nat n \<noteq> []" for n by (subst hex_nat.simps) simp
  have "(if traceId = [] then generateId (le_nanoTime env) (le_millis env) else traceId) \<noteq> []"
    using h by (simp add: generateId_def Let_def)
  moreover have "fold (\<lambda>(k, v). json_put k (payload_value v)) payload [] = map (\<lambda>(k, v). (k, payload_value v)) payload"
    using payload_kept [of "[]" payload] assms by simp
  ultimately show ?thesis
    by (intro exI [of _ "if traceId = [] then generateId (le_nanoTime env) (le_millis env) else traceId"])
      (simp add: log_json_def Let_def ascii_def)
qed

end
