(* ===== verification/Unit_Tests.thy ===== *)
theory Unit_Tests
  imports Stack_Poll Udpgw Http_Proxy Socks_Server Session
begin

text \<open>
  The unit tests of the crates, run in the model. A test is its body: \<open>Some ()\<close> when it passes and
  \<open>None\<close> when an assertion, an \<open>unwrap\<close> or an index panics. Each is evaluated, so that the definitions of
  the other theories agree with the code on the inputs its authors chose. The test of \<open>event.rs\<close> only
  exercises \<open>serde_json\<close> and is left out.
\<close>

section \<open>Assertions\<close>

definition assert :: "bool \<Rightarrow> unit option" where
  "assert b = (if b then Some () else None)"

definition unwrap :: "'e + 'a \<Rightarrow> 'a option" where
  "unwrap r = (case r of Inl _ \<Rightarrow> None | Inr v \<Rightarrow> Some v)"

lemma assert_True [simp]: "assert True = Some ()"
  by (simp add: assert_def)

lemma unwrap_Inr [simp]: "unwrap (Inr v) = Some v"
  by (simp add: unwrap_def)

section \<open>The crate gravital-proto\<close>

definition test_known_vector :: "unit option" where
  "test_known_vector =
     (let data = [0x00, 0x01, 0xf2, 0x03, 0xf4, 0xf5, 0xf6, 0xf7]
      in assert (internet_checksum data = 0x220d))"

definition test_all_zeros :: "unit option" where
  "test_all_zeros = (let data = replicate 20 0 in assert (internet_checksum data = 0xffff))"

definition ipv4_packet :: "bytes option" where
  "ipv4_packet =
     (let pkt = [0x45, 0x00, 0x00, 0x28,
                 0x00, 0x00, 0x40, 0x00,
                 0x40, 0x06, 0x00, 0x00,
                 0xC0, 0xA8, 0x01, 0x01,
                 0xC0, 0xA8, 0x01, 0x02,
                 0x04, 0xD2, 0x00, 0x50, 0x00, 0x00, 0x00, 0x00,
                 0x00, 0x00, 0x00, 0x00, 0x50, 0x02, 0x20, 0x00,
                 0x00, 0x00, 0x00, 0x00]
      in do {
        hdr \<leftarrow> subslice pkt 0 20;
        let csum = internet_checksum hdr;
        pkt \<leftarrow> set_idx pkt 10 (ucast (drop_bit 8 csum));
        pkt \<leftarrow> set_idx pkt 11 (ucast (csum AND 0xFF));
        Some pkt })"

definition test_parse_ipv4 :: "unit option" where
  "test_parse_ipv4 = do {
     pkt \<leftarrow> ipv4_packet;
     r \<leftarrow> Ipv4View_parse pkt; view \<leftarrow> unwrap r;
     src \<leftarrow> Ipv4View_src view; assert (src = Ipv4Addr 192 168 1 1);
     dst \<leftarrow> Ipv4View_dst view; assert (dst = Ipv4Addr 192 168 1 2);
     proto \<leftarrow> Ipv4View_protocol view; assert (proto = Tcp);
     r \<leftarrow> Ipv4View_verify_checksum view; unwrap r }"

definition test_truncated_ipv4 :: "unit option" where
  "test_truncated_ipv4 = do { r \<leftarrow> Ipv4View_parse [0x45, 0x00]; assert (isl r) }"

definition test_invalid_version :: "unit option" where
  "test_invalid_version = do {
     r \<leftarrow> IpView_parse (replicate 20 0x35);
     assert (case r of Inl (InvalidVersion v) \<Rightarrow> v = 3 | _ \<Rightarrow> False) }"

text \<open>\<open>flags().contains(TcpFlags::SYN)\<close>, with the truncation of \<open>bitflags\<close> as the parameter.\<close>

definition test_parse_tcp_syn :: "(u8 \<Rightarrow> u8 \<Rightarrow> u8) \<Rightarrow> unit option" where
  "test_parse_tcp_syn trunc = do {
     let seg = replicate 20 0;
     seg \<leftarrow> set_idx seg 0 0x04; seg \<leftarrow> set_idx seg 1 0xD2;
     seg \<leftarrow> set_idx seg 2 0x00; seg \<leftarrow> set_idx seg 3 0x50;
     seg \<leftarrow> set_idx seg 12 0x50;
     seg \<leftarrow> set_idx seg 13 0x02;
     r \<leftarrow> TcpView_parse seg; view \<leftarrow> unwrap r;
     src \<leftarrow> TcpView_src_port view; assert (src = 1234);
     dst \<leftarrow> TcpView_dst_port view; assert (dst = 80);
     flags \<leftarrow> TcpView_flags trunc view; assert (flags AND 0x02 = 0x02) }"

definition test_parse_udp_dns :: "unit option" where
  "test_parse_udp_dns = do {
     let seg = replicate 12 0;
     seg \<leftarrow> set_idx seg 0 0xC0; seg \<leftarrow> set_idx seg 1 0x1F;
     seg \<leftarrow> set_idx seg 2 0x00; seg \<leftarrow> set_idx seg 3 0x35;
     seg \<leftarrow> set_idx seg 4 0x00; seg \<leftarrow> set_idx seg 5 0x0C;
     view \<leftarrow> unwrap (UdpView_parse seg);
     port \<leftarrow> UdpView_dst_port view; assert (port = 53);
     dns \<leftarrow> UdpView_is_dns view; assert dns }"

lemma checksum_tests: "test_known_vector = Some ()" "test_all_zeros = Some ()"
  by code_simp+

lemma ip_tests: "test_parse_ipv4 = Some ()" "test_truncated_ipv4 = Some ()" "test_invalid_version = Some ()"
  by code_simp+

lemma tcp_tests:
  assumes "bitflags_truncate trunc"
  shows "test_parse_tcp_syn trunc = Some ()"
proof -
  have "trunc = (\<lambda>declared raw. raw AND declared)" using assms by (intro ext) (simp add: bitflags_truncate_def)
  moreover have "test_parse_tcp_syn (\<lambda>declared raw. raw AND declared) = Some ()" by code_simp
  ultimately show ?thesis by simp
qed

lemma udp_tests: "test_parse_udp_dns = Some ()"
  by code_simp

section \<open>The crate gravital-stack\<close>

definition sa :: "u8 \<Rightarrow> u8 \<Rightarrow> u8 \<Rightarrow> u8 \<Rightarrow> u16 \<Rightarrow> SocketAddr" where
  "sa a b c d port = SocketAddr (V4 (Ipv4Addr a b c d)) port"

definition test_basic_insert_and_lookup :: "unit option" where
  "test_basic_insert_and_lookup = do {
     let t = NatTable_new;
     let src = sa 10 42 0 2 54321;
     let dst = sa 8 8 8 8 443;
     (r, t) \<leftarrow> NatTable_insert src dst t; vp \<leftarrow> r;
     assert (vp = 10000);
     assert (NatTable_lookup_forward t src dst = Some vp);
     (rs, rd) \<leftarrow> NatTable_lookup_reverse t vp;
     assert (rs = src);
     assert (rd = dst) }"

definition test_idempotent_insert :: "unit option" where
  "test_idempotent_insert = do {
     let t = NatTable_new;
     let src = sa 10 42 0 2 1;
     let dst = sa 1 1 1 1 80;
     (r, t) \<leftarrow> NatTable_insert src dst t; vp1 \<leftarrow> r;
     (r, t) \<leftarrow> NatTable_insert src dst t; vp2 \<leftarrow> r;
     assert (vp1 = vp2) }"

definition test_different_dst_different_vport :: "unit option" where
  "test_different_dst_different_vport = do {
     let t = NatTable_new;
     let src = sa 10 42 0 2 1000;
     let dst1 = sa 8 8 8 8 443;
     let dst2 = sa 1 1 1 1 443;
     (r, t) \<leftarrow> NatTable_insert src dst1 t; vp1 \<leftarrow> r;
     (r, t) \<leftarrow> NatTable_insert src dst2 t; vp2 \<leftarrow> r;
     assert (vp1 \<noteq> vp2) }"

definition test_remove_frees_port :: "unit option" where
  "test_remove_frees_port = do {
     let t = NatTable_new;
     let src = sa 10 42 0 2 1;
     let dst = sa 9 9 9 9 80;
     (r, t) \<leftarrow> NatTable_insert src dst t; vp \<leftarrow> r;
     let t = NatTable_remove_by_vport vp t;
     assert (NatTable_lookup_forward t src dst = None);
     assert (NatTable_lookup_reverse t vp = None) }"

text \<open>The packet of the rewriting tests: a SYN from 10.42.0.2:54321 to 8.8.8.8:443.\<close>

definition test_syn_packet :: "bytes option" where
  "test_syn_packet = do {
     let pkt = replicate 40 0;
     pkt \<leftarrow> set_idx pkt 0 0x45;
     pkt \<leftarrow> set_idx pkt 1 0x00;
     pkt \<leftarrow> copy_slice pkt 2 4 (to_be16 40);
     pkt \<leftarrow> set_idx pkt 8 64;
     pkt \<leftarrow> set_idx pkt 9 6;
     pkt \<leftarrow> copy_slice pkt 12 16 [10, 42, 0, 2];
     pkt \<leftarrow> copy_slice pkt 16 20 [8, 8, 8, 8];
     pkt \<leftarrow> copy_slice pkt 20 22 (to_be16 54321);
     pkt \<leftarrow> copy_slice pkt 22 24 (to_be16 443);
     pkt \<leftarrow> set_idx pkt 32 0x50;
     pkt \<leftarrow> set_idx pkt 33 0x02;
     pkt \<leftarrow> fix_tcp_checksum pkt;
     fix_ipv4_checksum pkt }"

definition test_checksum_known_vector :: "unit option" where
  "test_checksum_known_vector =
     (let data = [0x00, 0x01, 0xF2, 0x03, 0xF4, 0xF5, 0xF6, 0xF7];
          csum = checksum data;
          total = foldl (\<lambda>a b. a + b) (ucast csum) (map (\<lambda>(a, b). ucast (from_be16 a b)) (chunks_exact2 data));
          folded = (ucast (fold_carry total) :: u16)
      in assert (folded = 0xFFFF))"

definition test_extract_addrs_from_syn :: "unit option" where
  "test_extract_addrs_from_syn = do {
     pkt \<leftarrow> test_syn_packet;
     r \<leftarrow> extract_tcp_addrs pkt; (src, dst) \<leftarrow> r;
     assert (sa_port src = 54321);
     assert (sa_port dst = 443) }"

definition test_is_syn_flag :: "unit option" where
  "test_is_syn_flag = do { pkt \<leftarrow> test_syn_packet; syn \<leftarrow> is_tcp_syn pkt; assert syn }"

definition test_inbound_rewrite_changes_dst_port :: "unit option" where
  "test_inbound_rewrite_changes_dst_port = do {
     pkt \<leftarrow> test_syn_packet;
     (ok, pkt) \<leftarrow> rewrite_inbound pkt 12345; assert ok;
     r \<leftarrow> extract_tcp_addrs pkt; (_, dst) \<leftarrow> r;
     assert (sa_port dst = 12345) }"

definition test_outbound_rewrite_changes_src :: "unit option" where
  "test_outbound_rewrite_changes_src = do {
     pkt \<leftarrow> test_syn_packet;
     pkt \<leftarrow> copy_slice pkt 12 16 [10, 0, 2, 2];
     pkt \<leftarrow> copy_slice pkt 20 22 (to_be16 10000);
     pkt \<leftarrow> set_idx pkt 33 0x12;
     pkt \<leftarrow> fix_tcp_checksum pkt;
     pkt \<leftarrow> fix_ipv4_checksum pkt;
     let real_ip = Ipv4Addr 8 8 8 8;
     (ok, pkt) \<leftarrow> rewrite_outbound pkt real_ip 443; assert ok;
     r \<leftarrow> extract_tcp_addrs pkt; (src, _) \<leftarrow> r;
     assert (sa_ip src = V4 real_ip);
     assert (sa_port src = 443) }"

definition test_invalid_mtu :: "'w \<Rightarrow> unit option" where
  "test_invalid_mtu net0 = do { assert (isl (UserspaceStack_new net0 100)); assert (isl (UserspaceStack_new net0 9001)) }"

definition test_valid_mtu_constructs :: "'w net_ops \<Rightarrow> 'w \<Rightarrow> int \<Rightarrow> unit option" where
  "test_valid_mtu_constructs ops net0 ts = do {
     stack \<leftarrow> unwrap (UserspaceStack_new net0 1280);
     (more, _) \<leftarrow> UserspaceStack_poll ops ts stack;
     assert (\<not> more) }"

definition test_feed_and_poll_no_panic :: "'w net_ops \<Rightarrow> 'w \<Rightarrow> int \<Rightarrow> unit option" where
  "test_feed_and_poll_no_panic ops net0 ts = do {
     stack \<leftarrow> unwrap (UserspaceStack_new net0 1280);
     let pkt = replicate 40 0;
     pkt \<leftarrow> set_idx pkt 0 0x45;
     pkt \<leftarrow> set_idx pkt 9 17;
     let stack = UserspaceStack_feed_inbound pkt stack;
     (_, stack) \<leftarrow> UserspaceStack_poll ops ts stack;
     assert (fst (UserspaceStack_drain_outbound stack) = None) }"

lemmas nat_test_defs =
  NatTable_insert_def insert_loop.simps NatTable_new_def advance_def BASE_PORT_def PORT_RANGE_def
  NatTable_lookup_forward_def NatTable_lookup_reverse_def NatTable_remove_by_vport_def sa_def Let_def

lemma nat_tests:
  "test_basic_insert_and_lookup = Some ()" "test_idempotent_insert = Some ()"
  "test_different_dst_different_vport = Some ()" "test_remove_frees_port = Some ()"
  by (simp_all add: test_basic_insert_and_lookup_def test_idempotent_insert_def
      test_different_dst_different_vport_def test_remove_frees_port_def nat_test_defs)

lemma rewrite_tests:
  "test_checksum_known_vector = Some ()" "test_extract_addrs_from_syn = Some ()" "test_is_syn_flag = Some ()"
  "test_inbound_rewrite_changes_dst_port = Some ()" "test_outbound_rewrite_changes_src = Some ()"
  by code_simp+

text \<open>An interface that has received nothing and has no socket has nothing to do.\<close>

definition quiet_iface :: "'w net_ops \<Rightarrow> 'w \<Rightarrow> bool" where
  "quiet_iface ops net0 \<longleftrightarrow> (\<forall>ts d. dev_rx d = [] \<longrightarrow> (\<exists>w. iface_poll ops ts net0 d = (False, w, d)))"

lemma quiet_poll:
  assumes "quiet_iface ops net0" and "hash_keys ops" and "feed_all ops raws (Inner_new net0 1280) = Some (Inner_new net0 1280)"
  shows "\<exists>s. UserspaceStack_poll ops ts ((Inner_new net0 1280)\<lparr>in_tun_rx := raws\<rparr>) = Some (False, s) \<and> in_tun_tx s = []"
proof -
  have d: "dev_rx (in_device (Inner_new net0 1280)) = []" by (simp add: Inner_new_def TunVirtualDevice_new_def)
  obtain w where w: "iface_poll ops ts net0 (in_device (Inner_new net0 1280)) = (False, w, in_device (Inner_new net0 1280))"
    using assms(1) d unfolding quiet_iface_def by blast
  have k: "key_order ops {} = []" using assms(2) by (auto simp: hash_keys_def)
  have r: "(Inner_new net0 1280)\<lparr>in_tun_rx := []\<rparr> = Inner_new net0 1280" by (simp add: Inner_new_def)
  show ?thesis
    using assms(3) w k by (simp add: UserspaceStack_poll_def Inner_poll_def r Let_def)
      (simp add: Inner_new_def TunVirtualDevice_new_def)
qed

lemma stack_tests:
  "test_invalid_mtu net0 = Some ()"
  "quiet_iface ops net0 \<Longrightarrow> hash_keys ops \<Longrightarrow> test_valid_mtu_constructs ops net0 ts = Some ()"
  "quiet_iface ops net0 \<Longrightarrow> hash_keys ops \<Longrightarrow> test_feed_and_poll_no_panic ops net0 ts = Some ()"
proof -
  let ?udp = "(replicate 40 0)[0 := 0x45, 9 := 17] :: bytes" and ?s = "Inner_new net0 1280"
  show "test_invalid_mtu net0 = Some ()" by (simp add: test_invalid_mtu_def UserspaceStack_new_def)
  have new: "UserspaceStack_new net0 1280 = Inr ?s" by (simp add: UserspaceStack_new_def)
  have "?s\<lparr>in_tun_rx := []\<rparr> = ?s" by (simp add: Inner_new_def)
  then show "test_valid_mtu_constructs ops net0 ts = Some ()" if "quiet_iface ops net0" "hash_keys ops"
    using quiet_poll [OF that, of "[]" ts] by (auto simp: test_valid_mtu_constructs_def new)
  have "extract_tcp_addrs ?udp = Some None" by code_simp
  then have f: "feed_all ops [?udp] ?s = Some ?s" by (simp add: process_inbound_ignored)
  have feed: "UserspaceStack_feed_inbound ?udp ?s = ?s\<lparr>in_tun_rx := [?udp]\<rparr>"
    by (simp add: UserspaceStack_feed_inbound_def Inner_new_def)
  show "test_feed_and_poll_no_panic ops net0 ts = Some ()" if "quiet_iface ops net0" "hash_keys ops"
    using quiet_poll [OF that f, of ts]
    by (auto simp: test_feed_and_poll_no_panic_def new set_idx_def feed UserspaceStack_drain_outbound_def)
qed

lemma demo_quiet: "quiet_iface demo_ops demo0"
  by (simp add: quiet_iface_def)

section \<open>The session automaton\<close>

definition test_peer :: PeerInfo where
  "test_peer = PeerInfo (SocketAddr (V4 (Ipv4Addr 127 0 0 1)) 1080)"

text \<open>\<open>session.dispatch(event).unwrap()\<close>.\<close>

definition dispatch_unwrap :: "SessionEvent \<Rightarrow> unit Session \<Rightarrow> unit Session option" where
  "dispatch_unwrap ev s = (case Session_dispatch ev s of (r, s, _) \<Rightarrow> do { _ \<leftarrow> unwrap r; Some s })"

definition test_happy_path_client :: "unit option" where
  "test_happy_path_client = do {
     let s = Session_new;
     s \<leftarrow> dispatch_unwrap (UserStart Client) s;
     assert (case Session_state s of Preparing _ \<Rightarrow> True | _ \<Rightarrow> False);
     s \<leftarrow> dispatch_unwrap EngineReady s;
     assert (case Session_state s of Connecting _ _ \<Rightarrow> True | _ \<Rightarrow> False);
     s \<leftarrow> dispatch_unwrap (ProxyConnected test_peer) s;
     assert (SessionState_is_active (Session_state s));
     s \<leftarrow> dispatch_unwrap UserStop s;
     assert (case Session_state s of Stopping _ _ \<Rightarrow> True | _ \<Rightarrow> False);
     s \<leftarrow> dispatch_unwrap EngineStopped s;
     assert (Session_state s = Idle) }"

definition test_reconnect_path :: "unit option" where
  "test_reconnect_path = do {
     let s = Session_new;
     s \<leftarrow> dispatch_unwrap (UserStart Client) s;
     s \<leftarrow> dispatch_unwrap EngineReady s;
     s \<leftarrow> dispatch_unwrap (ProxyConnected test_peer) s;
     s \<leftarrow> dispatch_unwrap NetworkLost s;
     assert (case Session_state s of Reconnecting _ _ _ \<Rightarrow> True | _ \<Rightarrow> False);
     s \<leftarrow> dispatch_unwrap (ProxyConnected test_peer) s;
     assert (SessionState_is_active (Session_state s)) }"

definition test_fatal_error_from_any_state :: "unit option" where
  "test_fatal_error_from_any_state = do {
     let s = Session_new;
     s \<leftarrow> dispatch_unwrap (UserStart Server) s;
     s \<leftarrow> dispatch_unwrap (FatalError TunOpenFailed) s;
     assert (case Session_state s of Failed _ _ _ \<Rightarrow> True | _ \<Rightarrow> False);
     s \<leftarrow> dispatch_unwrap UserAcknowledge s;
     assert (Session_state s = Idle) }"

definition test_invalid_transition_rejected :: "unit option" where
  "test_invalid_transition_rejected =
     (case Session_dispatch (ProxyConnected test_peer) (Session_new :: unit Session) of
        (r, s, _) \<Rightarrow> do { assert (isl r); assert (Session_state s = Idle) })"

definition test_session_backoff_sequence :: "unit option" where
  "test_session_backoff_sequence = do {
     assert (backoff_delay 1 = 250);
     assert (backoff_delay 2 = 500);
     assert (backoff_delay 3 = 1000);
     assert (backoff_delay 10 = 30000) }"

lemmas session_test_defs =
  dispatch_unwrap_def Session_dispatch_def Session_state_def Session_new_def transition_def
  SessionState_is_active_def is_recoverable_def mode_or_client_def test_peer_def Let_def

lemma session_tests:
  "test_happy_path_client = Some ()" "test_reconnect_path = Some ()" "test_fatal_error_from_any_state = Some ()"
  "test_invalid_transition_rejected = Some ()"
  by (simp_all add: test_happy_path_client_def test_reconnect_path_def test_fatal_error_from_any_state_def
      test_invalid_transition_rejected_def session_test_defs)

lemma backoff_values:
  "min (saturating_mul 250 (saturating_pow 2 (saturating_sub 1 1))) 30000 = 250"
  "min (saturating_mul 250 (saturating_pow 2 (saturating_sub 2 1))) 30000 = 500"
  "min (saturating_mul 250 (saturating_pow 2 (saturating_sub 3 1))) 30000 = 1000"
  "min (saturating_mul 250 (saturating_pow 2 (saturating_sub 10 1))) 30000 = 30000"
  by (simp_all add: word_unat_eq_iff unat_backoff_ms)

lemma session_backoff_test: "test_session_backoff_sequence = Some ()"
  by (simp add: test_session_backoff_sequence_def backoff_delay_def backoff_values)

section \<open>The crates of the proxies\<close>

definition test_roundtrip_ipv4 :: "(u8 \<Rightarrow> u8 \<Rightarrow> u8) \<Rightarrow> unit option" where
  "test_roundtrip_ipv4 trunc = do {
     let frame = \<lparr>client_id = 42, fr_flags = 0, remote_addr = SocketAddr (V4 (Ipv4Addr 8 8 8 8)) 53,
                  fr_payload = ascii ''hello''\<rparr>;
     let encoded = UdpGwFrame_encode frame;
     r \<leftarrow> UdpGwFrame_decode trunc encoded; decoded \<leftarrow> unwrap r;
     assert (client_id decoded = 42);
     assert (remote_addr decoded = remote_addr frame);
     assert (fr_payload decoded = ascii ''hello'') }"

definition test_parse_host_port_valid :: "unit option" where
  "test_parse_host_port_valid = do {
     (host, port) \<leftarrow> unwrap (parse_host_port (ascii ''www.example.com:443''));
     assert (host = ascii ''www.example.com'');
     assert (port = 443) }"

definition test_parse_host_port_ipv4 :: "unit option" where
  "test_parse_host_port_ipv4 = do {
     (host, port) \<leftarrow> unwrap (parse_host_port (ascii ''1.2.3.4:80''));
     assert (host = ascii ''1.2.3.4'');
     assert (port = 80) }"

definition test_parse_host_port_invalid :: "unit option" where
  "test_parse_host_port_invalid = do {
     assert (isl (parse_host_port (ascii ''no-port'')));
     assert (isl (parse_host_port (ascii ''host:notaport''))) }"

definition test_client_backoff_sequence :: "unit option" where
  "test_client_backoff_sequence = do {
     assert (SocksClient_backoff_delay 1 = 250);
     assert (SocksClient_backoff_delay 2 = 500);
     assert (SocksClient_backoff_delay 3 = 1000);
     assert (SocksClient_backoff_delay 10 = 30000) }"

definition test_server_config_default :: "unit option" where
  "test_server_config_default = do {
     let cfg = SocksServerConfig_default;
     assert (sa_port (srv_bind_addr cfg) = 1080);
     assert (\<not> srv_auth_enabled cfg) }"

lemma udpgw_tests: "test_roundtrip_ipv4 trunc = Some ()"
  by (simp add: test_roundtrip_ipv4_def UdpGwFrame_encode_def UdpGwFrame_decode_def decode_tail_def VERSION_def
      ascii_def to_be32_def to_be16_def from_be32_def from_be16_def subslice_def Let_def)

lemma http_tests:
  "test_parse_host_port_valid = Some ()" "test_parse_host_port_ipv4 = Some ()" "test_parse_host_port_invalid = Some ()"
  by (simp_all add: test_parse_host_port_valid_def test_parse_host_port_ipv4_def test_parse_host_port_invalid_def
      parse_host_port_def parse_u16_def ascii_def Let_def)

lemma socks_tests: "test_client_backoff_sequence = Some ()" "test_server_config_default = Some ()"
  by (simp_all add: test_client_backoff_sequence_def SocksClient_backoff_delay_def backoff_values
      test_server_config_default_def SocksServerConfig_default_def)

section \<open>The benchmark\<close>

text \<open>The main function of \<open>benches/parsing.rs\<close>: the same packet is parsed a million times.\<close>

definition bench_packet :: bytes where
  "bench_packet =
     [0x45, 0x00, 0x00, 0x28,
      0x00, 0x00, 0x40, 0x00,
      0x40, 0x06, 0x00, 0x00,
      10, 42, 0, 2,
      8, 8, 8, 8]"

fun bench_loop :: "nat \<Rightarrow> unit option" where
  "bench_loop 0 = Some ()"
| "bench_loop (Suc n) = do { _ \<leftarrow> IpView_parse bench_packet; bench_loop n }"

definition bench_parsing :: "unit option" where
  "bench_parsing = bench_loop 1000000"

lemma bench_passes: "bench_parsing = Some ()"
proof -
  obtain r where "IpView_parse bench_packet = Some r" using IpView_parse_not_None [of bench_packet] by blast
  then have "bench_loop n = Some ()" for n by (induction n) simp_all
  then show ?thesis by (simp add: bench_parsing_def)
qed

end
