(* ===== verification/Spec2Isabelle.thy ===== *)
theory Spec2Isabelle
  imports Client_Loop Nat_Refinement Udpgw Mcp App_Screens App_Mtu_Field App_Log Unit_Tests
begin

text \<open>
  \<^bold>\<open>Gravital Share: a verification of the Rust engine\<close> under \<open>src/engine/crates\<close> and of the logic of the
  Android application under \<open>src/android\<close>.

  The program shares the connection of one Android device with another. On the client device the
  engine reads IP packets from a TUN device, ends their TCP connections in a userspace stack, and
  relays each connection through a SOCKS5 proxy; DNS queries are answered by a resolver of its own. On
  the server device the engine runs that SOCKS5 proxy and an HTTP CONNECT proxy. A session automaton
  tracks what the engine does. The Android application drives the engine through JNI: services start and
  stop it, a session manager follows its events, and view models search for a proxy and keep settings.

  \<^bold>\<open>Conventions\<close> (\<open>GS_Prelude\<close>). Machine integers are words of their width, so arithmetic wraps;
  \<open>usize\<close> and buffer lengths are natural numbers. A panic is \<open>None\<close>, \<open>Result\<close> is a sum with the error
  on the left, state is passed explicitly, strings are their UTF-8 bytes (\<open>Utf8\<close>, \<open>Text\<close>). Code outside the
  repository is a record of functions on an abstract world, with what it documents as named predicates
  that hold for a concrete instance: smoltcp and tokio's channels (\<open>net_ops\<close>, \<open>net_model\<close>), TCP sockets
  and timers (\<open>tcp_ops\<close> in \<open>Io\<close>; \<open>stream_model\<close>, \<open>frame_model\<close>, \<open>relay_model\<close>, \<open>read_model\<close>), UDP sockets
  (\<open>udp_ops\<close>, \<open>udp_sock_ops\<close>), system calls on the TUN device (\<open>fd_ops\<close>), \<open>httparse\<close> (\<open>head_model\<close>), JSON
  printing and parsing. What the Android framework reports (networks, interfaces, a TUN descriptor) is an
  argument of the functions that use it; an \<open>Int\<close> of Kotlin that is only printed or compared is an integer.

  \<^bold>\<open>Theories, from the packets up.\<close>

  \<^item> \<open>Checksum\<close> and \<open>Packet_Views\<close>: \<open>gravital-proto\<close> (\<open>checksum.rs\<close>, \<open>ip.rs\<close>, \<open>tcp.rs\<close>, \<open>udp.rs\<close>, \<open>icmp.rs\<close>). The
    locale \<open>rfc1071_checksum\<close> is the contract of the three checksum routines of the engine, each of which
    interprets it. Parsers return on every buffer and classify it; every accessor of an accepted view can
    be read, and when a payload cannot is characterised.
  \<^item> \<open>Rewrite\<close>, \<open>Nat_Table\<close>, \<open>Nat_Refinement\<close>, \<open>Userspace_Stack\<close>, \<open>Stack_Flows\<close>, \<open>Stack_Poll\<close>: \<open>gravital-stack\<close>
    (\<open>rewrite.rs\<close>, \<open>nat.rs\<close>, \<open>device.rs\<close>, \<open>connection.rs\<close>, \<open>stack.rs\<close>). Rewritten packets have the intended
    addresses and right checksums. The NAT table satisfies the locale \<open>port_nat\<close> and refines abstract
    bindings for every sequence of calls; its port scan ends after at most one turn more than it has
    entries (\<open>insert_turns\<close>). The poll cycle returns; replies are translated back; entries
    are never freed, so a full table stays full; what happens to the bytes of a connection.
  \<^item> \<open>Tun\<close>: \<open>gravital-tun\<close>. A packet within the MTU is written whatever the number of spurious wake-ups.
  \<^item> \<open>Dns\<close>, \<open>Dns_Packets\<close>: \<open>gravital-dns\<close> and the packet helpers of \<open>runner.rs\<close>. Every query is answered,
    with the resolver's answer or SERVFAIL, in a well-formed packet.
  \<^item> \<open>Udpgw\<close>: \<open>gravital-udpgw\<close>, frame codec and identifier allocation.
  \<^item> \<open>Socks_Proto\<close>, \<open>Socks_Client\<close>, \<open>Socks_Server\<close>: \<open>gravital-socks\<close>. Round trips of the wire format; client
    and server complete each other's handshake and are transparent behind it; retries; the UDP relay.
  \<^item> \<open>Http_Proxy\<close>: \<open>gravital-http\<close>. Tunnels, refusals, targets. Both servers interpret the locale
    \<open>accept_loop\<close> of \<open>Accept_Loop\<close>.
  \<^item> \<open>Obs\<close>, \<open>Mcp\<close>: \<open>gravital-obs\<close>, events and their sinks, and the diagnostic endpoint with its token.
  \<^item> \<open>Session\<close>: \<open>session.rs\<close> of \<open>gravital-engine\<close>: the automaton against its documented table, listeners,
    and \<open>dispatch\<close> at the level of its two locks, as a step relation.
  \<^item> \<open>Engine_Data\<close>, \<open>Client_Loop\<close>, \<open>Engine\<close>: \<open>runner.rs\<close>, \<open>metrics.rs\<close>, \<open>config.rs\<close>. The packet loop, the relay
    of a connection, the tasks of the client in any order (\<open>client_step\<close>; no turn of a task panics); the
    API calls as sequences of atomic actions that \<open>sys_step\<close> interleaves with each other and with the
    tasks; the life of a session, and an invariant of all interleavings. \<open>Client_Loop\<close> also has the fuzz
    targets of \<open>engine/fuzz\<close>, which pass on every input.
  \<^item> \<open>Ffi\<close>: \<open>jni_android.rs\<close>, the codes of \<open>error.rs\<close>, and the crate \<open>gravital-ffi\<close>.
  \<^item> \<open>Session_Manager\<close>, \<open>App_Engine\<close>: \<open>SessionManager.kt\<close> and \<open>EngineBridge.kt\<close>. The events of the engine are
    read right and followed; the coroutines of the manager, its collector and the tasks of the engine
    are steps of one machine (\<open>app_step\<close>): a session seen from the application, two runs in which the
    application and the engine part, and what the application can ever show.
  \<^item> \<open>App_Settings\<close>, \<open>App_Network\<close>, \<open>App_Services\<close>: the settings with their view model, discovery and QR
    codes, the two services, the home and diagnostic view models. Stored settings suit the stack; a
    proxy that is found or scanned reaches the engine as the address meant; an intent becomes a session.
    Both services interpret the locale \<open>session_service\<close>, the contract of a stop.
  \<^item> \<open>App_Screens\<close>, \<open>App_Mtu_Field\<close>, \<open>App_Log\<close>: \<open>HomeScreen.kt\<close>, \<open>SettingsScreen.kt\<close>, \<open>DiagnosticScreen.kt\<close> and
    \<open>GravitalLog.kt\<close>. What the screens show and offer is a function of the state; taps, permissions, the
    services and the session are steps of one device (\<open>device_step\<close>): a tap becomes a connection, and a
    client can be started over a running server. What can be typed as the MTU; what the log shows.
  \<^item> \<open>Unit_Tests\<close>: the unit tests of the crates and the benchmark, as definitions that are evaluated: the model
    gives on each of them the result the authors of the code assert.
  \<^item> This theory: a connection followed through all the parts, from the TUN device of one device to the
    server the other device connects to.

  \<^bold>\<open>Loops.\<close> Loops that end by their data are recursive functions. The port scan of the NAT table, the
  write loop of a socket and the two wait loops of the TUN device are partial functions with \<open>None\<close> for
  not returning; the first two are shown to return from the table invariant and from the channel
  contents, writing to the TUN device for any finite number of wake-ups. \<open>select!\<close> loops are folds over
  the list of events they observe, and runs of the application are lists of steps. No fuel is used in a
  model of the code.

  \<^bold>\<open>Not modelled.\<close> Log output of the engine, thread counts and timer accuracy. Of the application: what Compose
  draws, notifications, the colour schemes, the navigation graph and dependency injection, which are
  declarations for libraries without logic of their own. The screens are drawn from the current state. A
  native call is one step of the application's machine, and a write of the collector sets mode and
  state at once; finer interleavings inside the engine are those of \<open>sys_step\<close>. The test of \<open>event.rs\<close>, which
  exercises the JSON library, the module lists of the crate roots and the build scripts are left out.
\<close>

section \<open>A connection through the whole system\<close>

text \<open>The read task queues a TCP packet for the stack, and nothing else.\<close>

lemma tun_packet_tcp:
  assumes "valid_ipv4 raw" and "raw ! 9 = 6"
  shows "tun_packet raw c = Some (c\<lparr>cl_metrics := count_in (length raw) (cl_metrics c),
     cl_stack := UserspaceStack_feed_inbound raw (cl_stack c)\<rparr>, None)"
proof -
  have ip: "IpView_parse raw = Some (Inr (IpV4 \<lparr>v4_bytes = raw\<rparr>))"
    using assms(1) IpView_parse_V4 [of raw "\<lparr>v4_bytes = raw\<rparr>"] by simp
  have "IpView_protocol (IpV4 \<lparr>v4_bytes = raw\<rparr>) = Some Tcp"
    using packet_protocol [OF ip] assms not_both_versions [OF assms(1)] by (simp add: protocol_is_tcp)
  from tun_packet_eq [OF ip this] show ?thesis by (simp add: Let_def)
qed

text \<open>The next poll after a SYN has a connection to its destination ready for the engine.\<close>

lemma syn_accepted:
  assumes m: "net_model ops live queue" and ok: "poll_ok live s" and rx: "in_tun_rx s = []"
    and "length (in_pending s) < 128"
    and "extract_tcp_addrs raw = Some (Some (src, dst))" and "is_tcp_syn raw = Some True"
    and "card (dom (nat_reverse (in_nat s))) < 50000"
    and "\<forall>h peer. in_active s h \<noteq> Some (dst, peer)"
    and "\<forall>vp. sock_open ops SOCK_BUF IFACE_IP vp (in_net s) \<noteq> None"
  obtains b s' conn where "UserspaceStack_poll ops ts (UserspaceStack_feed_inbound raw s) = Some (b, s')"
    and "conn \<in> set (fst (accept_all s'))" and "vc_remote conn = dst"
proof -
  let ?f = "UserspaceStack_feed_inbound raw s"
  have inv: "stack_inv s" and fin: "finite (dom (in_active s))"
    using ok net_modelD(1) [OF m, of "in_net s"] by (simp_all add: poll_ok_def)
  obtain t vp h w conn peer where step: "process_inbound ops raw s = Some (deliver raw vp t)"
    and conn: "vc_remote conn = dst"
    and pend: "in_pending t = (if length (in_pending s) < 128 then in_pending s @ [conn] else in_pending s)"
    by (rule syn_listens [OF inv net_modelD(14) [OF m] fin assms(5-9)])
  have "poll_ok live ?f" using ok by (simp add: poll_ok_def stack_inv_def UserspaceStack_feed_inbound_def)
  then obtain b s' s1 where poll: "UserspaceStack_poll ops ts ?f = Some (b, s')"
    and feed: "feed_all ops (in_tun_rx ?f) (?f\<lparr>in_tun_rx := []\<rparr>) = Some s1" and same: "in_pending s' = in_pending s1"
    using poll_cycle [OF m] by blast
  have "?f\<lparr>in_tun_rx := []\<rparr> = s" and "in_tun_rx ?f = [raw]"
    using rx by (simp_all add: UserspaceStack_feed_inbound_def)
  then have "s1 = deliver raw vp t" using feed step by simp
  then have "in_pending s' = in_pending s @ [conn]" using same pend assms(4) by (simp add: deliver_def)
  then show thesis using that [OF poll _ conn] by (simp add: accept_all_eq)
qed


text \<open>The SYN of 10.42.0.2:54321 to 8.8.8.8:443 on a new stack, with three bytes to send and two to receive.\<close>

definition demo_client :: "demo_net client_loop" where
  "demo_client = \<lparr>cl_stack = Inner_new demo0 1280, cl_dns = DnsInterceptor_new DnsResolver_with_default,
     cl_metrics = EngineMetrics_new\<rparr>"

definition demo_socks :: SocksClient where
  "demo_socks = SocksClient \<lparr>cc_proxy_addr = zero_addr, max_backoff_ms = 30000\<rparr>"

definition no_sock :: "'w udp_sock_ops" where
  "no_sock = \<lparr>us_bind = \<lambda>_. failE KindOther, us_local_addr = \<lambda>_. failE KindOther, us_send_to = \<lambda>_ _ _. failE KindOther\<rparr>"

lemma demo_client_ready:
  "poll_ok (\<lambda>w. set (dn_socks w)) (cl_stack demo_client)" "in_tun_rx (cl_stack demo_client) = []"
  "length (in_pending (cl_stack demo_client)) < 128" "card (dom (nat_reverse (in_nat (cl_stack demo_client)))) < 50000"
  "\<forall>h peer. in_active (cl_stack demo_client) h \<noteq> Some (demo_dst, peer)"
  "\<forall>vp. sock_open demo_ops SOCK_BUF IFACE_IP vp (in_net (cl_stack demo_client)) \<noteq> None"
  "valid_ipv4 syn_packet" "syn_packet ! 9 = 6"
  using Inner_new_inv [of demo0 1280]
  by (simp_all add: demo_client_def poll_ok_def Inner_new_def demo0_def TunVirtualDevice_new_def NatTable_new_def
      valid_ipv4_def syn_packet_def Let_def)


end
